(* ===== verification/Prelude.thy ===== *)
theory Prelude
  imports Main "HOL-Library.Word"
begin

text \<open>
  Shared vocabulary of the development: the machine types of the C++ sources, the standard
  library operations on \<^verbatim>\<open>std::vector\<close> that the sources use, C++ exceptions as values, and the
  generic lemmas (on overwriting, splitting and counting in lists) that several components need.
\<close>

unbundle bit_operations_syntax

section \<open>Machine types\<close>

type_synonym byte = "8 word"
type_synonym u8 = "8 word"
type_synonym u16 = "16 word"
type_synonym u32 = "32 word"
type_synonym u64 = "64 word"

text \<open>
  A \<^verbatim>\<open>std::size_t\<close> that counts elements of a container or caps such a count is a natural number.
  Where a size crosses the wire it is a 64-bit word, and the conversion is written out
  (\<open>of_nat\<close> and \<open>unat\<close>); the sources are read for a platform whose \<^verbatim>\<open>std::size_t\<close> has 64 bits.
  A \<^verbatim>\<open>std::chrono::steady_clock::duration\<close> is its signed tick count.
\<close>

type_synonym size_t = nat
type_synonym duration = int

section \<open>C++ exceptions and \<^verbatim>\<open>std::vector\<close>\<close>

text \<open>
  \<^verbatim>\<open>std::vector(n)\<close> and \<^verbatim>\<open>resize(n)\<close> throw when the allocation is impossible. The largest vector the
  implementation can allocate is a parameter of the operations that allocate a size read from the
  peer.
\<close>

datatype cpp_exception = Bad_alloc | System_error | Bad_address_cast | Invalid_argument | Out_of_range

datatype 'a outcome = Return 'a | Throw cpp_exception

fun returns :: "'a outcome \<Rightarrow> bool" where
  "returns (Return _) = True"
| "returns (Throw _) = False"

text \<open>\<^verbatim>\<open>v.resize(n)\<close>: truncates, or appends zero bytes.\<close>

definition vec_resize :: "byte list \<Rightarrow> nat \<Rightarrow> byte list" where
  "vec_resize v n = take n v @ replicate (n - length v) 0"

text \<open>Overwriting part of a buffer in place (\<^verbatim>\<open>std::memcpy\<close>, \<^verbatim>\<open>std::copy\<close>).\<close>

definition blit :: "'a list \<Rightarrow> nat \<Rightarrow> 'a list \<Rightarrow> 'a list" where
  "blit dst pos src = take pos dst @ src @ drop (pos + length src) dst"

section \<open>Generic lemmas\<close>

named_theorems op_defs \<open>definitions of the small operations, to be unfolded together\<close>

lemma length_vec_resize [simp]: "length (vec_resize v n) = n"
  by (simp add: vec_resize_def)

lemma length_blit [simp]:
  "pos + length src \<le> length dst \<Longrightarrow> length (blit dst pos src) = length dst"
  by (simp add: blit_def)

lemma blit_whole [simp]: "length src = length dst \<Longrightarrow> blit dst 0 src = src"
  by (simp add: blit_def)

lemma blit_two_halves:
  "length dst = length a + length b \<Longrightarrow> blit (blit dst 0 a) (length a) b = a @ b"
  by (simp add: blit_def)

lemma take_append_exact [simp]: "length a = n \<Longrightarrow> take n (a @ b) = a"
  by simp

lemma drop_append_exact [simp]: "length a = n \<Longrightarrow> drop n (a @ b) = b"
  by simp

lemma length_filter_remove1:
  "x \<in> set xs \<Longrightarrow> length (filter P (remove1 x xs)) = length (filter P xs) - of_bool (P x)"
proof (induction xs)
  case Nil
  then show ?case by simp
next
  case (Cons a xs)
  show ?case
  proof (cases "a = x")
    case True
    then show ?thesis by simp
  next
    case False
    with Cons have IH: "length (filter P (remove1 x xs)) = length (filter P xs) - of_bool (P x)"
      and x: "x \<in> set xs" by auto
    show ?thesis
    proof (cases "P x")
      case True
      with x have "filter P xs \<noteq> []" by (auto simp: filter_empty_conv)
      then have "0 < length (filter P xs)" by simp
      with IH False True show ?thesis by simp
    next
      case False
      with IH \<open>a \<noteq> x\<close> show ?thesis by simp
    qed
  qed
qed

lemma filter_mem_length_pos: "x \<in> set xs \<Longrightarrow> P x \<Longrightarrow> 0 < length (filter P xs)"
  by (auto simp: length_greater_0_conv filter_empty_conv)

section \<open>Step relations\<close>

text \<open>
  The contract between a step relation and its invariant, and what it gives for whole runs. Every
  state machine of the development interprets it.
\<close>

locale step_invariant =
  fixes step :: "'s \<Rightarrow> 's \<Rightarrow> bool"
    and inv :: "'s \<Rightarrow> bool"
  assumes step_inv: "step s t \<Longrightarrow> inv s \<Longrightarrow> inv t"
begin

lemma run_inv: "step\<^sup>*\<^sup>* s t \<Longrightarrow> inv s \<Longrightarrow> inv t"
  by (induction rule: rtranclp_induct) (auto intro: step_inv)

end

text \<open>A step relation that decreases a measure under its invariant has no infinite run, so every run
  can be continued to a state where nothing is left to do.\<close>

locale decreasing_steps = step_invariant +
  fixes weight :: "'s \<Rightarrow> nat"
  assumes step_weight: "step s t \<Longrightarrow> inv s \<Longrightarrow> weight t < weight s"
begin

lemma run_weight: "step\<^sup>*\<^sup>* s t \<Longrightarrow> inv s \<Longrightarrow> weight t \<le> weight s"
proof (induction rule: rtranclp_induct)
  case base
  show ?case by simp
next
  case (step t u)
  then show ?case using run_inv [of s t] step_weight [of t u] by fastforce
qed

lemma quiescence: "inv s \<Longrightarrow> \<exists>t. step\<^sup>*\<^sup>* s t \<and> (\<nexists>u. step t u)"
proof (induction "weight s" arbitrary: s rule: less_induct)
  case less
  show ?case
  proof (cases "\<exists>t. step s t")
    case True
    then obtain t where t: "step s t" by blast
    with less.prems have "weight t < weight s" and "inv t"
      by (auto intro: step_weight step_inv)
    with less.hyps obtain u where "step\<^sup>*\<^sup>* t u \<and> (\<nexists>v. step u v)" by blast
    with t show ?thesis by (meson converse_rtranclp_into_rtranclp)
  qed auto
qed

end

end
