(* ===== verification/Endian.thy ===== *)
theory Endian
  imports Prelude
begin

text \<open>
  Byte order: how the language stores an unsigned integer in memory, and the two conversions of
  \<^verbatim>\<open>src/endian/endian.hpp\<close>. The conversions delegate to \<^verbatim>\<open>boost::endian\<close>, which is not part of the
  repository: its two functions are fields of the \<open>platform\<close> record and their documented behaviour
  is the predicate \<open>boost_endian_ok\<close>.
\<close>

section \<open>Object representation of unsigned integers\<close>

datatype byte_order = Little | Big

primrec le_bytes :: "nat \<Rightarrow> 'a::len word \<Rightarrow> byte list" where
  "le_bytes 0 w = []"
| "le_bytes (Suc n) w = ucast w # le_bytes n (drop_bit 8 w)"

primrec le_value :: "byte list \<Rightarrow> 'a::len word" where
  "le_value [] = 0"
| "le_value (b # bs) = ucast b OR push_bit 8 (le_value bs)"

definition sizeof :: "'a::len word \<Rightarrow> nat" where
  "sizeof w = LENGTH('a) div 8"

definition object_bytes :: "byte_order \<Rightarrow> 'a::len word \<Rightarrow> byte list" where
  "object_bytes ord w =
     (case ord of Little \<Rightarrow> le_bytes (sizeof w) w | Big \<Rightarrow> rev (le_bytes (sizeof w) w))"

definition object_value :: "byte_order \<Rightarrow> byte list \<Rightarrow> 'a::len word" where
  "object_value ord bs = (case ord of Little \<Rightarrow> le_value bs | Big \<Rightarrow> le_value (rev bs))"

definition byte_reverse :: "'a::len word \<Rightarrow> 'a word" where
  "byte_reverse w = le_value (rev (le_bytes (sizeof w) w))"

section \<open>\<^verbatim>\<open>sl::endian\<close>\<close>

record platform =
  native_order :: byte_order
  native_to_little :: "u64 \<Rightarrow> u64"
  little_to_native :: "u64 \<Rightarrow> u64"

text \<open>The documented behaviour of \<^verbatim>\<open>boost::endian\<close>: the identity where the native order is
  little-endian, the reversal of the bytes elsewhere.\<close>

definition boost_endian_ok :: "platform \<Rightarrow> bool" where
  "boost_endian_ok p \<longleftrightarrow>
     (\<forall>x. native_to_little p x = (if native_order p = Little then x else byte_reverse x)) \<and>
     (\<forall>x. little_to_native p x = (if native_order p = Little then x else byte_reverse x))"

definition to_little :: "platform \<Rightarrow> u64 \<Rightarrow> u64" where
  "to_little p x = native_to_little p x"

definition from_little :: "platform \<Rightarrow> u64 \<Rightarrow> u64" where
  "from_little p x = little_to_native p x"

text \<open>A platform of each byte order that satisfies the documented behaviour.\<close>

definition little_platform :: platform where
  "little_platform = \<lparr>native_order = Little, native_to_little = (\<lambda>x. x), little_to_native = (\<lambda>x. x)\<rparr>"

definition big_platform :: platform where
  "big_platform =
     \<lparr>native_order = Big, native_to_little = byte_reverse, little_to_native = byte_reverse\<rparr>"

section \<open>Lemmas\<close>

lemma length_le_bytes [simp]: "length (le_bytes n w) = n"
  by (induction n arbitrary: w) auto

lemma le_value_le_bytes: "le_value (le_bytes n w) = take_bit (8 * n) w"
proof (induction n arbitrary: w)
  case 0
  then show ?case by simp
next
  case (Suc n)
  have "ucast (ucast w :: byte) OR push_bit 8 (take_bit (8 * n) (drop_bit 8 w)) =
        take_bit (8 * Suc n) w"
    by (rule bit_word_eqI) (auto simp: bit_simps)
  with Suc show ?case by simp
qed

lemma le_bytes_take_bit: "8 * n \<le> k \<Longrightarrow> le_bytes n (take_bit k w) = le_bytes n w"
proof (induction n arbitrary: k w)
  case 0
  then show ?case by simp
next
  case (Suc n)
  have "ucast (take_bit k w) = (ucast w :: byte)"
    using Suc.prems by (intro bit_word_eqI) (auto simp: bit_simps)
  moreover have "drop_bit 8 (take_bit k w) = take_bit (k - 8) (drop_bit 8 w)"
    by (simp add: drop_bit_take_bit)
  ultimately show ?case using Suc by simp
qed

lemma le_bytes_le_value:
  "8 * length bs \<le> LENGTH('a) \<Longrightarrow> le_bytes (length bs) (le_value bs :: 'a::len word) = bs"
proof (induction bs)
  case Nil
  then show ?case by simp
next
  case (Cons b bs)
  let ?v = "le_value bs :: 'a word"
  from Cons.prems have len: "8 * length bs + 8 \<le> LENGTH('a)" by simp
  have low: "ucast (ucast b OR push_bit 8 ?v) = b"
    using len by (intro bit_word_eqI) (auto simp: bit_simps)
  have high: "drop_bit 8 (ucast b OR push_bit 8 ?v) = take_bit (LENGTH('a) - 8) ?v"
    using len by (intro bit_word_eqI) (auto simp: bit_simps dest: bit_imp_le_length)
  from len have "le_bytes (length bs) (take_bit (LENGTH('a) - 8) ?v) = le_bytes (length bs) ?v"
    by (simp add: le_bytes_take_bit)
  with low high Cons len show ?case by simp
qed

text \<open>
  The contract of a fixed-width byte encoding: what the framing code relies on when it stores an
  integer into a buffer and reads it back on the other side.
\<close>

locale byte_codec =
  fixes enc :: "'v \<Rightarrow> byte list"
    and dec :: "byte list \<Rightarrow> 'v"
    and width :: nat
  assumes length_enc: "length (enc x) = width"
    and dec_enc: "dec (enc x) = x"
    and enc_dec: "length bs = width \<Longrightarrow> enc (dec bs) = bs"
begin

lemma enc_inject: "enc x = enc y \<longleftrightarrow> x = y"
  by (metis dec_enc)

lemma dec_inject: "length bs = width \<Longrightarrow> length cs = width \<Longrightarrow> dec bs = dec cs \<longleftrightarrow> bs = cs"
  by (metis enc_dec)

lemma dec_prefix: "dec (take width (enc x @ rest)) = x"
  by (simp add: length_enc dec_enc)

lemma enc_append_inject: "enc x @ a = enc y @ b \<longleftrightarrow> x = y \<and> a = b"
  by (auto simp: length_enc enc_inject append_eq_append_conv)

end

lemma sizeof_u64 [simp]: "sizeof (w :: u64) = 8"
  by (simp add: sizeof_def)

lemma length_object_bytes [simp]: "length (object_bytes ord w) = sizeof w"
  by (simp add: object_bytes_def split: byte_order.split)

interpretation le64: byte_codec "le_bytes 8 :: u64 \<Rightarrow> byte list" le_value 8
proof
  fix bs :: "byte list" assume "length bs = 8"
  then show "le_bytes 8 (le_value bs :: u64) = bs"
    using le_bytes_le_value [of bs, where 'a = 64] by simp
qed (simp_all add: le_value_le_bytes take_bit_word_eq_self)

interpretation obj64: byte_codec "object_bytes ord :: u64 \<Rightarrow> byte list" "object_value ord" 8 for ord
proof
  fix x :: u64 and bs :: "byte list"
  show "length (object_bytes ord x) = 8" by simp
  show "object_value ord (object_bytes ord x) = x"
    by (simp add: object_value_def object_bytes_def le64.dec_enc split: byte_order.split)
  assume "length bs = 8"
  then show "object_bytes ord (object_value ord bs :: u64) = bs"
    by (simp add: object_value_def object_bytes_def le64.enc_dec split: byte_order.split)
qed

lemma byte_reverse_involutive [simp]: "byte_reverse (byte_reverse x) = (x :: u64)"
  by (simp add: byte_reverse_def le64.enc_dec le64.dec_enc)

lemma object_bytes_to_little:
  assumes "boost_endian_ok p"
  shows "object_bytes (native_order p) (to_little p x) = le_bytes 8 x"
  using assms
  by (cases "native_order p")
     (simp_all add: boost_endian_ok_def to_little_def object_bytes_def byte_reverse_def le64.enc_dec)

lemma from_little_object_value:
  assumes "boost_endian_ok p" and "length bs = 8"
  shows "from_little p (object_value (native_order p) bs) = le_value bs"
  using assms
  by (cases "native_order p")
     (simp_all add: boost_endian_ok_def from_little_def object_value_def byte_reverse_def le64.enc_dec)

lemma boost_endian_ok_little [simp]: "boost_endian_ok little_platform"
  by (simp add: boost_endian_ok_def little_platform_def)

lemma boost_endian_ok_big [simp]: "boost_endian_ok big_platform"
  by (simp add: boost_endian_ok_def big_platform_def)

end
