(* ===== verification/Serialisation.thy ===== *)
theory Serialisation
  imports Endian
begin

text \<open>
  \<^verbatim>\<open>src/serialisation/serialisation.hpp\<close>: the wrappers around FlatBuffers, and the message schema of
  \<^verbatim>\<open>src/message/*.fbs\<close>. FlatBuffers itself (the builder, the verifier, and the \<^verbatim>\<open>CreateX\<close> and
  accessor functions that flatc generates from the schema) is not part of the repository: it is
  the record \<open>fb_lib\<close>, an argument of every operation that uses it, and the documented round trip
  of the library is the predicate \<open>flatbuffers_ok\<close>.
\<close>

section \<open>The FlatBuffers library as a parameter\<close>

record ('b, 'o) fb_builder =
  fb_new :: 'b
  fb_finish :: "'b \<Rightarrow> 'o \<Rightarrow> 'b"
  fb_pointer :: "'b \<Rightarrow> byte list"
  fb_size :: "'b \<Rightarrow> nat"

record 't fb_table =
  fb_verify :: "byte list \<Rightarrow> bool"
  fb_root :: "byte list \<Rightarrow> 't"

text \<open>The table of \<^verbatim>\<open>message.fbs\<close> and the identifiers of \<^verbatim>\<open>system.fbs\<close>.\<close>

record message_header =
  type_of :: u8
  body_size_of :: u64
  is_system_of :: bool

definition MessageId_HbPing :: u8 where
  "MessageId_HbPing = 0"

definition MessageId_HbPong :: u8 where
  "MessageId_HbPong = 1"

record ('b, 'o) fb_lib =
  fb_ops :: "('b, 'o) fb_builder"
  CreateMessageHeader :: "'b \<Rightarrow> u8 \<times> u64 \<times> bool \<Rightarrow> 'b \<times> 'o"
  CreateHbPingRequest :: "'b \<Rightarrow> unit \<Rightarrow> 'b \<times> 'o"
  CreateHbPongRequest :: "'b \<Rightarrow> unit \<Rightarrow> 'b \<times> 'o"
  MessageHeader_table :: "message_header fb_table"

section \<open>\<^verbatim>\<open>sl::serialisation\<close>\<close>

definition builder_to_vector :: "('b, 'o) fb_builder \<Rightarrow> 'b \<Rightarrow> byte list" where
  "builder_to_vector ops builder = take (fb_size ops builder) (fb_pointer ops builder)"

definition serialise_with :: "('b, 'o) fb_builder \<Rightarrow> 'b \<Rightarrow> ('b \<Rightarrow> 'args \<Rightarrow> 'b \<times> 'o) \<Rightarrow> 'args \<Rightarrow> byte list" where
  "serialise_with ops builder create_fn args =
     (let (builder', request_header) = create_fn builder args
      in builder_to_vector ops (fb_finish ops builder' request_header))"

definition serialise :: "('b, 'o) fb_builder \<Rightarrow> ('b \<Rightarrow> 'args \<Rightarrow> 'b \<times> 'o) \<Rightarrow> 'args \<Rightarrow> byte list" where
  "serialise ops create_fn args = serialise_with ops (fb_new ops) create_fn args"

definition lift_create :: "('b \<Rightarrow> 'args \<Rightarrow> 'b \<times> 'o) \<Rightarrow> 'b \<Rightarrow> 'args \<Rightarrow> 'b \<times> 'o" where
  "lift_create create_fn = (\<lambda>builder args. create_fn builder args)"

definition deserialise :: "'t fb_table \<Rightarrow> byte list \<Rightarrow> 't" where
  "deserialise table buffer = fb_root table buffer"

definition is_valid :: "'t fb_table \<Rightarrow> byte list \<Rightarrow> bool" where
  "is_valid table buffer = fb_verify table buffer"

section \<open>What the sources rely on\<close>

text \<open>
  The documented round trip of one table: a finished buffer passes the verifier and its accessors
  return what the buffer was created from. A FlatBuffer is never empty and never larger than
  2 GiB.
\<close>

definition table_roundtrip ::
  "('b, 'o) fb_builder \<Rightarrow> ('b \<Rightarrow> 'args \<Rightarrow> 'b \<times> 'o) \<Rightarrow> 't fb_table \<Rightarrow> ('args \<Rightarrow> 't) \<Rightarrow> bool" where
  "table_roundtrip ops create_fn table view \<longleftrightarrow>
     (\<forall>args b off buf. create_fn (fb_new ops) args = (b, off) \<longrightarrow>
        buf = take (fb_size ops (fb_finish ops b off)) (fb_pointer ops (fb_finish ops b off)) \<longrightarrow>
        fb_verify table buf \<and> fb_root table buf = view args \<and> 0 < length buf \<and> length buf < 2 ^ 31)"

definition header_view :: "u8 \<times> u64 \<times> bool \<Rightarrow> message_header" where
  "header_view = (\<lambda>(id, n, sys). \<lparr>type_of = id, body_size_of = n, is_system_of = sys\<rparr>)"

definition flatbuffers_ok :: "('b, 'o) fb_lib \<Rightarrow> bool" where
  "flatbuffers_ok fb \<longleftrightarrow>
     table_roundtrip (fb_ops fb) (CreateMessageHeader fb) (MessageHeader_table fb) header_view \<and>
     length (serialise (fb_ops fb) (CreateHbPingRequest fb) ()) < 2 ^ 31 \<and>
     length (serialise (fb_ops fb) (CreateHbPongRequest fb) ()) < 2 ^ 31"

text \<open>
  A library instance for concrete evaluation: a flat ten-byte encoding of the header, and one-byte
  bodies for the two heartbeat tables.
\<close>

definition flat_header :: "u8 \<times> u64 \<times> bool \<Rightarrow> byte list" where
  "flat_header = (\<lambda>(id, n, sys). id # (if sys then 1 else 0) # le_bytes 8 n)"

definition flat_fb :: "(byte list, unit) fb_lib" where
  "flat_fb =
     \<lparr>fb_ops = \<lparr>fb_new = [], fb_finish = (\<lambda>b _. b), fb_pointer = (\<lambda>b. b), fb_size = length\<rparr>,
      CreateMessageHeader = (\<lambda>b args. (b @ flat_header args, ())),
      CreateHbPingRequest = (\<lambda>b _. (b @ [4], ())),
      CreateHbPongRequest = (\<lambda>b _. (b @ [5], ())),
      MessageHeader_table =
        \<lparr>fb_verify = (\<lambda>buf. length buf = 10 \<and> buf ! 1 \<in> {0, 1}),
         fb_root = (\<lambda>buf. \<lparr>type_of = buf ! 0, body_size_of = le_value (drop 2 buf), is_system_of = (buf ! 1 = 1)\<rparr>)\<rparr>\<rparr>"

section \<open>Lemmas\<close>

lemmas serialise_defs = serialise_def serialise_with_def builder_to_vector_def lift_create_def

lemma serialise_lift [simp]: "serialise ops (lift_create create_fn) args = serialise ops create_fn args"
  by (simp add: lift_create_def)

lemma table_roundtripD:
  assumes "table_roundtrip ops create_fn table view"
  shows "is_valid table (serialise ops create_fn args)"
    and "deserialise table (serialise ops create_fn args) = view args"
    and "0 < length (serialise ops create_fn args)"
    and "length (serialise ops create_fn args) < 2 ^ 31"
  using assms
  by (cases "create_fn (fb_new ops) args";
      auto simp: table_roundtrip_def serialise_defs is_valid_def deserialise_def)+

lemma flatbuffers_ok_header:
  "flatbuffers_ok fb \<Longrightarrow>
     table_roundtrip (fb_ops fb) (CreateMessageHeader fb) (MessageHeader_table fb) header_view"
  by (simp add: flatbuffers_ok_def)

lemma serialise_flat_fb: "serialise (fb_ops flat_fb) create_fn args = fst (create_fn [] args)"
  by (cases "create_fn [] args")
     (simp add: serialise_def serialise_with_def builder_to_vector_def flat_fb_def)

lemma flat_fb_creates [simp]:
  "CreateMessageHeader flat_fb b hargs = (b @ flat_header hargs, ())"
  "CreateHbPingRequest flat_fb b () = (b @ [4], ())"
  "CreateHbPongRequest flat_fb b () = (b @ [5], ())"
  by (simp_all add: flat_fb_def)

lemma length_flat_header [simp]: "length (flat_header hargs) = 10"
  by (simp add: flat_header_def split: prod.split)

lemma flatbuffers_ok_flat_fb [simp]: "flatbuffers_ok flat_fb"
  by (auto simp: flatbuffers_ok_def table_roundtrip_def flat_fb_def flat_header_def header_view_def
      serialise_defs le64.dec_enc)

end
