(* ===== verification/Socket_Interface.thy ===== *)
theory Socket_Interface
  imports Serialisation
begin

text \<open>
  The abstract class \<^verbatim>\<open>sl::socket\<close> of \<^verbatim>\<open>src/network/socket.hpp\<close>. A reference to a socket is a record
  of its virtual functions (\<open>socket_ops\<close>) together with a state of any type. The non-virtual
  members \<^verbatim>\<open>read<T>\<close>, \<^verbatim>\<open>write<T>\<close> and \<^verbatim>\<open>erase\<close> are defined over the record, as in the code. What
  the callers of a socket rely on is stated as locales, interpreted where the socket classes are
  defined.
\<close>

section \<open>The virtual functions\<close>

datatype handshake_type = Client_handshake | Server_handshake

definition default_max_message_size :: size_t where
  "default_max_message_size = 0"

definition default_max_pending_writes :: size_t where
  "default_max_pending_writes = 0"

text \<open>
  A read fills a buffer in place: the operation takes the buffer's old contents and returns the
  success flag with the new contents. \<^verbatim>\<open>ipv4_address\<close> may throw.
\<close>

record 's socket_ops =
  op_set_idle_timeout :: "duration \<Rightarrow> 's \<Rightarrow> 's"
  op_set_heartbeat_timeout :: "duration \<Rightarrow> 's \<Rightarrow> 's"
  op_set_handshake_timeout :: "duration \<Rightarrow> 's \<Rightarrow> 's"
  op_set_max_message_size :: "size_t \<Rightarrow> 's \<Rightarrow> 's"
  op_max_message_size :: "'s \<Rightarrow> size_t"
  op_set_max_pending_writes :: "size_t \<Rightarrow> 's \<Rightarrow> 's"
  op_max_pending_writes :: "'s \<Rightarrow> size_t"
  op_read :: "'s \<Rightarrow> byte list \<Rightarrow> bool \<times> byte list \<times> 's"
  op_write :: "'s \<Rightarrow> byte list \<Rightarrow> bool \<times> 's"
  op_close :: "'s \<Rightarrow> 's"
  op_ipv4_address :: "'s \<Rightarrow> u32 outcome"

section \<open>Non-virtual members\<close>

definition read_value :: "'s socket_ops \<Rightarrow> platform \<Rightarrow> 's \<Rightarrow> u64 \<Rightarrow> bool \<times> u64 \<times> 's" where
  "read_value ops p s value =
     (let (ok, buffer, s') = op_read ops s (object_bytes (native_order p) value)
      in (ok, object_value (native_order p) buffer, s'))"

definition write_value :: "'s socket_ops \<Rightarrow> platform \<Rightarrow> 's \<Rightarrow> u64 \<Rightarrow> bool \<times> 's" where
  "write_value ops p s value = op_write ops s (object_bytes (native_order p) value)"

definition erase :: "'s socket_ops \<Rightarrow> 's \<Rightarrow> size_t \<Rightarrow> 's" where
  "erase ops s n =
     (let dummy_buffer = replicate n 0; (_, _, s') = op_read ops s dummy_buffer in s')"

section \<open>The contracts\<close>

text \<open>
  What every socket guarantees: a read never changes the size of the caller's buffer, and neither
  reads nor writes change the size cap.
\<close>

locale msg_socket =
  fixes ops :: "'s socket_ops"
  assumes read_length: "op_read ops s buf = (ok, buf', s') \<Longrightarrow> length buf' = length buf"
    and read_cap: "op_read ops s buf = (ok, buf', s') \<Longrightarrow> op_max_message_size ops s' = op_max_message_size ops s"
    and write_cap: "op_write ops s bs = (wok, s') \<Longrightarrow> op_max_message_size ops s' = op_max_message_size ops s"
begin

lemma read_value_cap:
  "read_value ops p s v = (ok, w, s') \<Longrightarrow> op_max_message_size ops s' = op_max_message_size ops s"
  by (auto simp: read_value_def Let_def dest: read_cap split: prod.splits)

end

text \<open>
  A socket over byte streams: \<open>inb\<close> is what can still be read, \<open>outb\<close> what has been written, and
  \<open>echo\<close> says which of the bytes written come back to the reader (all of them on a loopback socket,
  none on a connection). A read takes exactly the requested bytes from the front, or fails.
\<close>

locale stream_socket = msg_socket ops for ops :: "'s socket_ops" +
  fixes inb :: "'s \<Rightarrow> byte list"
    and outb :: "'s \<Rightarrow> byte list"
    and echo :: "byte list \<Rightarrow> byte list"
    and invar :: "'s \<Rightarrow> bool"
  assumes read_enough: "invar s \<Longrightarrow> length buf \<le> length (inb s) \<Longrightarrow>
      \<exists>s'. op_read ops s buf = (True, take (length buf) (inb s), s') \<and> invar s' \<and>
           inb s' = drop (length buf) (inb s) \<and> outb s' = outb s"
    and read_short: "invar s \<Longrightarrow> length (inb s) < length buf \<Longrightarrow>
      \<exists>buf' s'. op_read ops s buf = (False, buf', s')"
    and write_stream: "invar s \<Longrightarrow> op_write ops s bs = (ok, s') \<Longrightarrow>
      invar s' \<and> inb s' = inb s @ echo bs \<and> (ok \<longrightarrow> outb s' = outb s @ bs)"
begin

lemma read_enough_append:
  assumes "invar s" and "inb s = data @ rest" and "length buf = length data"
  obtains s' where "op_read ops s buf = (True, data, s')" and "invar s'" and "inb s' = rest"
    and "outb s' = outb s"
  using read_enough [of s buf] assms by auto

lemma read_value_enough:
  assumes "invar s" and "inb s = data @ rest" and "length data = 8"
  obtains s' where "read_value ops p s v = (True, object_value (native_order p) data, s')"
    and "invar s'" and "inb s' = rest" and "outb s' = outb s"
proof -
  have "length (object_bytes (native_order p) v) = length data"
    by (simp add: assms(3))
  with assms(1,2) obtain s' where "op_read ops s (object_bytes (native_order p) v) = (True, data, s')"
    "invar s'" "inb s' = rest" "outb s' = outb s"
    by (rule read_enough_append)
  then show thesis by (intro that [of s']) (simp_all add: read_value_def)
qed

lemma read_value_short:
  assumes "invar s" and "length (inb s) < 8"
  obtains w s' where "read_value ops p s v = (False, w, s')"
proof -
  have "length (inb s) < length (object_bytes (native_order p) v)"
    by (simp add: assms(2))
  with read_short assms(1) obtain b s' where "op_read ops s (object_bytes (native_order p) v) = (False, b, s')"
    by blast
  then show thesis by (intro that) (simp add: read_value_def)
qed

lemma erase_drops:
  assumes "invar s" and "n \<le> length (inb s)"
  shows "invar (erase ops s n) \<and> inb (erase ops s n) = drop n (inb s)"
proof -
  have "length (replicate n (0 :: byte)) \<le> length (inb s)"
    using assms(2) by simp
  from read_enough [OF assms(1) this] show ?thesis
    by (auto simp: erase_def Let_def)
qed

end

text \<open>What the session manager relies on: configuring a socket does not change who its peer is.\<close>

locale managed_socket =
  fixes ops :: "'s socket_ops"
  assumes ip_set_idle: "op_ipv4_address ops (op_set_idle_timeout ops t s) = op_ipv4_address ops s"
    and ip_set_heartbeat: "op_ipv4_address ops (op_set_heartbeat_timeout ops t s) = op_ipv4_address ops s"
    and ip_set_handshake: "op_ipv4_address ops (op_set_handshake_timeout ops t s) = op_ipv4_address ops s"
    and ip_set_message: "op_ipv4_address ops (op_set_max_message_size ops n s) = op_ipv4_address ops s"
    and ip_set_pending: "op_ipv4_address ops (op_set_max_pending_writes ops n s) = op_ipv4_address ops s"
    and ip_close: "op_ipv4_address ops (op_close ops s) = op_ipv4_address ops s"
    and cap_set_message: "op_max_message_size ops (op_set_max_message_size ops n s) = n"
    and cap_set_pending: "op_max_message_size ops (op_set_max_pending_writes ops n s) = op_max_message_size ops s"
begin

lemmas ip_simps = ip_set_idle ip_set_heartbeat ip_set_handshake ip_set_message ip_set_pending ip_close

end

end
