(* ===== verification/Message.thy ===== *)
theory Message
  imports Socket_Interface
begin

text \<open>
  \<^verbatim>\<open>src/message/message.hpp\<close> and \<^verbatim>\<open>message.cpp\<close>: building frames, the synchronous send and receive
  paths, and the asynchronous send wrappers. The reference meaning of the wire format is the pure
  function \<open>decode_frame\<close>, which both the synchronous receive loop here and the asynchronous
  session refine.
\<close>

section \<open>Building messages\<close>

record message_t =
  msg_header :: "byte list"
  msg_body :: "byte list"

definition make_header :: "('b, 'o) fb_lib \<Rightarrow> u8 \<Rightarrow> size_t \<Rightarrow> bool \<Rightarrow> byte list" where
  "make_header fb mid body_size is_system =
     serialise (fb_ops fb) (lift_create (CreateMessageHeader fb)) (mid, of_nat body_size, is_system)"

definition make_frame_header :: "platform \<Rightarrow> ('b, 'o) fb_lib \<Rightarrow> u8 \<Rightarrow> size_t \<Rightarrow> bool \<Rightarrow> byte list" where
  "make_frame_header p fb mid body_size is_system =
     (let header_fb = make_header fb mid body_size is_system;
          wire_size = to_little p (of_nat (length header_fb));
          result = replicate (sizeof wire_size + length header_fb) 0;
          result = blit result 0 (object_bytes (native_order p) wire_size)
      in blit result (sizeof wire_size) header_fb)"

definition make_from_body :: "platform \<Rightarrow> ('b, 'o) fb_lib \<Rightarrow> u8 \<Rightarrow> byte list \<Rightarrow> bool \<Rightarrow> message_t" where
  "make_from_body p fb mid bs is_system =
     \<lparr>msg_header = make_frame_header p fb mid (length bs) is_system, msg_body = bs\<rparr>"

definition make_msg ::
  "platform \<Rightarrow> ('b, 'o) fb_lib \<Rightarrow> ('b \<Rightarrow> 'args \<Rightarrow> 'b \<times> 'o) \<Rightarrow> bool \<Rightarrow> u8 \<Rightarrow> 'args \<Rightarrow> message_t" where
  "make_msg p fb create_fn is_system mid args =
     (let bs = serialise (fb_ops fb) (lift_create create_fn) args
      in \<lparr>msg_header = make_frame_header p fb mid (length bs) is_system, msg_body = bs\<rparr>)"

section \<open>Synchronous send\<close>

definition send_buffer :: "'s socket_ops \<Rightarrow> 's \<Rightarrow> byte list \<Rightarrow> byte list \<Rightarrow> bool \<times> 's" where
  "send_buffer ops s header bs =
     (let (header_ok, s1) = op_write ops s header
      in if \<not> header_ok then (False, s1)
         else if bs = [] then (True, s1)
         else op_write ops s1 bs)"

definition send ::
  "'s socket_ops \<Rightarrow> platform \<Rightarrow> ('b, 'o) fb_lib \<Rightarrow> ('b \<Rightarrow> 'args \<Rightarrow> 'b \<times> 'o) \<Rightarrow> bool \<Rightarrow> 's \<Rightarrow> u8 \<Rightarrow> 'args \<Rightarrow> bool \<times> 's" where
  "send ops p fb create_fn is_system s mid args =
     (let m = make_msg p fb create_fn is_system mid args
      in send_buffer ops s (msg_header m) (msg_body m))"

definition send_view ::
  "'s socket_ops \<Rightarrow> platform \<Rightarrow> ('b, 'o) fb_lib \<Rightarrow> bool \<Rightarrow> 's \<Rightarrow> u8 \<Rightarrow> byte list \<Rightarrow> bool \<times> 's" where
  "send_view ops p fb is_system s mid bs =
     (let header = make_frame_header p fb mid (length bs) is_system
      in send_buffer ops s header bs)"

definition send_ping :: "'s socket_ops \<Rightarrow> platform \<Rightarrow> ('b, 'o) fb_lib \<Rightarrow> 's \<Rightarrow> bool \<times> 's" where
  "send_ping ops p fb s = send ops p fb (CreateHbPingRequest fb) True s MessageId_HbPing ()"

section \<open>Synchronous receive\<close>

text \<open>
  One iteration of the loop of \<^verbatim>\<open>recv_buffer\<close> either ends the call or goes round again. \<open>lim\<close> is the
  largest vector that can be allocated and \<open>cap\<close> the socket's \<^verbatim>\<open>max_message_size\<close>, read once before
  the loop.
\<close>

datatype 's recv_step =
    Done "u8 option outcome" "byte list" 's
  | Again "byte list" 's

definition recv_one ::
  "'s socket_ops \<Rightarrow> platform \<Rightarrow> ('b, 'o) fb_lib \<Rightarrow> size_t \<Rightarrow> size_t \<Rightarrow> 's \<Rightarrow> byte list \<Rightarrow> 's recv_step" where
  "recv_one ops p fb lim cap s body_buffer =
     (let (ok, le_header_size, s) = read_value ops p s 0 in
      if \<not> ok then Done (Return None) body_buffer s else
      let header_size = unat (from_little p le_header_size) in
      if cap \<noteq> 0 \<and> header_size > cap then Done (Return None) body_buffer s else
      if header_size > lim then Done (Throw Bad_alloc) body_buffer s else
      let (ok, header_buffer, s) = op_read ops s (replicate header_size 0) in
      if \<not> ok then Done (Return None) body_buffer s else
      if \<not> is_valid (MessageHeader_table fb) header_buffer then Done (Return None) body_buffer s else
      let header = deserialise (MessageHeader_table fb) header_buffer;
          mid = type_of header;
          body_size = unat (body_size_of header);
          is_system = is_system_of header in
      if cap \<noteq> 0 \<and> body_size > cap then Done (Return None) body_buffer s else
      if body_size > lim then Done (Throw Bad_alloc) body_buffer s else
      let (ok, body_buffer, s) = op_read ops s (vec_resize body_buffer body_size) in
      if \<not> ok then Done (Return None) body_buffer s else
      if \<not> is_system then Done (Return (Some mid)) body_buffer s else
      if mid = MessageId_HbPing then
        let (_, s) = send ops p fb (CreateHbPongRequest fb) True s MessageId_HbPong ()
        in Again body_buffer s
      else Again body_buffer s)"

partial_function (option) recv_loop ::
  "'s socket_ops \<Rightarrow> platform \<Rightarrow> ('b, 'o) fb_lib \<Rightarrow> size_t \<Rightarrow> size_t \<Rightarrow> 's \<Rightarrow> byte list \<Rightarrow>
   (u8 option outcome \<times> byte list \<times> 's) option" where
  "recv_loop ops p fb lim cap s body_buffer =
     (case recv_one ops p fb lim cap s body_buffer of
        Done r body_buffer s \<Rightarrow> Some (r, body_buffer, s)
      | Again body_buffer s \<Rightarrow> recv_loop ops p fb lim cap s body_buffer)"

definition recv_buffer ::
  "'s socket_ops \<Rightarrow> platform \<Rightarrow> ('b, 'o) fb_lib \<Rightarrow> size_t \<Rightarrow> 's \<Rightarrow> byte list \<Rightarrow>
   (u8 option outcome \<times> byte list \<times> 's) option" where
  "recv_buffer ops p fb lim s body_buffer =
     recv_loop ops p fb lim (op_max_message_size ops s) s body_buffer"

text \<open>\<^verbatim>\<open>recv<T>\<close>: a null pointer is \<open>None\<close>.\<close>

definition recv ::
  "'s socket_ops \<Rightarrow> platform \<Rightarrow> ('b, 'o) fb_lib \<Rightarrow> size_t \<Rightarrow> 't fb_table \<Rightarrow> 's \<Rightarrow> byte list \<Rightarrow>
   ('t option outcome \<times> byte list \<times> 's) option" where
  "recv ops p fb lim table s buffer =
     (case recv_buffer ops p fb lim s buffer of
        None \<Rightarrow> None
      | Some (Throw e, buffer, s) \<Rightarrow> Some (Throw e, buffer, s)
      | Some (Return None, buffer, s) \<Rightarrow> Some (Return None, buffer, s)
      | Some (Return (Some mid), buffer, s) \<Rightarrow>
          (if \<not> is_valid table buffer then Some (Return None, buffer, s)
           else Some (Return (Some (deserialise table buffer)), buffer, s)))"

section \<open>Asynchronous send\<close>

text \<open>
  The virtual \<^verbatim>\<open>async_write(head, body, handler)\<close> is an argument: it takes the closure that the
  wrapper builds and returns the new state with the calls it made before returning (the type of a
  call is left to the socket class). A closure
  is a value of \<open>send_closure\<close>: what it captured, and what it does when it is invoked. A user's
  completion handler is callable with no argument or with the result.
\<close>

datatype 'h completion_handler = On_done 'h | On_result 'h

datatype 'h adapted = Forward_result 'h | Drop_result 'h

fun adapt :: "'h completion_handler \<Rightarrow> 'h adapted" where
  "adapt (On_result h) = Forward_result h"
| "adapt (On_done h) = Drop_result h"

datatype 'h send_closure =
    Notify_message "'h adapted" message_t
  | Release_message message_t
  | Notify_header "'h adapted" "byte list"
  | Release_header "byte list"

fun run_adapted :: "'h adapted \<Rightarrow> bool \<Rightarrow> 'h \<times> bool option" where
  "run_adapted (Forward_result h) ok = (h, Some ok)"
| "run_adapted (Drop_result h) ok = (h, None)"

fun run_send_closure :: "'h send_closure \<Rightarrow> bool \<Rightarrow> ('h \<times> bool option) list" where
  "run_send_closure (Notify_message a _) ok = [run_adapted a ok]"
| "run_send_closure (Notify_header a _) ok = [run_adapted a ok]"
| "run_send_closure (Release_message _) ok = []"
| "run_send_closure (Release_header _) ok = []"

type_synonym ('h, 's, 'c) async_writer =
  "'s \<Rightarrow> byte list \<Rightarrow> byte list \<Rightarrow> 'h send_closure option \<Rightarrow> 's \<times> 'c list"

definition async_send_buffer ::
  "('h, 's, 'c) async_writer \<Rightarrow> 's \<Rightarrow> byte list \<Rightarrow> byte list \<Rightarrow> 'h send_closure \<Rightarrow> 's \<times> 'c list" where
  "async_send_buffer async_write s header bs handler = async_write s header bs (Some handler)"

definition async_send ::
  "('h, 's, 'c) async_writer \<Rightarrow> platform \<Rightarrow> ('b, 'o) fb_lib \<Rightarrow> ('b \<Rightarrow> 'args \<Rightarrow> 'b \<times> 'o) \<Rightarrow> bool \<Rightarrow>
   's \<Rightarrow> u8 \<Rightarrow> 'h completion_handler \<Rightarrow> 'args \<Rightarrow> 's \<times> 'c list" where
  "async_send async_write p fb create_fn is_system s mid handler args =
     (let owned = make_msg p fb create_fn is_system mid args
      in async_send_buffer async_write s (msg_header owned) (msg_body owned)
           (Notify_message (adapt handler) owned))"

definition async_send_forget ::
  "('h, 's, 'c) async_writer \<Rightarrow> platform \<Rightarrow> ('b, 'o) fb_lib \<Rightarrow> ('b \<Rightarrow> 'args \<Rightarrow> 'b \<times> 'o) \<Rightarrow> bool \<Rightarrow>
   's \<Rightarrow> u8 \<Rightarrow> 'args \<Rightarrow> 's \<times> 'c list" where
  "async_send_forget async_write p fb create_fn is_system s mid args =
     (let owned = make_msg p fb create_fn is_system mid args
      in async_send_buffer async_write s (msg_header owned) (msg_body owned) (Release_message owned))"

definition async_send_view ::
  "('h, 's, 'c) async_writer \<Rightarrow> platform \<Rightarrow> ('b, 'o) fb_lib \<Rightarrow> bool \<Rightarrow>
   's \<Rightarrow> u8 \<Rightarrow> 'h completion_handler \<Rightarrow> byte list \<Rightarrow> 's \<times> 'c list" where
  "async_send_view async_write p fb is_system s mid handler bs =
     (let header = make_frame_header p fb mid (length bs) is_system
      in async_send_buffer async_write s header bs (Notify_header (adapt handler) header))"

definition async_send_view_forget ::
  "('h, 's, 'c) async_writer \<Rightarrow> platform \<Rightarrow> ('b, 'o) fb_lib \<Rightarrow> bool \<Rightarrow>
   's \<Rightarrow> u8 \<Rightarrow> byte list \<Rightarrow> 's \<times> 'c list" where
  "async_send_view_forget async_write p fb is_system s mid bs =
     (let header = make_frame_header p fb mid (length bs) is_system
      in async_send_buffer async_write s header bs (Release_header header))"

section \<open>The wire format\<close>

text \<open>
  The reference decoder of one frame: eight bytes of little-endian header size, the header, the
  body. It says what the two receive paths must do with the bytes of the peer.
\<close>

datatype decoded =
    Frame u8 bool "byte list" "byte list"
  | Incomplete
  | Refused
  | Alloc_failure

definition decode_frame :: "('b, 'o) fb_lib \<Rightarrow> size_t \<Rightarrow> size_t \<Rightarrow> byte list \<Rightarrow> decoded" where
  "decode_frame fb lim cap bs =
     (if length bs < 8 then Incomplete else
      let n = unat (le_value (take 8 bs) :: u64); r1 = drop 8 bs in
      if cap \<noteq> 0 \<and> cap < n then Refused else
      if lim < n then Alloc_failure else
      if length r1 < n then Incomplete else
      if \<not> is_valid (MessageHeader_table fb) (take n r1) then Refused else
      let h = deserialise (MessageHeader_table fb) (take n r1); m = unat (body_size_of h); r2 = drop n r1 in
      if cap \<noteq> 0 \<and> cap < m then Refused else
      if lim < m then Alloc_failure else
      if length r2 < m then Incomplete else
      Frame (type_of h) (is_system_of h) (take m r2) (drop m r2))"

text \<open>The bytes of one message on the wire.\<close>

definition frame_bytes :: "('b, 'o) fb_lib \<Rightarrow> u8 \<Rightarrow> bool \<Rightarrow> byte list \<Rightarrow> byte list" where
  "frame_bytes fb mid sys bs =
     (let h = make_header fb mid (length bs) sys in le_bytes 8 (of_nat (length h) :: u64) @ h @ bs)"

text \<open>A message whose header and body pass a size cap and can be allocated.\<close>

definition fits :: "('b, 'o) fb_lib \<Rightarrow> size_t \<Rightarrow> size_t \<Rightarrow> u8 \<Rightarrow> bool \<Rightarrow> byte list \<Rightarrow> bool" where
  "fits fb lim cap mid sys bs \<longleftrightarrow>
     length bs < 2 ^ 64 \<and> length bs \<le> lim \<and> length (make_header fb mid (length bs) sys) \<le> lim \<and>
     (cap \<noteq> 0 \<longrightarrow> length bs \<le> cap \<and> length (make_header fb mid (length bs) sys) \<le> cap)"

definition pong_bytes :: "('b, 'o) fb_lib \<Rightarrow> byte list" where
  "pong_bytes fb =
     frame_bytes fb MessageId_HbPong True (serialise (fb_ops fb) (CreateHbPongRequest fb) ())"

end
