(* ===== verification/Memory_Socket.thy ===== *)
theory Memory_Socket
  imports Socket_Interface
begin

text \<open>
  \<^verbatim>\<open>tests/memory_socket.hpp\<close>: the in-memory loopback socket that the repository's unit tests inject
  through the abstract class. A write appends to the buffer, a read consumes it in order.
\<close>

record memory_socket =
  ms_buffer :: "byte list"
  ms_read_pos :: nat
  ms_max_message_size :: size_t
  ms_max_pending_writes :: size_t
  ms_ipv4_address :: u32

definition new_memory_socket :: memory_socket where
  "new_memory_socket =
     \<lparr>ms_buffer = [], ms_read_pos = 0, ms_max_message_size = default_max_message_size,
      ms_max_pending_writes = default_max_pending_writes, ms_ipv4_address = 0\<rparr>"

definition ms_read :: "memory_socket \<Rightarrow> byte list \<Rightarrow> bool \<times> byte list \<times> memory_socket" where
  "ms_read s buffer =
     (if ms_read_pos s + length buffer > length (ms_buffer s) then (False, buffer, s)
      else (True, blit buffer 0 (take (length buffer) (drop (ms_read_pos s) (ms_buffer s))),
            s\<lparr>ms_read_pos := ms_read_pos s + length buffer\<rparr>))"

definition ms_write :: "memory_socket \<Rightarrow> byte list \<Rightarrow> bool \<times> memory_socket" where
  "ms_write s buffer = (True, s\<lparr>ms_buffer := ms_buffer s @ buffer\<rparr>)"

definition ms_async_read :: "memory_socket \<Rightarrow> byte list \<Rightarrow> 'h option \<Rightarrow> memory_socket \<times> ('h \<times> bool \<times> byte list) list" where
  "ms_async_read s buffer handler =
     (let (ok, buffer', s') = ms_read s buffer
      in (s', case handler of None \<Rightarrow> [] | Some h \<Rightarrow> [(h, ok, buffer')]))"

definition ms_async_write :: "memory_socket \<Rightarrow> byte list \<Rightarrow> byte list \<Rightarrow> 'h option \<Rightarrow> memory_socket \<times> ('h \<times> bool) list" where
  "ms_async_write s head body handler =
     (let (head_ok, s1) = (if head = [] then (True, s) else ms_write s head);
          (body_ok, s2) = (if \<not> head_ok \<or> body = [] then (True, s1) else ms_write s1 body)
      in (s2, case handler of None \<Rightarrow> [] | Some h \<Rightarrow> [(h, head_ok \<and> body_ok)]))"

definition ms_async_write_one :: "memory_socket \<Rightarrow> byte list \<Rightarrow> 'h option \<Rightarrow> memory_socket \<times> ('h \<times> bool) list" where
  "ms_async_write_one s buffer handler =
     (let (ok, s') = ms_write s buffer in (s', case handler of None \<Rightarrow> [] | Some h \<Rightarrow> [(h, ok)]))"

definition ms_async_connect :: "memory_socket \<Rightarrow> 'h option \<Rightarrow> memory_socket \<times> ('h \<times> bool) list" where
  "ms_async_connect s handler = (s, case handler of None \<Rightarrow> [] | Some h \<Rightarrow> [(h, True)])"

definition ms_async_handshake :: "memory_socket \<Rightarrow> 'h option \<Rightarrow> memory_socket \<times> ('h \<times> bool) list" where
  "ms_async_handshake s handler = (s, case handler of None \<Rightarrow> [] | Some h \<Rightarrow> [(h, True)])"

definition ms_set_ipv4_address :: "u32 \<Rightarrow> memory_socket \<Rightarrow> memory_socket" where
  "ms_set_ipv4_address ip s = s\<lparr>ms_ipv4_address := ip\<rparr>"

definition memory_ops :: "memory_socket socket_ops" where
  "memory_ops =
     \<lparr>op_set_idle_timeout = (\<lambda>_ s. s), op_set_heartbeat_timeout = (\<lambda>_ s. s),
      op_set_handshake_timeout = (\<lambda>_ s. s),
      op_set_max_message_size = (\<lambda>n s. s\<lparr>ms_max_message_size := n\<rparr>),
      op_max_message_size = ms_max_message_size,
      op_set_max_pending_writes = (\<lambda>n s. s\<lparr>ms_max_pending_writes := n\<rparr>),
      op_max_pending_writes = ms_max_pending_writes,
      op_read = ms_read, op_write = ms_write, op_close = (\<lambda>s. s),
      op_ipv4_address = (\<lambda>s. Return (ms_ipv4_address s))\<rparr>"

definition ms_unread :: "memory_socket \<Rightarrow> byte list" where
  "ms_unread s = drop (ms_read_pos s) (ms_buffer s)"

definition ms_invar :: "memory_socket \<Rightarrow> bool" where
  "ms_invar s \<longleftrightarrow> ms_read_pos s \<le> length (ms_buffer s)"

text \<open>A write of a head and a body is the write of their concatenation, and notifies the handler once.\<close>

lemma ms_async_write_concat: "ms_async_write s head body handler = ms_async_write_one s (head @ body) handler"
  by (cases s; cases handler) (simp_all add: ms_async_write_def ms_async_write_one_def ms_write_def Let_def)

section \<open>The contracts hold\<close>

lemma ms_read_enough:
  assumes "ms_invar s" and "length buf \<le> length (ms_unread s)"
  shows "ms_read s buf = (True, take (length buf) (ms_unread s), s\<lparr>ms_read_pos := ms_read_pos s + length buf\<rparr>)"
  using assms by (auto simp: ms_read_def ms_unread_def ms_invar_def)

lemma ms_invar_new [simp]: "ms_invar new_memory_socket"
  by (simp add: ms_invar_def new_memory_socket_def)

lemma ms_unread_new [simp]: "ms_unread new_memory_socket = []"
  by (simp add: ms_unread_def new_memory_socket_def)

lemma memory_msg_socket: "msg_socket memory_ops"
  by unfold_locales (auto simp: memory_ops_def ms_read_def ms_write_def split: if_splits)

interpretation mem: stream_socket memory_ops ms_unread ms_buffer "\<lambda>bs. bs" ms_invar
proof (rule stream_socket.intro [OF memory_msg_socket], unfold_locales, goal_cases)
  case (1 s buf)
  then show ?case
    by (auto simp: memory_ops_def ms_read_enough) (auto simp: ms_invar_def ms_unread_def add.commute)
next
  case (2 s buf)
  then show ?case
    by (auto simp: memory_ops_def ms_read_def ms_unread_def)
next
  case (3 s bs ok s')
  then show ?case
    by (auto simp: memory_ops_def ms_write_def ms_invar_def ms_unread_def)
qed

interpretation mem_managed: managed_socket memory_ops
  by unfold_locales (simp_all add: memory_ops_def)

end
