(* ===== verification/Wire.thy ===== *)
theory Wire
  imports Message Memory_Socket
begin

text \<open>
  The framing code against the wire format: what \<^verbatim>\<open>make_frame_header\<close> and \<^verbatim>\<open>send\<close> put on the wire,
  that the reference decoder inverts it, and that \<^verbatim>\<open>recv_buffer\<close> follows the reference decoder on
  every stream socket.
\<close>

section \<open>Encoding\<close>

lemma length_make_header:
  assumes "flatbuffers_ok fb"
  shows "0 < length (make_header fb mid n sys)" and "length (make_header fb mid n sys) < 2 ^ 31"
  using table_roundtripD(3,4) [OF flatbuffers_ok_header [OF assms]]
  by (simp_all add: make_header_def)

lemma unat_header_size:
  assumes "flatbuffers_ok fb"
  shows "unat (of_nat (length (make_header fb mid n sys)) :: u64) = length (make_header fb mid n sys)"
proof -
  have "length (make_header fb mid n sys) < 2 ^ 64"
    using length_make_header(2) [OF assms, of mid n sys] by (rule less_trans) simp
  then show ?thesis by (simp add: unat_of_nat)
qed

lemma make_header_valid:
  assumes "flatbuffers_ok fb"
  shows "is_valid (MessageHeader_table fb) (make_header fb mid n sys)"
    and "deserialise (MessageHeader_table fb) (make_header fb mid n sys) =
           \<lparr>type_of = mid, body_size_of = of_nat n, is_system_of = sys\<rparr>"
  using table_roundtripD(1,2) [OF flatbuffers_ok_header [OF assms]]
  by (simp_all add: make_header_def header_view_def)

lemma make_frame_header_wire:
  assumes "boost_endian_ok p"
  shows "make_frame_header p fb mid n sys =
           le_bytes 8 (of_nat (length (make_header fb mid n sys)) :: u64) @ make_header fb mid n sys"
  using blit_two_halves
    [of "replicate (8 + length (make_header fb mid n sys)) 0"
        "object_bytes (native_order p) (to_little p (of_nat (length (make_header fb mid n sys))))"
        "make_header fb mid n sys"]
  by (simp add: make_frame_header_def Let_def object_bytes_to_little [OF assms])

lemma frame_header_body:
  assumes "boost_endian_ok p"
  shows "make_frame_header p fb mid (length bs) sys @ bs = frame_bytes fb mid sys bs"
  by (simp add: make_frame_header_wire [OF assms] frame_bytes_def Let_def)

lemma make_msg_wire:
  assumes "boost_endian_ok p"
  shows "msg_header (make_msg p fb create_fn sys mid args) @ msg_body (make_msg p fb create_fn sys mid args) =
           frame_bytes fb mid sys (serialise (fb_ops fb) create_fn args)"
  by (simp add: make_msg_def Let_def frame_header_body [OF assms])

section \<open>Decoding\<close>

lemma decode_frame_bytes:
  assumes fb: "flatbuffers_ok fb" and fits: "fits fb lim cap mid sys bs"
  shows "decode_frame fb lim cap (frame_bytes fb mid sys bs @ rest) = Frame mid sys bs rest"
proof -
  let ?h = "make_header fb mid (length bs) sys"
  have size: "unat (of_nat (length bs) :: u64) = length bs"
    using fits by (simp add: fits_def unat_of_nat)
  have "decode_frame fb lim cap (le_bytes 8 (of_nat (length ?h) :: u64) @ ?h @ bs @ rest) =
          Frame mid sys bs rest"
    using fits
    by (auto simp: decode_frame_def Let_def le64.dec_enc unat_header_size [OF fb] make_header_valid [OF fb]
        size fits_def)
  then show ?thesis by (simp add: frame_bytes_def Let_def)
qed

lemma decode_frame_consumes:
  assumes "decode_frame fb lim cap bs = Frame mid sys b rest"
  shows "length rest + length b + 8 \<le> length bs"
  using assms by (auto simp: decode_frame_def Let_def split: if_splits)

lemma decode_frame_capped:
  assumes "decode_frame fb lim cap bs = Frame mid sys b rest" and "cap \<noteq> 0"
  shows "length b \<le> cap"
  using assms by (auto simp: decode_frame_def Let_def split: if_splits)

lemma decode_frame_no_alloc_failure:
  assumes "cap \<noteq> 0" and "cap \<le> lim"
  shows "decode_frame fb lim cap bs \<noteq> Alloc_failure"
  using assms by (auto simp: decode_frame_def Let_def)

section \<open>The receive loop\<close>

lemma recv_one_capped:
  assumes "cap \<noteq> 0" and "cap \<le> lim" and "msg_socket ops"
    and "recv_one ops p fb lim cap s body = Done r b s'"
  shows "returns r \<and> (\<forall>mid. r = Return (Some mid) \<longrightarrow> length b \<le> cap)"
  using assms(1,2,4)
  by (auto simp: recv_one_def Let_def dest!: msg_socket.read_length [OF assms(3)]
      split: prod.splits if_splits)

lemma recv_loop_capped:
  assumes "recv_loop ops p fb lim cap s body = Some (r, b, s')"
    and "cap \<noteq> 0" and "cap \<le> lim" and "msg_socket ops"
  shows "returns r \<and> (\<forall>mid. r = Return (Some mid) \<longrightarrow> length b \<le> cap)"
proof -
  have "case y of (r, b, s') \<Rightarrow> cap \<noteq> 0 \<longrightarrow> cap \<le> lim \<longrightarrow> msg_socket ops \<longrightarrow>
      returns r \<and> (\<forall>mid. r = Return (Some mid) \<longrightarrow> length b \<le> cap)"
    if "recv_loop ops p fb lim cap s body = Some y" for y
    using that
  proof (rule recv_loop.raw_induct [rotated])
    fix rec ops p fb lim cap s body y
    assume IH: "\<And>ops p fb lim cap s body y. rec ops p fb lim cap s body = Some y \<Longrightarrow>
        case y of (r, b, s') \<Rightarrow> cap \<noteq> 0 \<longrightarrow> cap \<le> lim \<longrightarrow> msg_socket ops \<longrightarrow>
          returns r \<and> (\<forall>mid. r = Return (Some mid) \<longrightarrow> length b \<le> cap)"
      and eq: "(case recv_one ops p fb lim cap s body of Done r b s \<Rightarrow> Some (r, b, s)
          | Again b s \<Rightarrow> rec ops p fb lim cap s b) = Some y"
    show "case y of (r, b, s') \<Rightarrow> cap \<noteq> 0 \<longrightarrow> cap \<le> lim \<longrightarrow> msg_socket ops \<longrightarrow>
        returns r \<and> (\<forall>mid. r = Return (Some mid) \<longrightarrow> length b \<le> cap)"
    proof (cases "recv_one ops p fb lim cap s body")
      case (Done r b s')
      with eq recv_one_capped [OF _ _ _ Done] show ?thesis by auto
    next
      case (Again b s')
      with eq IH [of ops p fb lim cap s' b y] show ?thesis by simp
    qed
  qed
  with assms show ?thesis by fastforce
qed

text \<open>What the loop does with a complete frame: an application message ends the call, a ping is
  answered with a pong, every other system frame is dropped.\<close>

definition after_frame ::
  "'s socket_ops \<Rightarrow> platform \<Rightarrow> ('b, 'o) fb_lib \<Rightarrow> u8 \<Rightarrow> bool \<Rightarrow> byte list \<Rightarrow> 's \<Rightarrow> 's recv_step" where
  "after_frame ops p fb mid sys b s =
     (if \<not> sys then Done (Return (Some mid)) b s
      else if mid = MessageId_HbPing
      then Again b (snd (send ops p fb (CreateHbPongRequest fb) True s MessageId_HbPong ()))
      else Again b s)"

context stream_socket
begin

lemma send_buffer_stream:
  assumes "invar s" and "send_buffer ops s h b = (ok, s')"
  shows "invar s'" and "(\<And>bs. echo bs = []) \<Longrightarrow> inb s' = inb s"
    and "ok \<Longrightarrow> inb s' = inb s @ echo h @ (if b = [] then [] else echo b) \<and> outb s' = outb s @ h @ b"
proof -
  obtain hok s1 where w1: "op_write ops s h = (hok, s1)" by fastforce
  obtain bok s2 where w2: "op_write ops s1 b = (bok, s2)" by fastforce
  note h1 = write_stream [OF assms(1) w1]
  note h2 = write_stream [OF conjunct1 [OF h1] w2]
  note eq = assms(2) [unfolded send_buffer_def w1 prod.case Let_def w2]
  show "invar s'" using eq h1 h2 by (auto split: if_splits)
  show "inb s' = inb s" if "\<And>bs. echo bs = []" using eq h1 h2 that by (auto split: if_splits)
  show "inb s' = inb s @ echo h @ (if b = [] then [] else echo b) \<and> outb s' = outb s @ h @ b" if ok
    using eq h1 h2 that by (auto split: if_splits)
qed

lemma recv_one_refines:
  assumes inv: "invar s" and p: "boost_endian_ok p"
  shows "case decode_frame fb lim cap (inb s) of
      Frame mid sys b rest \<Rightarrow> \<exists>s'. invar s' \<and> inb s' = rest \<and> outb s' = outb s \<and>
        recv_one ops p fb lim cap s body = after_frame ops p fb mid sys b s'
    | Alloc_failure \<Rightarrow> \<exists>b s'. recv_one ops p fb lim cap s body = Done (Throw Bad_alloc) b s'
    | _ \<Rightarrow> \<exists>b s'. recv_one ops p fb lim cap s body = Done (Return None) b s'"
proof (cases "length (inb s) < 8")
  case True
  with inv obtain w s1 where "read_value ops p s 0 = (False, w, s1)"
    by (rule read_value_short)
  with True show ?thesis by (simp add: decode_frame_def recv_one_def)
next
  case False
  define n where "n = unat (le_value (take 8 (inb s)) :: u64)"
  define r1 where "r1 = drop 8 (inb s)"
  have len8: "length (take 8 (inb s)) = 8" using False by simp
  obtain s1 where rd1: "read_value ops p s 0 = (True, object_value (native_order p) (take 8 (inb s)), s1)"
    and s1: "invar s1" "inb s1 = r1" "outb s1 = outb s"
    using read_value_enough [OF inv _ len8, of r1 p 0] by (auto simp: r1_def)
  have n: "unat (from_little p (object_value (native_order p) (take 8 (inb s)))) = n"
    by (simp add: from_little_object_value [OF p len8] n_def)
  note recv = recv_one_def [of ops p fb lim cap s body] rd1 n
  note dec = decode_frame_def [of fb lim cap "inb s"] n_def [symmetric] r1_def [symmetric]
  consider (refused) "cap \<noteq> 0 \<and> cap < n" | (alloc) "\<not> (cap \<noteq> 0 \<and> cap < n)" "lim < n"
    | (short) "\<not> (cap \<noteq> 0 \<and> cap < n)" "\<not> lim < n" "length r1 < n"
    | (header) "\<not> (cap \<noteq> 0 \<and> cap < n)" "\<not> lim < n" "\<not> length r1 < n"
    by blast
  then show ?thesis
  proof cases
    case refused
    with False show ?thesis by (simp add: recv dec Let_def)
  next
    case alloc
    with False show ?thesis by (auto simp: recv dec Let_def)
  next
    case short
    then have "length (inb s1) < length (replicate n (0 :: byte))" by (simp add: s1)
    with read_short s1(1) obtain b s2 where "op_read ops s1 (replicate n 0) = (False, b, s2)"
      by blast
    with short False show ?thesis by (auto simp: recv dec Let_def)
  next
    case header
    obtain s2 where rd2: "op_read ops s1 (replicate n 0) = (True, take n r1, s2)"
      and s2: "invar s2" "inb s2 = drop n r1" "outb s2 = outb s"
      using read_enough_append [OF s1(1), of "take n r1" "drop n r1" "replicate n 0"] s1 header by auto
    define hd where "hd = deserialise (MessageHeader_table fb) (take n r1)"
    define m where "m = unat (body_size_of hd)"
    define r2 where "r2 = drop n r1"
    note recv2 = recv rd2 Let_def hd_def [symmetric] m_def [symmetric]
    note dec2 = dec Let_def hd_def [symmetric] m_def [symmetric] r2_def [symmetric]
    consider (invalid) "\<not> is_valid (MessageHeader_table fb) (take n r1)"
      | (refused) "is_valid (MessageHeader_table fb) (take n r1)" "cap \<noteq> 0 \<and> cap < m"
      | (alloc) "is_valid (MessageHeader_table fb) (take n r1)" "\<not> (cap \<noteq> 0 \<and> cap < m)" "lim < m"
      | (short) "is_valid (MessageHeader_table fb) (take n r1)" "\<not> (cap \<noteq> 0 \<and> cap < m)" "\<not> lim < m"
          "length r2 < m"
      | (complete) "is_valid (MessageHeader_table fb) (take n r1)" "\<not> (cap \<noteq> 0 \<and> cap < m)"
          "\<not> lim < m" "\<not> length r2 < m"
      by blast
    then show ?thesis
    proof cases
      case invalid
      with header False show ?thesis by (auto simp: recv2 dec2)
    next
      case refused
      with header False show ?thesis by (auto simp: recv2 dec2)
    next
      case alloc
      with header False show ?thesis by (auto simp: recv2 dec2)
    next
      case short
      then have "length (inb s2) < length (vec_resize body m)" by (simp add: s2 r2_def)
      with read_short s2(1) obtain b s3 where "op_read ops s2 (vec_resize body m) = (False, b, s3)"
        by blast
      with short header False show ?thesis by (auto simp: recv2 dec2)
    next
      case complete
      obtain s3 where "op_read ops s2 (vec_resize body m) = (True, take m r2, s3)"
        and "invar s3" "inb s3 = drop m r2" "outb s3 = outb s"
        using read_enough [OF s2(1), of "vec_resize body m"] complete s2(3)
        by (auto simp: s2(2) [folded r2_def])
      with complete header False show ?thesis
        by (auto simp: recv2 dec2 after_frame_def split: prod.splits)
    qed
  qed
qed

text \<open>Two consequences for one iteration: on a connection it consumes input, and with a cap that can be
  allocated it never throws.\<close>

lemma recv_one_again_shrinks:
  assumes inv: "invar s" and p: "boost_endian_ok p" and echo: "\<And>bs. echo bs = []"
    and again: "recv_one ops p fb lim cap s body = Again b s'"
  shows "invar s' \<and> length (inb s') < length (inb s)"
proof (cases "decode_frame fb lim cap (inb s)")
  case (Frame mid sys b' rest)
  with recv_one_refines [OF inv p, of fb lim cap body] again obtain s1
    where s1: "invar s1" "inb s1 = rest" and eq: "after_frame ops p fb mid sys b' s1 = Again b s'"
    by auto
  obtain ok s2 where snd: "send ops p fb (CreateHbPongRequest fb) True s1 MessageId_HbPong () = (ok, s2)"
    by fastforce
  then have "invar s2 \<and> inb s2 = inb s1"
    using send_buffer_stream(1,2) [OF s1(1)] echo by (auto simp: send_def Let_def)
  with s1 eq snd have "invar s' \<and> inb s' = rest"
    by (auto simp: after_frame_def split: if_splits)
  with decode_frame_consumes [OF Frame] show ?thesis by auto
qed (use recv_one_refines [OF inv p, of fb lim cap body] again in auto)

lemma recv_loop_terminates:
  assumes "invar s" and "boost_endian_ok p" and "\<And>bs. echo bs = []"
  shows "\<exists>r. recv_loop ops p fb lim cap s body = Some r"
  using assms(1)
proof (induction "length (inb s)" arbitrary: s body rule: less_induct)
  case less
  show ?case
  proof (cases "recv_one ops p fb lim cap s body")
    case (Done r b s')
    then show ?thesis by (subst recv_loop.simps) simp
  next
    case (Again b s')
    with recv_one_again_shrinks [OF less.prems assms(2,3)] less.hyps
    have "\<exists>r. recv_loop ops p fb lim cap s' b = Some r" by blast
    with Again show ?thesis by (subst recv_loop.simps) simp
  qed
qed

end

text \<open>
  A stream socket whose writes succeed, and whose echo treats the parts of a message alike: on it
  the replies of the receive loop can be followed byte by byte.
\<close>

locale reliable_stream = stream_socket +
  assumes write_ok: "invar s \<Longrightarrow> fst (op_write ops s bs)"
    and echo_append: "echo (a @ b) = echo a @ echo b"
begin

lemma echo_Nil: "echo [] = []"
  using echo_append [of "[]" "[]"] by simp

lemma send_buffer_reliable:
  assumes "invar s"
  obtains s' where "send_buffer ops s h b = (True, s')" and "invar s'"
    and "inb s' = inb s @ echo (h @ b)" and "outb s' = outb s @ h @ b"
proof -
  obtain ok s' where eq: "send_buffer ops s h b = (ok, s')" by fastforce
  obtain hok s1 where w1: "op_write ops s h = (hok, s1)" by fastforce
  with write_ok [OF assms, of h] have hok by simp
  from write_stream [OF assms w1] have "fst (op_write ops s1 b)" by (simp add: write_ok)
  with \<open>hok\<close> w1 eq have ok by (auto simp: send_buffer_def split: if_splits)
  with eq send_buffer_stream [OF assms eq] show thesis
    by (intro that [of s']) (auto simp: echo_append echo_Nil)
qed

lemma send_reliable:
  assumes "invar s" and "boost_endian_ok p"
  obtains s' where "send ops p fb create_fn sys s mid args = (True, s')" and "invar s'"
    and "inb s' = inb s @ echo (frame_bytes fb mid sys (serialise (fb_ops fb) create_fn args))"
    and "outb s' = outb s @ frame_bytes fb mid sys (serialise (fb_ops fb) create_fn args)"
  using send_buffer_reliable [OF assms(1), of
      "msg_header (make_msg p fb create_fn sys mid args)" "msg_body (make_msg p fb create_fn sys mid args)"]
  by (auto simp: send_def Let_def make_msg_wire [OF assms(2)])

lemma recv_loop_system_frames:
  assumes p: "boost_endian_ok p" and fb: "flatbuffers_ok fb"
    and "\<forall>(i, b) \<in> set sysf. fits fb lim cap i True b" and app: "fits fb lim cap mid False bs"
    and "invar s"
    and "inb s = concat (map (\<lambda>(i, b). frame_bytes fb i True b) sysf) @ frame_bytes fb mid False bs @ rest"
  shows "\<exists>s'. recv_loop ops p fb lim cap s body = Some (Return (Some mid), bs, s') \<and> invar s' \<and>
    (let pongs = concat (replicate (length (filter (\<lambda>(i, b). i = MessageId_HbPing) sysf)) (pong_bytes fb))
     in inb s' = rest @ echo pongs \<and> outb s' = outb s @ pongs)"
  using assms(3,5,6)
proof (induction sysf arbitrary: s body rest)
  case Nil
  then have "decode_frame fb lim cap (inb s) = Frame mid False bs rest"
    by (simp add: decode_frame_bytes [OF fb app])
  with recv_one_refines [OF \<open>invar s\<close> p, of fb lim cap body] show ?case
    by (subst recv_loop.simps) (auto simp: after_frame_def echo_Nil)
next
  case (Cons f sysf)
  obtain i b where f: "f = (i, b)" by fastforce
  let ?rest = "concat (map (\<lambda>(i, b). frame_bytes fb i True b) sysf) @ frame_bytes fb mid False bs @ rest"
  from Cons.prems f have "decode_frame fb lim cap (inb s) = Frame i True b ?rest"
    using decode_frame_bytes [OF fb, of lim cap i True b ?rest] by simp
  with recv_one_refines [OF Cons.prems(2) p, of fb lim cap body] obtain s1
    where s1: "invar s1" "inb s1 = ?rest" "outb s1 = outb s"
      and one: "recv_one ops p fb lim cap s body = after_frame ops p fb i True b s1" by auto
  obtain s2 where snd: "send ops p fb (CreateHbPongRequest fb) True s1 MessageId_HbPong () = (True, s2)"
    and s2: "invar s2" "inb s2 = inb s1 @ echo (pong_bytes fb)" "outb s2 = outb s1 @ pong_bytes fb"
    using send_reliable [OF s1(1) p, where args = "()" and fb = fb and mid = MessageId_HbPong
        and create_fn = "CreateHbPongRequest fb" and sys = True]
    by (auto simp: pong_bytes_def)
  show ?case
  proof (cases "i = MessageId_HbPing")
    case True
    have "inb s2 = concat (map (\<lambda>(i, b). frame_bytes fb i True b) sysf) @ frame_bytes fb mid False bs @
        rest @ echo (pong_bytes fb)" by (simp add: s2 s1)
    from Cons.IH [OF _ s2(1) this, of b] Cons.prems(1) True one snd s2 s1 f show ?thesis
      by (subst recv_loop.simps) (auto simp: after_frame_def Let_def echo_append)
  next
    case False
    from Cons.IH [OF _ s1(1,2), of b] Cons.prems(1) False one s1 f show ?thesis
      by (subst recv_loop.simps) (auto simp: after_frame_def Let_def)
  qed
qed

end

interpretation mem_loop: reliable_stream memory_ops ms_unread ms_buffer "\<lambda>bs. bs" ms_invar
  by unfold_locales (simp_all add: memory_ops_def ms_write_def)

section \<open>Properties\<close>

lemma length_make_header_flat [simp]: "length (make_header flat_fb mid n sys) = 10"
  by (simp add: make_header_def serialise_flat_fb)

lemma fits_flat_fb:
  "fits flat_fb lim cap mid sys bs \<longleftrightarrow>
     length bs < 2 ^ 64 \<and> length bs \<le> lim \<and> 10 \<le> lim \<and> (cap \<noteq> 0 \<longrightarrow> length bs \<le> cap \<and> 10 \<le> cap)"
  by (simp add: fits_def)

text \<open>C1: the frame that the sender builds from an identifier, a system flag and a body is decoded by the
  receiver to exactly these, with the bytes that follow left untouched, whatever the byte order of
  the sender.\<close>

theorem frame_roundtrip:
  assumes "boost_endian_ok p" and "flatbuffers_ok fb" and "fits fb lim cap mid sys bs"
  shows "decode_frame fb lim cap (make_frame_header p fb mid (length bs) sys @ bs @ rest) = Frame mid sys bs rest"
  using decode_frame_bytes [OF assms(2,3), of rest] frame_header_body [OF assms(1), of fb mid bs sys]
  by (metis append.assoc)

theorem frame_roundtrip_witness:
  "decode_frame flat_fb 100 16 (make_frame_header big_platform flat_fb 42 (length [1, 2 :: byte]) True @ [1, 2] @ [9]) =
     Frame 42 True [1, 2] [9]"
  by (rule frame_roundtrip) (simp_all add: fits_flat_fb)

text \<open>Machines of different byte order build the same bytes for the same message.\<close>

theorem frame_header_platform_independent:
  assumes "boost_endian_ok p" and "boost_endian_ok q"
  shows "make_frame_header p fb mid n sys = make_frame_header q fb mid n sys"
  by (simp add: make_frame_header_wire assms)

theorem frame_header_platform_independent_witness:
  "make_frame_header little_platform flat_fb 7 3 False = make_frame_header big_platform flat_fb 7 3 False"
  by (rule frame_header_platform_independent) simp_all

text \<open>On the loopback socket, a typed message that was sent is received as the same typed message, and
  the socket is left with nothing unread.\<close>

theorem send_recv_roundtrip:
  assumes "boost_endian_ok p" and "flatbuffers_ok fb" and "table_roundtrip (fb_ops fb) create_fn table view"
    and "ms_invar s" and "ms_unread s = []"
    and "fits fb lim (ms_max_message_size s) mid False (serialise (fb_ops fb) create_fn args)"
  shows "\<exists>s1 s2. send memory_ops p fb create_fn False s mid args = (True, s1) \<and>
    recv memory_ops p fb lim table s1 buf =
      Some (Return (Some (view args)), serialise (fb_ops fb) create_fn args, s2) \<and> ms_unread s2 = []"
proof -
  let ?b = "serialise (fb_ops fb) create_fn args"
  obtain s1 where snd: "send memory_ops p fb create_fn False s mid args = (True, s1)" and s1: "ms_invar s1"
    "ms_unread s1 = ms_unread s @ frame_bytes fb mid False ?b"
    "ms_buffer s1 = ms_buffer s @ frame_bytes fb mid False ?b"
    by (rule mem_loop.send_reliable [OF assms(4,1)])
  have cap: "op_max_message_size memory_ops s1 = ms_max_message_size s"
    using snd by (auto simp: send_def send_buffer_def memory_ops_def ms_write_def Let_def split: if_splits)
  from mem_loop.recv_loop_system_frames [OF assms(1,2) _ assms(6) s1(1), of "[]" "[]" buf] s1(2) assms(5)
  obtain s2 where "recv_loop memory_ops p fb lim (ms_max_message_size s) s1 buf = Some (Return (Some mid), ?b, s2)"
    and "ms_unread s2 = []" by (auto simp: Let_def)
  with snd cap table_roundtripD(1,2) [OF assms(3), of args] show ?thesis
    by (auto simp: recv_def recv_buffer_def)
qed

definition byte_table :: "byte fb_table" where
  "byte_table = \<lparr>fb_verify = (\<lambda>buf. length buf = 1), fb_root = (\<lambda>buf. buf ! 0)\<rparr>"

theorem send_recv_roundtrip_witness:
  "\<exists>s1 s2. send memory_ops big_platform flat_fb (\<lambda>b v. (b @ [v], ())) False new_memory_socket 42 7 = (True, s1) \<and>
    recv memory_ops big_platform flat_fb 100 byte_table s1 [] =
      Some (Return (Some 7), serialise (fb_ops flat_fb) (\<lambda>b v. (b @ [v], ())) 7, s2) \<and> ms_unread s2 = []"
proof (rule send_recv_roundtrip [where view = "\<lambda>v. v"])
  show "table_roundtrip (fb_ops flat_fb) (\<lambda>b v. (b @ [v], ())) byte_table (\<lambda>v. v)"
    by (auto simp: table_roundtrip_def flat_fb_def byte_table_def)
qed (simp_all add: fits_flat_fb serialise_flat_fb, simp add: new_memory_socket_def default_max_message_size_def)

text \<open>On the loopback socket of the tests, \<^verbatim>\<open>recv_buffer\<close> never surfaces a system frame: it skips the ones in front of
  an application message, returns that message, and has written exactly one pong for every ping.\<close>

theorem recv_buffer_skips_system_frames:
  assumes "boost_endian_ok p" and "flatbuffers_ok fb"
    and "\<forall>(i, b) \<in> set sysf. fits fb lim (ms_max_message_size s) i True b"
    and "fits fb lim (ms_max_message_size s) mid False bs" and "ms_invar s"
    and "ms_unread s = concat (map (\<lambda>(i, b). frame_bytes fb i True b) sysf) @ frame_bytes fb mid False bs @ rest"
  shows "\<exists>s'. recv_buffer memory_ops p fb lim s buf = Some (Return (Some mid), bs, s') \<and>
    ms_buffer s' = ms_buffer s @
      concat (replicate (length (filter (\<lambda>(i, b). i = MessageId_HbPing) sysf)) (pong_bytes fb))"
proof -
  have "op_max_message_size memory_ops s = ms_max_message_size s" by (simp add: memory_ops_def)
  with mem_loop.recv_loop_system_frames [OF assms, of buf] show ?thesis
    by (auto simp: recv_buffer_def Let_def)
qed

theorem recv_buffer_skips_system_frames_witness:
  "\<exists>s'. recv_buffer memory_ops little_platform flat_fb 100
      (new_memory_socket\<lparr>ms_buffer := frame_bytes flat_fb 0 True [4] @ frame_bytes flat_fb 9 False [1]\<rparr>) [] =
        Some (Return (Some 9), [1], s') \<and>
    ms_buffer s' = (frame_bytes flat_fb 0 True [4] @ frame_bytes flat_fb 9 False [1]) @ pong_bytes flat_fb"
  using recv_buffer_skips_system_frames
    [of little_platform flat_fb "[(0, [4])]" 100
        "new_memory_socket\<lparr>ms_buffer := frame_bytes flat_fb 0 True [4] @ frame_bytes flat_fb 9 False [1]\<rparr>"
        9 "[1]" "[]" "[]"]
  by (simp add: fits_flat_fb new_memory_socket_def default_max_message_size_def ms_invar_def ms_unread_def
      MessageId_HbPing_def)

text \<open>A header that announces a body beyond the size cap makes \<^verbatim>\<open>recv_buffer\<close> fail with the caller's
  buffer untouched and nothing of the body read: no memory is allocated for it.\<close>

theorem recv_rejects_oversized_body:
  assumes "boost_endian_ok p" and "flatbuffers_ok fb" and "ms_invar s"
    and "ms_unread s = make_frame_header p fb mid n sys @ rest"
    and "0 < ms_max_message_size s" and "ms_max_message_size s < n" and "n < 2 ^ 64"
    and "length (make_header fb mid n sys) \<le> ms_max_message_size s"
    and "length (make_header fb mid n sys) \<le> lim"
  shows "\<exists>s'. recv_buffer memory_ops p fb lim s buf = Some (Return None, buf, s') \<and> ms_unread s' = rest"
proof -
  let ?h = "make_header fb mid n sys"
  have un: "ms_unread s = le_bytes 8 (of_nat (length ?h) :: u64) @ ?h @ rest"
    by (simp add: assms(4) make_frame_header_wire [OF assms(1)])
  obtain s1 where r1: "read_value memory_ops p s 0 =
      (True, object_value (native_order p) (le_bytes 8 (of_nat (length ?h) :: u64)), s1)"
    and s1: "ms_invar s1" "ms_unread s1 = ?h @ rest" "ms_buffer s1 = ms_buffer s"
    by (rule mem.read_value_enough [OF assms(3) un length_le_bytes])
  obtain s2 where r2: "op_read memory_ops s1 (replicate (length ?h) 0) = (True, ?h, s2)"
    and s2: "ms_invar s2" "ms_unread s2 = rest" "ms_buffer s2 = ms_buffer s1"
    by (rule mem.read_enough_append [OF s1(1,2), of "replicate (length ?h) 0"]) simp_all
  have size: "unat (of_nat n :: u64) = n" using assms(7) by (simp add: unat_of_nat)
  have cap: "op_max_message_size memory_ops s = ms_max_message_size s" by (simp add: memory_ops_def)
  have "recv_one memory_ops p fb lim (ms_max_message_size s) s buf = Done (Return None) buf s2"
    using assms(5-9)
    by (simp add: recv_one_def r1 r2 from_little_object_value [OF assms(1)] le64.dec_enc
        unat_header_size [OF assms(2)] make_header_valid [OF assms(2)] size)
  with s2 cap show ?thesis by (simp add: recv_buffer_def recv_loop.simps)
qed

theorem recv_rejects_oversized_body_witness:
  "\<exists>s'. recv_buffer memory_ops big_platform flat_fb 4096
      (new_memory_socket\<lparr>ms_buffer := make_frame_header big_platform flat_fb 42 1073741824 False,
         ms_max_message_size := 1024\<rparr>) [] = Some (Return None, [], s') \<and> ms_unread s' = []"
  by (rule recv_rejects_oversized_body, unfold length_make_header_flat)
     (simp_all add: ms_invar_def ms_unread_def, simp_all add: new_memory_socket_def, simp_all)

end
