(* ===== verification/Tcp_Socket.thy ===== *)
theory Tcp_Socket
  imports Wire
begin

text \<open>
  \<^verbatim>\<open>boost_tcp_socket\<close> of \<^verbatim>\<open>src/network/socket.hpp\<close> and \<^verbatim>\<open>socket.cpp\<close>. Boost.Asio is not part of the
  repository. Its synchronous functions are the record \<open>asio\<close>, an argument of the operations that
  call them; its asynchronous functions appear as the calls an operation makes (\<open>asio_call\<close>, in
  order), and each completion handler of the code is an operation of its own, with the error flag
  that Asio passes as an argument. Invoking a caller's handler is also such a call.
\<close>

section \<open>Asio as a parameter\<close>

datatype ip_address = V4 u32 | V6 "128 word"

record endpoint =
  ep_address :: ip_address
  ep_port :: u16

record 'x asio =
  asio_resolve :: "string \<Rightarrow> string \<Rightarrow> endpoint list option"
  asio_connect :: "'x \<Rightarrow> endpoint list \<Rightarrow> bool \<times> 'x"
  asio_connect_endpoint :: "'x \<Rightarrow> endpoint \<Rightarrow> bool \<times> 'x"
  asio_handshake :: "'x \<Rightarrow> handshake_type \<Rightarrow> bool \<times> 'x"
  asio_read :: "'x \<Rightarrow> nat \<Rightarrow> bool \<times> byte list \<times> 'x"
  asio_write :: "'x \<Rightarrow> byte list \<Rightarrow> bool \<times> 'x"
  asio_shutdown :: "'x \<Rightarrow> 'x"
  asio_close :: "'x \<Rightarrow> 'x"
  asio_close_error :: "'x \<Rightarrow> bool"
  asio_remote_endpoint :: "'x \<Rightarrow> endpoint option"
  asio_address_string :: "ip_address \<Rightarrow> string"

datatype timer_id = Idle_timer | Heartbeat_timer | Handshake_timer

text \<open>
  \<open>UB_empty_front\<close> stands for \<^verbatim>\<open>front()\<close> or \<^verbatim>\<open>pop_front()\<close> on an empty deque, which C++ leaves
  undefined; the write queue's safety theorem says it never happens. \<open>UB_null_timer\<close> stands for a call
  through a null \<^verbatim>\<open>unique_ptr\<close> of a timer, and \<open>Raise\<close> for an exception that leaves a handler.
\<close>

datatype 'h asio_call =
    Expires_after timer_id duration
  | Async_wait timer_id
  | Cancel_timer timer_id
  | Async_resolve string string 'h
  | Async_connect_start "endpoint list" 'h
  | Async_handshake_start handshake_type 'h
  | Async_read_start nat 'h
  | Async_write_start "byte list" "byte list"
  | Shutdown_stream
  | Close_stream
  | Call 'h bool
  | UB_empty_front
  | UB_null_timer
  | Raise cpp_exception

section \<open>State\<close>

record 'h pending_write =
  pw_head :: "byte list"
  pw_body :: "byte list"
  pw_handler :: "'h option"

record ('h, 'x) tcp_socket =
  tcp_stream :: 'x
  idle_timeout :: duration
  heartbeat_timeout :: duration
  handshake_timeout :: duration
  heartbeat_sent :: bool
  max_message_size :: size_t
  max_pending_writes :: size_t
  idle_timer :: bool
  heartbeat_timer :: bool
  handshake_timer :: bool
  remote_endpoint :: endpoint
  write_queue :: "'h pending_write list"

definition new_tcp_socket :: "'x \<Rightarrow> ('h, 'x) tcp_socket" where
  "new_tcp_socket x =
     \<lparr>tcp_stream = x, idle_timeout = 0, heartbeat_timeout = 0, handshake_timeout = 0,
      heartbeat_sent = False, max_message_size = default_max_message_size,
      max_pending_writes = default_max_pending_writes,
      idle_timer = False, heartbeat_timer = False, handshake_timer = False,
      remote_endpoint = \<lparr>ep_address = V4 0, ep_port = 0\<rparr>, write_queue = []\<rparr>"

definition capture_remote_endpoint :: "'x asio \<Rightarrow> ('h, 'x) tcp_socket \<Rightarrow> ('h, 'x) tcp_socket" where
  "capture_remote_endpoint a s =
     (case asio_remote_endpoint a (tcp_stream s) of
        None \<Rightarrow> s
      | Some ep \<Rightarrow> s\<lparr>remote_endpoint := ep\<rparr>)"

definition accepted_tcp_socket :: "'x asio \<Rightarrow> 'x \<Rightarrow> ('h, 'x) tcp_socket" where
  "accepted_tcp_socket a x = capture_remote_endpoint a (new_tcp_socket x)"

section \<open>Configuration\<close>

definition set_idle_timeout :: "duration \<Rightarrow> ('h, 'x) tcp_socket \<Rightarrow> ('h, 'x) tcp_socket" where
  "set_idle_timeout timeout s = s\<lparr>idle_timeout := timeout\<rparr>"

definition set_heartbeat_timeout :: "duration \<Rightarrow> ('h, 'x) tcp_socket \<Rightarrow> ('h, 'x) tcp_socket" where
  "set_heartbeat_timeout timeout s = s\<lparr>heartbeat_timeout := timeout\<rparr>"

definition set_handshake_timeout :: "duration \<Rightarrow> ('h, 'x) tcp_socket \<Rightarrow> ('h, 'x) tcp_socket" where
  "set_handshake_timeout timeout s = s\<lparr>handshake_timeout := timeout\<rparr>"

definition set_max_message_size :: "size_t \<Rightarrow> ('h, 'x) tcp_socket \<Rightarrow> ('h, 'x) tcp_socket" where
  "set_max_message_size max_size s = s\<lparr>max_message_size := max_size\<rparr>"

definition set_max_pending_writes :: "size_t \<Rightarrow> ('h, 'x) tcp_socket \<Rightarrow> ('h, 'x) tcp_socket" where
  "set_max_pending_writes max_pending s = s\<lparr>max_pending_writes := max_pending\<rparr>"

section \<open>The write queue\<close>

text \<open>The two critical sections under \<^verbatim>\<open>write_mutex_\<close>, and \<^verbatim>\<open>write_next\<close>, which reads the front.\<close>

definition async_write_locked ::
  "('h, 'x) tcp_socket \<Rightarrow> byte list \<Rightarrow> byte list \<Rightarrow> 'h option \<Rightarrow> bool \<times> bool \<times> ('h, 'x) tcp_socket" where
  "async_write_locked s head body handler =
     (if max_pending_writes s \<noteq> 0 \<and> length (write_queue s) \<ge> max_pending_writes s
      then (True, False, s)
      else (False, write_queue s = [],
            s\<lparr>write_queue := write_queue s @ [\<lparr>pw_head = head, pw_body = body, pw_handler = handler\<rparr>]\<rparr>))"

definition write_next :: "('h, 'x) tcp_socket \<Rightarrow> ('h, 'x) tcp_socket \<times> 'h asio_call list" where
  "write_next s =
     (case write_queue s of
        [] \<Rightarrow> (s, [UB_empty_front])
      | w # _ \<Rightarrow> (s, [Async_write_start (pw_head w) (pw_body w)]))"

definition call_handler :: "'h option \<Rightarrow> bool \<Rightarrow> 'h asio_call list" where
  "call_handler handler ok = (case handler of None \<Rightarrow> [] | Some h \<Rightarrow> [Call h ok])"

definition async_write2 ::
  "('h, 'x) tcp_socket \<Rightarrow> byte list \<Rightarrow> byte list \<Rightarrow> 'h option \<Rightarrow> ('h, 'x) tcp_socket \<times> 'h asio_call list" where
  "async_write2 s head body handler =
     (let (rejected, idle, s) = async_write_locked s head body handler
      in if rejected then (s, call_handler handler False)
         else if idle then write_next s
         else (s, []))"

definition async_write ::
  "('h, 'x) tcp_socket \<Rightarrow> byte list \<Rightarrow> 'h option \<Rightarrow> ('h, 'x) tcp_socket \<times> 'h asio_call list" where
  "async_write s buffer handler = async_write2 s buffer [] handler"

definition write_done_locked ::
  "('h, 'x) tcp_socket \<Rightarrow> ('h option \<times> bool \<times> ('h, 'x) tcp_socket) option" where
  "write_done_locked s =
     (case write_queue s of
        [] \<Rightarrow> None
      | w # ws \<Rightarrow> Some (pw_handler w, ws \<noteq> [], s\<lparr>write_queue := ws\<rparr>))"

text \<open>
  The completion handler of \<^verbatim>\<open>boost::asio::async_write\<close>. The popped handler runs inline, between the
  critical section and the next write, and may call back into the socket: its effect is the argument
  \<open>run\<close>.
\<close>

definition on_write_done ::
  "('h \<Rightarrow> bool \<Rightarrow> ('h, 'x) tcp_socket \<Rightarrow> ('h, 'x) tcp_socket \<times> 'h asio_call list) \<Rightarrow>
   ('h, 'x) tcp_socket \<Rightarrow> bool \<Rightarrow> ('h, 'x) tcp_socket \<times> 'h asio_call list" where
  "on_write_done run s error =
     (case write_done_locked s of
        None \<Rightarrow> (s, [UB_empty_front])
      | Some (handler, more_left, s) \<Rightarrow>
          (let (s, calls) = (case handler of None \<Rightarrow> (s, []) | Some h \<Rightarrow> run h (\<not> error) s);
               (s, calls') = (if more_left then write_next s else (s, []))
           in (s, calls @ calls')))"

section \<open>Timers\<close>

text \<open>
  \<^verbatim>\<open>lowest_layer().close()\<close>, without an error code: a failure to close is thrown out of the timer's
  handler.
\<close>

definition close_lowest_layer :: "'x asio \<Rightarrow> ('h, 'x) tcp_socket \<Rightarrow> ('h, 'x) tcp_socket \<times> 'h asio_call list" where
  "close_lowest_layer a s =
     (s\<lparr>tcp_stream := asio_close a (tcp_stream s)\<rparr>,
      Close_stream # (if asio_close_error a (tcp_stream s) then [Raise System_error] else []))"

text \<open>The three timers are \<^verbatim>\<open>unique_ptr\<close>s: null at first, made by \<^verbatim>\<open>make_unique\<close> before the first use.\<close>

fun timer_created :: "timer_id \<Rightarrow> ('h, 'x) tcp_socket \<Rightarrow> bool" where
  "timer_created Idle_timer s = idle_timer s"
| "timer_created Heartbeat_timer s = heartbeat_timer s"
| "timer_created Handshake_timer s = handshake_timer s"

fun make_timer :: "timer_id \<Rightarrow> ('h, 'x) tcp_socket \<Rightarrow> ('h, 'x) tcp_socket" where
  "make_timer Idle_timer s = s\<lparr>idle_timer := True\<rparr>"
| "make_timer Heartbeat_timer s = s\<lparr>heartbeat_timer := True\<rparr>"
| "make_timer Handshake_timer s = s\<lparr>handshake_timer := True\<rparr>"

definition ensure_timer :: "timer_id \<Rightarrow> ('h, 'x) tcp_socket \<Rightarrow> ('h, 'x) tcp_socket" where
  "ensure_timer t s = (if \<not> timer_created t s then make_timer t s else s)"

definition through_timer :: "timer_id \<Rightarrow> ('h, 'x) tcp_socket \<Rightarrow> 'h asio_call list \<Rightarrow> 'h asio_call list" where
  "through_timer t s calls = (if timer_created t s then calls else [UB_null_timer])"

definition reset_idle_timer :: "('h, 'x) tcp_socket \<Rightarrow> ('h, 'x) tcp_socket \<times> 'h asio_call list" where
  "reset_idle_timer s =
     (if idle_timeout s = 0 then (s, [])
      else
        let s = ensure_timer Idle_timer s
        in (s, through_timer Idle_timer s [Expires_after Idle_timer (idle_timeout s), Async_wait Idle_timer]))"

definition on_idle_timer :: "'x asio \<Rightarrow> ('h, 'x) tcp_socket \<Rightarrow> bool \<Rightarrow> ('h, 'x) tcp_socket \<times> 'h asio_call list" where
  "on_idle_timer a s ec = (if \<not> ec then close_lowest_layer a s else (s, []))"

definition arm_heartbeat :: "('h, 'x) tcp_socket \<Rightarrow> ('h, 'x) tcp_socket \<times> 'h asio_call list" where
  "arm_heartbeat s =
     (s, through_timer Heartbeat_timer s [Expires_after Heartbeat_timer (heartbeat_timeout s), Async_wait Heartbeat_timer])"

definition reset_heartbeat_timer :: "('h, 'x) tcp_socket \<Rightarrow> ('h, 'x) tcp_socket \<times> 'h asio_call list" where
  "reset_heartbeat_timer s =
     (if heartbeat_timeout s = 0 then (s, [])
      else
        let s = ensure_timer Heartbeat_timer s;
            s = s\<lparr>heartbeat_sent := False\<rparr>
        in arm_heartbeat s)"

text \<open>
  \<^verbatim>\<open>async_callback_t\<close> is a \<^verbatim>\<open>std::function<void(bool)>\<close>: passing a wrapper's closure to
  \<^verbatim>\<open>async_write\<close> converts it, which is the argument \<open>wrap\<close>.
\<close>

definition erased_write ::
  "('u send_closure \<Rightarrow> 'h) \<Rightarrow> ('h, 'x) tcp_socket \<Rightarrow> byte list \<Rightarrow> byte list \<Rightarrow> 'u send_closure option \<Rightarrow>
   ('h, 'x) tcp_socket \<times> 'h asio_call list" where
  "erased_write wrap s head body handler = async_write2 s head body (map_option wrap handler)"

definition on_heartbeat_timer ::
  "('u send_closure \<Rightarrow> 'h) \<Rightarrow> 'x asio \<Rightarrow> platform \<Rightarrow> ('b, 'o) fb_lib \<Rightarrow> ('h, 'x) tcp_socket \<Rightarrow> bool \<Rightarrow>
   ('h, 'x) tcp_socket \<times> 'h asio_call list" where
  "on_heartbeat_timer wrap a p fb s ec =
     (if ec then (s, [])
      else if heartbeat_sent s then close_lowest_layer a s
      else
        let (s, calls) = async_send_forget (erased_write wrap) p fb (CreateHbPingRequest fb) True s MessageId_HbPing ();
            (s, calls') = arm_heartbeat (s\<lparr>heartbeat_sent := True\<rparr>)
        in (s, calls @ calls'))"

definition reset_handshake_timer :: "('h, 'x) tcp_socket \<Rightarrow> ('h, 'x) tcp_socket \<times> 'h asio_call list" where
  "reset_handshake_timer s =
     (if handshake_timeout s = 0 then (s, [])
      else
        let s = ensure_timer Handshake_timer s
        in (s, through_timer Handshake_timer s
                 [Expires_after Handshake_timer (handshake_timeout s), Async_wait Handshake_timer]))"

definition on_handshake_timer :: "'x asio \<Rightarrow> ('h, 'x) tcp_socket \<Rightarrow> bool \<Rightarrow> ('h, 'x) tcp_socket \<times> 'h asio_call list" where
  "on_handshake_timer a s ec = (if \<not> ec then close_lowest_layer a s else (s, []))"

definition cancel_handshake_timer :: "('h, 'x) tcp_socket \<Rightarrow> ('h, 'x) tcp_socket \<times> 'h asio_call list" where
  "cancel_handshake_timer s =
     (s, if timer_created Handshake_timer s then through_timer Handshake_timer s [Cancel_timer Handshake_timer] else [])"

text \<open>The pair of resets that a connect, a completed handshake and a completed read perform.\<close>

definition reset_activity_timers :: "('h, 'x) tcp_socket \<Rightarrow> ('h, 'x) tcp_socket \<times> 'h asio_call list" where
  "reset_activity_timers s =
     (let (s, calls) = reset_idle_timer s; (s, calls') = reset_heartbeat_timer s in (s, calls @ calls'))"

section \<open>Connecting\<close>

text \<open>
  \<^verbatim>\<open>resolve_host\<close> declares an error code but calls the overload of \<^verbatim>\<open>resolve\<close> that throws, so the
  error code stays clear.
\<close>

definition resolve_host :: "'x asio \<Rightarrow> string \<Rightarrow> string \<Rightarrow> endpoint list option outcome" where
  "resolve_host a host service =
     (let error_code = False
      in case asio_resolve a host service of
           None \<Rightarrow> Throw System_error
         | Some endpoints \<Rightarrow> if error_code then Return None else Return (Some endpoints))"

definition connect_host ::
  "'x asio \<Rightarrow> ('h, 'x) tcp_socket \<Rightarrow> string \<Rightarrow> string \<Rightarrow> bool outcome \<times> ('h, 'x) tcp_socket" where
  "connect_host a s host service =
     (case resolve_host a host service of
        Throw e \<Rightarrow> (Throw e, s)
      | Return None \<Rightarrow> (Return False, s)
      | Return (Some endpoints) \<Rightarrow>
          (let (ok, x) = asio_connect a (tcp_stream s) endpoints in (Return ok, s\<lparr>tcp_stream := x\<rparr>)))"

definition connect_ipv4 ::
  "'x asio \<Rightarrow> ('h, 'x) tcp_socket \<Rightarrow> u32 \<Rightarrow> u16 \<Rightarrow> bool \<times> ('h, 'x) tcp_socket" where
  "connect_ipv4 a s address port =
     (let (ok, x) = asio_connect_endpoint a (tcp_stream s) \<lparr>ep_address = V4 address, ep_port = port\<rparr>
      in (ok, s\<lparr>tcp_stream := x\<rparr>))"

definition async_connect ::
  "('h, 'x) tcp_socket \<Rightarrow> string \<Rightarrow> string \<Rightarrow> 'h \<Rightarrow> ('h, 'x) tcp_socket \<times> 'h asio_call list" where
  "async_connect s host service handler =
     (let (s, calls) = reset_activity_timers s in (s, calls @ [Async_resolve host service handler]))"

definition on_resolve_done ::
  "('h, 'x) tcp_socket \<Rightarrow> bool \<Rightarrow> endpoint list \<Rightarrow> 'h \<Rightarrow> ('h, 'x) tcp_socket \<times> 'h asio_call list" where
  "on_resolve_done s error endpoints handler =
     (if error then (s, [Call handler False]) else (s, [Async_connect_start endpoints handler]))"

definition on_connect_done ::
  "('h, 'x) tcp_socket \<Rightarrow> bool \<Rightarrow> endpoint \<Rightarrow> 'h \<Rightarrow> ('h, 'x) tcp_socket \<times> 'h asio_call list" where
  "on_connect_done s error ep handler =
     (let s = (if \<not> error then s\<lparr>remote_endpoint := ep\<rparr> else s) in (s, [Call handler (\<not> error)]))"

definition close_socket :: "'x asio \<Rightarrow> ('h, 'x) tcp_socket \<Rightarrow> ('h, 'x) tcp_socket \<times> 'h asio_call list" where
  "close_socket a s =
     (s\<lparr>tcp_stream := asio_close a (asio_shutdown a (tcp_stream s))\<rparr>, [Shutdown_stream, Close_stream])"

section \<open>Handshake, read and write\<close>

text \<open>Asio's handshake enumeration has the same two values.\<close>

definition to_asio_handshake_type :: "handshake_type \<Rightarrow> handshake_type" where
  "to_asio_handshake_type t = (if t = Client_handshake then Client_handshake else Server_handshake)"

definition handshake :: "'x asio \<Rightarrow> ('h, 'x) tcp_socket \<Rightarrow> handshake_type \<Rightarrow> bool \<times> ('h, 'x) tcp_socket" where
  "handshake a s t =
     (let (ok, x) = asio_handshake a (tcp_stream s) (to_asio_handshake_type t) in (ok, s\<lparr>tcp_stream := x\<rparr>))"

definition async_handshake ::
  "('h, 'x) tcp_socket \<Rightarrow> handshake_type \<Rightarrow> 'h \<Rightarrow> ('h, 'x) tcp_socket \<times> 'h asio_call list" where
  "async_handshake s t handler =
     (let (s, calls) = reset_handshake_timer s
      in (s, calls @ [Async_handshake_start (to_asio_handshake_type t) handler]))"

definition on_handshake_done ::
  "('h, 'x) tcp_socket \<Rightarrow> bool \<Rightarrow> 'h \<Rightarrow> ('h, 'x) tcp_socket \<times> 'h asio_call list" where
  "on_handshake_done s error handler =
     (let (s, calls) = cancel_handshake_timer s;
          (s, calls') = (if \<not> error then reset_activity_timers s else (s, []))
      in (s, calls @ calls' @ [Call handler (\<not> error)]))"

definition tcp_read :: "'x asio \<Rightarrow> ('h, 'x) tcp_socket \<Rightarrow> byte list \<Rightarrow> bool \<times> byte list \<times> ('h, 'x) tcp_socket" where
  "tcp_read a s buffer =
     (let (ok, transferred, x) = asio_read a (tcp_stream s) (length buffer)
      in (ok, blit buffer 0 (take (length buffer) transferred), s\<lparr>tcp_stream := x\<rparr>))"

definition async_read :: "('h, 'x) tcp_socket \<Rightarrow> nat \<Rightarrow> 'h \<Rightarrow> ('h, 'x) tcp_socket \<times> 'h asio_call list" where
  "async_read s n handler = (s, [Async_read_start n handler])"

definition on_read_done :: "('h, 'x) tcp_socket \<Rightarrow> bool \<Rightarrow> 'h \<Rightarrow> ('h, 'x) tcp_socket \<times> 'h asio_call list" where
  "on_read_done s error handler =
     (let (s, calls) = (if \<not> error then reset_activity_timers s else (s, []))
      in (s, calls @ [Call handler (\<not> error)]))"

definition async_erase :: "('h, 'x) tcp_socket \<Rightarrow> size_t \<Rightarrow> 'h \<Rightarrow> ('h, 'x) tcp_socket \<times> 'h asio_call list" where
  "async_erase s n handler = async_read s n handler"

definition tcp_write :: "'x asio \<Rightarrow> ('h, 'x) tcp_socket \<Rightarrow> byte list \<Rightarrow> bool \<times> ('h, 'x) tcp_socket" where
  "tcp_write a s buffer =
     (let (ok, x) = asio_write a (tcp_stream s) buffer in (ok, s\<lparr>tcp_stream := x\<rparr>))"

section \<open>The peer\<close>

definition ipv4_address :: "('h, 'x) tcp_socket \<Rightarrow> u32 outcome" where
  "ipv4_address s =
     (case ep_address (remote_endpoint s) of V4 w \<Rightarrow> Return w | V6 _ \<Rightarrow> Throw Bad_address_cast)"

definition port :: "('h, 'x) tcp_socket \<Rightarrow> u16" where
  "port s = ep_port (remote_endpoint s)"

definition remote_address :: "'x asio \<Rightarrow> ('h, 'x) tcp_socket \<Rightarrow> string" where
  "remote_address a s = asio_address_string a (ep_address (remote_endpoint s))"

definition tcp_ops :: "'x asio \<Rightarrow> ('h, 'x) tcp_socket socket_ops" where
  "tcp_ops a =
     \<lparr>op_set_idle_timeout = set_idle_timeout, op_set_heartbeat_timeout = set_heartbeat_timeout,
      op_set_handshake_timeout = set_handshake_timeout,
      op_set_max_message_size = set_max_message_size, op_max_message_size = max_message_size,
      op_set_max_pending_writes = set_max_pending_writes, op_max_pending_writes = max_pending_writes,
      op_read = tcp_read a, op_write = tcp_write a, op_close = (\<lambda>s. fst (close_socket a s)),
      op_ipv4_address = ipv4_address\<rparr>"

end
