(* ===== verification/Write_Queue.thy ===== *)
theory Write_Queue
  imports Tcp_Socket "HOL-Library.Multiset"
begin

text \<open>
  The write queue of \<^verbatim>\<open>boost_tcp_socket\<close> under concurrency. Any number of threads call
  \<^verbatim>\<open>async_write\<close>, and Asio runs completion handlers on any thread. The steps are the critical
  sections of the code and the stretches between them, interleaved arbitrarily; a thread that is
  between two of its steps is a program counter in a multiset. Ghost fields record what was
  accepted, rejected, started and finished, in order.
\<close>

section \<open>The machine\<close>

datatype 'h wpc =
    At_write_next
  | In_asio
  | In_handler "'h option" bool bool
  | At_reject "'h option"

record ('h, 'x) wq =
  wq_sock :: "('h, 'x) tcp_socket"
  wq_threads :: "'h wpc multiset"
  wq_accepted :: "'h pending_write list"
  wq_started :: "(byte list \<times> byte list) list"
  wq_finished :: "'h pending_write list"
  wq_rejected :: "'h option list"
  wq_notified :: "('h option \<times> bool) list"
  wq_ub :: bool

definition wq_init :: "('h, 'x) tcp_socket \<Rightarrow> ('h, 'x) wq" where
  "wq_init s =
     \<lparr>wq_sock = s, wq_threads = {#}, wq_accepted = [], wq_started = [], wq_finished = [],
      wq_rejected = [], wq_notified = [], wq_ub = False\<rparr>"

fun writes_started :: "'h asio_call list \<Rightarrow> (byte list \<times> byte list) list" where
  "writes_started [] = []"
| "writes_started (Async_write_start h b # cs) = (h, b) # writes_started cs"
| "writes_started (_ # cs) = writes_started cs"

text \<open>A caller of \<^verbatim>\<open>async_write\<close> runs the first critical section.\<close>

definition submit :: "byte list \<Rightarrow> byte list \<Rightarrow> 'h option \<Rightarrow> ('h, 'x) wq \<Rightarrow> ('h, 'x) wq" where
  "submit head body h w =
     (let (rejected, idle, s) = async_write_locked (wq_sock w) head body h
      in if rejected
         then w\<lparr>wq_sock := s, wq_threads := add_mset (At_reject h) (wq_threads w),
                wq_rejected := wq_rejected w @ [h]\<rparr>
         else w\<lparr>wq_sock := s,
                wq_threads := (if idle then add_mset At_write_next (wq_threads w) else wq_threads w),
                wq_accepted := wq_accepted w @ [\<lparr>pw_head = head, pw_body = body, pw_handler = h\<rparr>]\<rparr>)"

text \<open>A thread runs \<^verbatim>\<open>write_next\<close>: it reads the front and starts the Asio write.\<close>

definition start_write :: "('h, 'x) wq \<Rightarrow> ('h, 'x) wq" where
  "start_write w =
     (let (s, calls) = write_next (wq_sock w)
      in w\<lparr>wq_sock := s, wq_threads := add_mset In_asio (wq_threads w - {#At_write_next#}),
           wq_started := wq_started w @ writes_started calls,
           wq_ub := wq_ub w \<or> UB_empty_front \<in> set calls\<rparr>)"

text \<open>Asio completes the write: the completion handler runs its critical section.\<close>

definition complete_write :: "bool \<Rightarrow> ('h, 'x) wq \<Rightarrow> ('h, 'x) wq" where
  "complete_write error w =
     (case write_done_locked (wq_sock w) of
        None \<Rightarrow> w\<lparr>wq_ub := True\<rparr>
      | Some (h, more_left, s) \<Rightarrow>
          w\<lparr>wq_sock := s,
            wq_threads := add_mset (In_handler h (\<not> error) more_left) (wq_threads w - {#In_asio#}),
            wq_finished := wq_finished w @ take 1 (write_queue (wq_sock w))\<rparr>)"

text \<open>The popped handler has returned; \<^verbatim>\<open>write_next\<close> follows when more is queued.\<close>

definition leave_handler :: "'h option \<Rightarrow> bool \<Rightarrow> bool \<Rightarrow> ('h, 'x) wq \<Rightarrow> ('h, 'x) wq" where
  "leave_handler h ok more_left w =
     (let rest = wq_threads w - {#In_handler h ok more_left#}
      in w\<lparr>wq_threads := (if more_left then add_mset At_write_next rest else rest),
           wq_notified := wq_notified w @ [(h, ok)]\<rparr>)"

definition leave_reject :: "'h option \<Rightarrow> ('h, 'x) wq \<Rightarrow> ('h, 'x) wq" where
  "leave_reject h w =
     w\<lparr>wq_threads := wq_threads w - {#At_reject h#}, wq_notified := wq_notified w @ [(h, False)]\<rparr>"

text \<open>The steps that the socket's own threads and Asio take, and all steps: callers may submit a write
  or change the cap at any time, also while a handler runs.\<close>

inductive drain_step :: "('h, 'x) wq \<Rightarrow> ('h, 'x) wq \<Rightarrow> bool" where
  start: "At_write_next \<in># wq_threads w \<Longrightarrow> drain_step w (start_write w)"
| complete: "In_asio \<in># wq_threads w \<Longrightarrow> drain_step w (complete_write error w)"
| handled: "In_handler h ok more_left \<in># wq_threads w \<Longrightarrow> drain_step w (leave_handler h ok more_left w)"
| reject: "At_reject h \<in># wq_threads w \<Longrightarrow> drain_step w (leave_reject h w)"

inductive wq_step :: "('h, 'x) wq \<Rightarrow> ('h, 'x) wq \<Rightarrow> bool" where
  drain: "drain_step w w' \<Longrightarrow> wq_step w w'"
| submit: "wq_step w (submit head body h w)"
| set_cap: "wq_step w (w\<lparr>wq_sock := set_max_pending_writes n (wq_sock w)\<rparr>)"

section \<open>The invariant\<close>

fun is_token :: "'h wpc \<Rightarrow> bool" where
  "is_token At_write_next = True"
| "is_token In_asio = True"
| "is_token (In_handler _ _ more_left) = more_left"
| "is_token (At_reject _) = False"

definition tokens :: "'h wpc multiset \<Rightarrow> nat" where
  "tokens T = size (filter_mset is_token T)"

fun pc_handler :: "'h wpc \<Rightarrow> 'h option multiset" where
  "pc_handler (In_handler h _ _) = {#h#}"
| "pc_handler (At_reject h) = {#h#}"
| "pc_handler _ = {#}"

definition pc_handlers :: "'h wpc multiset \<Rightarrow> 'h option multiset" where
  "pc_handlers T = \<Sum>\<^sub># (image_mset pc_handler T)"

definition spans :: "'h pending_write \<Rightarrow> byte list \<times> byte list" where
  "spans w = (pw_head w, pw_body w)"

text \<open>
  Exactly one token when the queue is non-empty, none when it is empty; what was accepted is what
  finished followed by the queue; what was started is what finished, followed by the front of the
  queue while Asio is writing it; every handler that finished or was rejected has been notified or
  is about to be.
\<close>

definition wq_inv :: "('h, 'x) wq \<Rightarrow> bool" where
  "wq_inv w \<longleftrightarrow>
     tokens (wq_threads w) = (if write_queue (wq_sock w) = [] then 0 else 1) \<and>
     wq_accepted w = wq_finished w @ write_queue (wq_sock w) \<and>
     wq_started w = map spans (wq_finished w) @
       (if In_asio \<in># wq_threads w then map spans (take 1 (write_queue (wq_sock w))) else []) \<and>
     mset (map fst (wq_notified w)) + pc_handlers (wq_threads w) =
       mset (map pw_handler (wq_finished w)) + mset (wq_rejected w) \<and>
     \<not> wq_ub w"

lemma tokens_simps [simp]:
  "tokens {#} = 0"
  "tokens (add_mset pc T) = (if is_token pc then Suc (tokens T) else tokens T)"
  by (simp_all add: tokens_def)

lemma pc_handlers_simps [simp]:
  "pc_handlers {#} = {#}"
  "pc_handlers (add_mset pc T) = pc_handler pc + pc_handlers T"
  by (simp_all add: pc_handlers_def)

lemma no_token: "tokens T = 0 \<Longrightarrow> pc \<in># T \<Longrightarrow> \<not> is_token pc"
  by (auto simp: tokens_def)

lemma count_token: "is_token pc \<Longrightarrow> count T pc \<le> tokens T"
  by (induction T) auto

lemma no_token_asio [simp]: "tokens T = 0 \<Longrightarrow> In_asio \<notin># T"
  using no_token [of T In_asio] by auto

lemma token_queue_nonempty:
  assumes "wq_inv w" and "pc \<in># wq_threads w" and "is_token pc"
  obtains q qs where "write_queue (wq_sock w) = q # qs"
proof -
  have "tokens (wq_threads w) \<noteq> 0" using assms(2,3) no_token by blast
  with assms(1) have "write_queue (wq_sock w) \<noteq> []" by (auto simp: wq_inv_def split: if_splits)
  then show thesis using that by (cases "write_queue (wq_sock w)") auto
qed

lemma start_write_inv:
  assumes "wq_inv w" and "At_write_next \<in># wq_threads w"
  shows "wq_inv (start_write w)"
proof -
  obtain q qs where q: "write_queue (wq_sock w) = q # qs"
    using token_queue_nonempty [OF assms] by auto
  obtain T where T: "wq_threads w = add_mset At_write_next T"
    using assms(2) by (blast dest: multi_member_split)
  with assms(1) q have "tokens T = 0" by (simp add: wq_inv_def)
  with assms(1) q T show ?thesis
    by (simp add: wq_inv_def start_write_def write_next_def spans_def)
qed

lemma complete_write_inv:
  assumes "wq_inv w" and "In_asio \<in># wq_threads w"
  shows "wq_inv (complete_write error w)"
proof -
  obtain q qs where q: "write_queue (wq_sock w) = q # qs"
    using token_queue_nonempty [OF assms] by auto
  obtain T where T: "wq_threads w = add_mset In_asio T"
    using assms(2) by (blast dest: multi_member_split)
  with assms(1) q have "tokens T = 0" by (simp add: wq_inv_def)
  with assms(1) q T show ?thesis
    by (auto simp: wq_inv_def complete_write_def write_done_locked_def)
qed

lemma leave_handler_inv:
  assumes "wq_inv w" and "In_handler h ok more_left \<in># wq_threads w"
  shows "wq_inv (leave_handler h ok more_left w)"
proof -
  obtain T where T: "wq_threads w = add_mset (In_handler h ok more_left) T"
    using assms(2) by (blast dest: multi_member_split)
  with assms(1) show ?thesis
    by (auto simp: wq_inv_def leave_handler_def Let_def split: if_splits)
qed

lemma leave_reject_inv:
  assumes "wq_inv w" and "At_reject h \<in># wq_threads w"
  shows "wq_inv (leave_reject h w)"
proof -
  obtain T where T: "wq_threads w = add_mset (At_reject h) T"
    using assms(2) by (blast dest: multi_member_split)
  with assms(1) show ?thesis
    by (auto simp: wq_inv_def leave_reject_def split: if_splits)
qed

lemma submit_inv:
  assumes "wq_inv w"
  shows "wq_inv (submit head body h w)"
  using assms
  by (cases "write_queue (wq_sock w)")
     (auto simp: wq_inv_def submit_def async_write_locked_def split: if_splits)

lemma drain_step_inv: "drain_step w w' \<Longrightarrow> wq_inv w \<Longrightarrow> wq_inv w'"
  by (cases rule: drain_step.cases)
     (auto intro: start_write_inv complete_write_inv leave_handler_inv leave_reject_inv)

lemma set_cap_inv: "wq_inv w \<Longrightarrow> wq_inv (w\<lparr>wq_sock := set_max_pending_writes n (wq_sock w)\<rparr>)"
  by (simp add: wq_inv_def set_max_pending_writes_def)

interpretation wq: step_invariant wq_step wq_inv
  by unfold_locales (auto elim!: wq_step.cases intro: drain_step_inv submit_inv set_cap_inv)

text \<open>What is left to do: three steps for every queued write, fewer for the ones under way.\<close>

fun pc_weight :: "'h wpc \<Rightarrow> nat" where
  "pc_weight At_write_next = 2"
| "pc_weight In_asio = 1"
| "pc_weight (In_handler _ _ more_left) = (if more_left then 3 else 1)"
| "pc_weight (At_reject _) = 1"

definition wq_weight :: "('h, 'x) wq \<Rightarrow> nat" where
  "wq_weight w = 4 * length (write_queue (wq_sock w)) + (\<Sum>pc \<in># wq_threads w. pc_weight pc)"

lemma drain_step_weight:
  assumes "drain_step w w'" and inv: "wq_inv w"
  shows "wq_weight w' < wq_weight w"
  using assms(1)
proof cases
  case start
  obtain q qs where q: "write_queue (wq_sock w) = q # qs"
    using token_queue_nonempty [OF inv start(2)] by auto
  from start obtain T where "wq_threads w = add_mset At_write_next T" by (blast dest: multi_member_split)
  with start q show ?thesis by (simp add: wq_weight_def start_write_def write_next_def)
next
  case (complete error)
  obtain q qs where q: "write_queue (wq_sock w) = q # qs"
    using token_queue_nonempty [OF inv complete(2)] by auto
  from complete obtain T where "wq_threads w = add_mset In_asio T" by (blast dest: multi_member_split)
  with complete q show ?thesis by (simp add: wq_weight_def complete_write_def write_done_locked_def)
next
  case (handled h ok more_left)
  then obtain T where "wq_threads w = add_mset (In_handler h ok more_left) T"
    by (blast dest: multi_member_split)
  with handled show ?thesis by (simp add: wq_weight_def leave_handler_def)
next
  case (reject h)
  then obtain T where "wq_threads w = add_mset (At_reject h) T" by (blast dest: multi_member_split)
  with reject show ?thesis by (simp add: wq_weight_def leave_reject_def)
qed

interpretation wq_drain: decreasing_steps drain_step wq_inv wq_weight
  by unfold_locales (auto intro: drain_step_inv drain_step_weight)

lemma wq_inv_init: "write_queue s = [] \<Longrightarrow> wq_inv (wq_init s)"
  by (simp add: wq_inv_def wq_init_def)

lemma drained:
  assumes "wq_inv w" and "\<nexists>w'. drain_step w w'"
  shows "wq_threads w = {#} \<and> write_queue (wq_sock w) = []"
proof -
  have "pc \<notin># wq_threads w" for pc
    using assms(2) by (cases pc) (auto intro: drain_step.intros)
  then have "wq_threads w = {#}" by (auto intro: multiset_eqI simp: not_in_iff)
  with assms(1) show ?thesis by (simp add: wq_inv_def split: if_splits)
qed

section \<open>The code's functions as runs of the machine\<close>

text \<open>
  A call of \<^verbatim>\<open>async_write\<close> that is not interrupted is a run of the machine with the same final queue
  and the same Asio writes: the sequential operation and the interleaved steps are the same code.
\<close>

lemma submit_then_start:
  assumes "wq_sock w = s" and "async_write2 s head body h = (s', calls)"
  shows "\<exists>w'. wq_step\<^sup>*\<^sup>* w w' \<and> wq_sock w' = s' \<and> wq_started w' = wq_started w @ writes_started calls"
proof -
  obtain rej idle s1 where l: "async_write_locked s head body h = (rej, idle, s1)"
    by (metis prod_cases3)
  let ?w1 = "submit head body h w"
  have one: "wq_step w ?w1" by (rule wq_step.submit)
  show ?thesis
  proof (cases "\<not> rej \<and> idle")
    case True
    with l assms(1) have "At_write_next \<in># wq_threads ?w1" and "wq_sock ?w1 = s1"
      and "wq_started ?w1 = wq_started w" by (auto simp: submit_def)
    moreover from this(1) have "wq_step ?w1 (start_write ?w1)"
      by (intro wq_step.drain drain_step.start)
    moreover have "write_next s1 = (s', calls)"
      using True l assms(2) by (simp add: async_write2_def)
    ultimately show ?thesis
      using one by (intro exI [of _ "start_write ?w1"]) (auto simp: start_write_def)
  next
    case False
    with l assms have "wq_sock ?w1 = s'" and "wq_started ?w1 = wq_started w" and "writes_started calls = []"
      by (auto simp: submit_def async_write2_def call_handler_def split: if_splits option.splits)
    with one show ?thesis by auto
  qed
qed

section \<open>Properties\<close>

text \<open>C6: whatever the interleaving of callers and completions, the socket never has two Asio writes under
  way at once, and never reads or pops the front of an empty queue.\<close>

theorem writes_never_overlap:
  assumes "write_queue s = []" and "wq_step\<^sup>*\<^sup>* (wq_init s) w"
  shows "count (wq_threads w) In_asio \<le> 1 \<and> \<not> wq_ub w"
proof -
  have inv: "wq_inv w" using assms by (auto intro: wq.run_inv wq_inv_init)
  have "count (wq_threads w) In_asio \<le> tokens (wq_threads w)" by (rule count_token) simp
  with inv show ?thesis by (auto simp: wq_inv_def split: if_splits)
qed

theorem writes_never_overlap_witness:
  "let s = new_tcp_socket () :: (nat, unit) tcp_socket;
       w = start_write (submit [1] [2] (Some 7) (wq_init s))
   in count (wq_threads w) In_asio \<le> 1 \<and> \<not> wq_ub w"
proof -
  let ?s = "new_tcp_socket () :: (nat, unit) tcp_socket"
  let ?w = "submit [1] [2] (Some 7) (wq_init ?s)"
  have q: "write_queue ?s = []" by (simp add: new_tcp_socket_def)
  have "At_write_next \<in># wq_threads ?w"
    by (simp add: submit_def async_write_locked_def wq_init_def new_tcp_socket_def default_max_pending_writes_def)
  then have "wq_step\<^sup>*\<^sup>* (wq_init ?s) (start_write ?w)"
    by (meson converse_rtranclp_into_rtranclp drain_step.start r_into_rtranclp wq_step.drain wq_step.submit)
  from writes_never_overlap [OF q this] show ?thesis by (simp add: Let_def)
qed

text \<open>C7: the bytes go out in the order in which the writes were accepted, each message as one head and
  body with nothing of another message in between.\<close>

theorem writes_start_in_order:
  assumes "write_queue s = []" and "wq_step\<^sup>*\<^sup>* (wq_init s) w"
  shows "\<exists>rest. map (\<lambda>q. (pw_head q, pw_body q)) (wq_accepted w) = wq_started w @ rest"
proof -
  have "wq_inv w" using assms by (auto intro: wq.run_inv wq_inv_init)
  then have "wq_accepted w = wq_finished w @ write_queue (wq_sock w)"
    and "wq_started w = map spans (wq_finished w) @
       (if In_asio \<in># wq_threads w then map spans (take 1 (write_queue (wq_sock w))) else [])"
    by (auto simp: wq_inv_def)
  then show ?thesis
    by (cases "write_queue (wq_sock w)") (auto simp: spans_def [abs_def])
qed

theorem writes_start_in_order_witness:
  "\<exists>rest. map (\<lambda>q. (pw_head q, pw_body q))
      (wq_accepted (submit [3] [] None (submit [1] [2] (Some (7 :: nat)) (wq_init (new_tcp_socket ()))))) =
    wq_started (submit [3] [] None (submit [1] [2] (Some (7 :: nat)) (wq_init (new_tcp_socket ())))) @ rest"
proof (rule writes_start_in_order [of "new_tcp_socket () :: (nat, unit) tcp_socket"])
  show "wq_step\<^sup>*\<^sup>* (wq_init (new_tcp_socket ()))
     (submit [3] [] None (submit [1] [2] (Some (7 :: nat)) (wq_init (new_tcp_socket ()))))"
    by (meson converse_rtranclp_into_rtranclp r_into_rtranclp wq_step.submit)
qed (simp add: new_tcp_socket_def)

lemma drain_step_accepted: "drain_step w w' \<Longrightarrow> wq_accepted w' = wq_accepted w \<and> wq_rejected w' = wq_rejected w"
  by (auto elim!: drain_step.cases simp: start_write_def write_next_def complete_write_def leave_handler_def
      leave_reject_def Let_def split: list.split option.split prod.split)

lemma drain_run_accepted:
  "drain_step\<^sup>*\<^sup>* w w' \<Longrightarrow> wq_accepted w' = wq_accepted w \<and> wq_rejected w' = wq_rejected w"
  by (induction rule: rtranclp_induct) (auto dest: drain_step_accepted)

text \<open>C5: no accepted write is lost and no handler is forgotten or called twice. From every reachable
  state the socket's own steps come to an end, and however they are scheduled, at that end every
  accepted message has been handed to Asio in order, the queue is empty, and the handlers notified
  are exactly those of the accepted and of the rejected writes.\<close>

theorem accepted_writes_complete:
  assumes "write_queue s = []" and "wq_step\<^sup>*\<^sup>* (wq_init s) w"
  shows "(\<exists>w'. drain_step\<^sup>*\<^sup>* w w' \<and> (\<nexists>v. drain_step w' v)) \<and>
    (\<forall>w'. drain_step\<^sup>*\<^sup>* w w' \<and> (\<nexists>v. drain_step w' v) \<longrightarrow>
       write_queue (wq_sock w') = [] \<and>
       wq_started w' = map (\<lambda>q. (pw_head q, pw_body q)) (wq_accepted w) \<and>
       mset (map fst (wq_notified w')) = mset (map pw_handler (wq_accepted w)) + mset (wq_rejected w))"
proof -
  have inv: "wq_inv w" using assms by (auto intro: wq.run_inv wq_inv_init)
  have "write_queue (wq_sock w') = [] \<and>
       wq_started w' = map (\<lambda>q. (pw_head q, pw_body q)) (wq_accepted w) \<and>
       mset (map fst (wq_notified w')) = mset (map pw_handler (wq_accepted w)) + mset (wq_rejected w)"
    if run: "drain_step\<^sup>*\<^sup>* w w'" and stop: "\<nexists>v. drain_step w' v" for w'
  proof -
    have inv': "wq_inv w'" by (rule wq_drain.run_inv [OF run inv])
    from drained [OF inv' stop] have "wq_threads w' = {#}" "write_queue (wq_sock w') = []" by auto
    moreover from this inv' have "wq_accepted w' = wq_finished w'"
      "wq_started w' = map spans (wq_finished w')"
      "mset (map fst (wq_notified w')) = mset (map pw_handler (wq_finished w')) + mset (wq_rejected w')"
      by (auto simp: wq_inv_def)
    ultimately show ?thesis using drain_run_accepted [OF run] by (auto simp: spans_def)
  qed
  with wq_drain.quiescence [OF inv] show ?thesis by blast
qed

theorem accepted_writes_complete_witness:
  "\<exists>w'. drain_step\<^sup>*\<^sup>* (submit [1] [2] (Some (7 :: nat)) (wq_init (new_tcp_socket ()))) w' \<and>
     wq_started w' = [([1], [2])] \<and> mset (map fst (wq_notified w')) = {#Some 7#}"
proof -
  let ?s = "new_tcp_socket () :: (nat, unit) tcp_socket"
  have q: "write_queue ?s = []" by (simp add: new_tcp_socket_def)
  have run: "wq_step\<^sup>*\<^sup>* (wq_init ?s) (submit [1] [2] (Some 7) (wq_init ?s))"
    by (intro r_into_rtranclp wq_step.submit)
  show ?thesis
    using accepted_writes_complete [OF q run]
    by (auto simp: submit_def async_write_locked_def wq_init_def new_tcp_socket_def
        default_max_pending_writes_def)
qed

text \<open>C34: \<^verbatim>\<open>async_write\<close> keeps the queue within a cap that is set. A write that finds the queue full fails
  at once: the caller's handler is called with false and neither the queue nor the stream is
  touched. Any other write is appended, and Asio is started exactly when the queue was empty.\<close>

theorem async_write_bounded:
  assumes "max_pending_writes s \<noteq> 0 \<longrightarrow> length (write_queue s) \<le> max_pending_writes s"
    and "async_write2 s head body h = (s', calls)"
  shows "(max_pending_writes s \<noteq> 0 \<longrightarrow> length (write_queue s') \<le> max_pending_writes s) \<and>
    (if max_pending_writes s \<noteq> 0 \<and> length (write_queue s) = max_pending_writes s
     then s' = s \<and> calls = (case h of None \<Rightarrow> [] | Some f \<Rightarrow> [Call f False])
     else write_queue s' = write_queue s @ [\<lparr>pw_head = head, pw_body = body, pw_handler = h\<rparr>] \<and>
          calls = (if write_queue s = [] then [Async_write_start head body] else []))"
  using assms
  by (cases "write_queue s")
     (auto simp: async_write2_def async_write_locked_def write_next_def call_handler_def split: if_splits)

theorem async_write_bounded_witness:
  "let s = set_max_pending_writes 1 (new_tcp_socket ()) :: (nat, unit) tcp_socket;
       s1 = fst (async_write2 s [1] [] (Some 5))
   in length (write_queue s1) \<le> 1 \<and> async_write2 s1 [2] [] (Some 6) = (s1, [Call 6 False])"
proof -
  let ?s = "set_max_pending_writes 1 (new_tcp_socket ()) :: (nat, unit) tcp_socket"
  let ?s1 = "fst (async_write2 ?s [1] [] (Some 5))"
  note eval = set_max_pending_writes_def new_tcp_socket_def async_write2_def async_write_locked_def
    write_next_def call_handler_def
  have "length (write_queue ?s1) \<le> 1"
    using async_write_bounded [of ?s "[1]" "[]" "Some 5" ?s1 "snd (async_write2 ?s [1] [] (Some 5))"]
    by (simp add: eval)
  moreover have "async_write2 ?s1 [2] [] (Some 6) = (?s1, [Call 6 False])"
    using async_write_bounded [of ?s1 "[2]" "[]" "Some 6" "fst (async_write2 ?s1 [2] [] (Some 6))"
        "snd (async_write2 ?s1 [2] [] (Some 6))"]
    by (simp add: eval)
  ultimately show ?thesis by (simp add: Let_def)
qed

end
