(* ===== verification/Tcp_Lemmas.thy ===== *)
theory Tcp_Lemmas
  imports Tcp_Socket
begin

text \<open>
  \<^verbatim>\<open>boost_tcp_socket\<close> against the socket contracts, the behaviour of the receive loop over it, and the
  heartbeat and timeout logic over arbitrary sequences of completions.
\<close>

section \<open>The timers\<close>

lemma ensure_timer_eq [simp]:
  "ensure_timer Idle_timer s = s\<lparr>idle_timer := True\<rparr>"
  "ensure_timer Heartbeat_timer s = s\<lparr>heartbeat_timer := True\<rparr>"
  "ensure_timer Handshake_timer s = s\<lparr>handshake_timer := True\<rparr>"
  by (cases s; simp add: ensure_timer_def)+

text \<open>A reset creates the timer before it goes through it.\<close>

lemma reset_timer_eqs:
  "reset_idle_timer s =
     (if idle_timeout s = 0 then (s, [])
      else (s\<lparr>idle_timer := True\<rparr>, [Expires_after Idle_timer (idle_timeout s), Async_wait Idle_timer]))"
  "reset_heartbeat_timer s =
     (if heartbeat_timeout s = 0 then (s, [])
      else (s\<lparr>heartbeat_timer := True, heartbeat_sent := False\<rparr>,
            [Expires_after Heartbeat_timer (heartbeat_timeout s), Async_wait Heartbeat_timer]))"
  "reset_handshake_timer s =
     (if handshake_timeout s = 0 then (s, [])
      else (s\<lparr>handshake_timer := True\<rparr>,
            [Expires_after Handshake_timer (handshake_timeout s), Async_wait Handshake_timer]))"
  "cancel_handshake_timer s = (s, if handshake_timer s then [Cancel_timer Handshake_timer] else [])"
  by (simp_all add: reset_idle_timer_def reset_heartbeat_timer_def arm_heartbeat_def reset_handshake_timer_def
      cancel_handshake_timer_def through_timer_def Let_def)

lemmas tcp_timer_defs = reset_activity_timers_def reset_timer_eqs arm_heartbeat_def through_timer_def close_lowest_layer_def

section \<open>The contracts\<close>

lemma length_blit_take [simp]: "length (blit buf 0 (take (length buf) xs)) = length buf"
  by (simp add: blit_def min_def)

interpretation tcp: msg_socket "tcp_ops a :: ('h, 'x) tcp_socket socket_ops" for a
  by unfold_locales
     (auto simp: tcp_ops_def tcp_read_def tcp_write_def Let_def split: prod.splits)

interpretation tcp_managed: managed_socket "tcp_ops a :: ('h, 'x) tcp_socket socket_ops" for a
  by unfold_locales
     (simp_all add: tcp_ops_def set_idle_timeout_def set_heartbeat_timeout_def set_handshake_timeout_def
      set_max_message_size_def set_max_pending_writes_def close_socket_def ipv4_address_def)

text \<open>
  The documented behaviour of the synchronous composed operations: \<^verbatim>\<open>boost::asio::read\<close> succeeds
  exactly when it has filled the buffer with the next bytes of the stream, and writing does not
  change what can be read.
\<close>

definition asio_stream_ok :: "'x asio \<Rightarrow> ('x \<Rightarrow> byte list) \<Rightarrow> ('x \<Rightarrow> byte list) \<Rightarrow> bool" where
  "asio_stream_ok a inbound outbound \<longleftrightarrow>
     (\<forall>x n. n \<le> length (inbound x) \<longrightarrow>
        (\<exists>x'. asio_read a x n = (True, take n (inbound x), x') \<and> inbound x' = drop n (inbound x) \<and>
              outbound x' = outbound x)) \<and>
     (\<forall>x n. length (inbound x) < n \<longrightarrow> \<not> fst (asio_read a x n)) \<and>
     (\<forall>x bs. inbound (snd (asio_write a x bs)) = inbound x \<and>
        (fst (asio_write a x bs) \<longrightarrow> outbound (snd (asio_write a x bs)) = outbound x @ bs))"

lemma tcp_stream_socket:
  assumes "asio_stream_ok a inbound outbound"
  shows "stream_socket (tcp_ops a :: ('h, 'x) tcp_socket socket_ops) (\<lambda>s. inbound (tcp_stream s))
    (\<lambda>s. outbound (tcp_stream s)) (\<lambda>_. []) (\<lambda>_. True)"
proof (rule stream_socket.intro [OF tcp.msg_socket_axioms], unfold_locales, goal_cases)
  case (1 s buf)
  with assms obtain x' where "asio_read a (tcp_stream s) (length buf) = (True, take (length buf) (inbound (tcp_stream s)), x')"
    "inbound x' = drop (length buf) (inbound (tcp_stream s))" "outbound x' = outbound (tcp_stream s)"
    unfolding asio_stream_ok_def by blast
  with 1 show ?case by (auto simp: tcp_ops_def tcp_read_def min_def)
next
  case (2 s buf)
  with assms have "\<not> fst (asio_read a (tcp_stream s) (length buf))"
    unfolding asio_stream_ok_def by blast
  then show ?case by (auto simp: tcp_ops_def tcp_read_def Let_def split: prod.splits)
next
  case (3 s bs ok s')
  obtain wok x where w: "asio_write a (tcp_stream s) bs = (wok, x)" by fastforce
  from assms have "inbound (snd (asio_write a (tcp_stream s) bs)) = inbound (tcp_stream s) \<and>
      (fst (asio_write a (tcp_stream s) bs) \<longrightarrow> outbound (snd (asio_write a (tcp_stream s) bs)) = outbound (tcp_stream s) @ bs)"
    unfolding asio_stream_ok_def by blast
  with 3 w show ?case by (auto simp: tcp_ops_def tcp_write_def)
qed

text \<open>A connection whose writes succeed never echoes what was written.\<close>

lemma tcp_reliable_stream:
  assumes "asio_stream_ok a inbound outbound" and "\<forall>x bs. fst (asio_write a x bs)"
  shows "reliable_stream (tcp_ops a :: ('h, 'x) tcp_socket socket_ops) (\<lambda>s. inbound (tcp_stream s))
    (\<lambda>s. outbound (tcp_stream s)) (\<lambda>_. []) (\<lambda>_. True)"
proof (rule reliable_stream.intro [OF tcp_stream_socket [OF assms(1)]], unfold_locales, goal_cases)
  case (1 s bs)
  from assms(2) have "fst (asio_write a (tcp_stream s) bs)" by blast
  then show ?case by (simp add: tcp_ops_def tcp_write_def case_prod_beta)
qed simp

section \<open>Receiving over a connection\<close>

text \<open>The reference meaning of \<^verbatim>\<open>recv_buffer\<close>: the first application message of the inbound bytes.\<close>

function first_message ::
  "('b, 'o) fb_lib \<Rightarrow> size_t \<Rightarrow> size_t \<Rightarrow> byte list \<Rightarrow> (u8 \<times> byte list \<times> byte list) option outcome" where
  "first_message fb lim cap bs =
     (case decode_frame fb lim cap bs of
        Frame mid sys b rest \<Rightarrow> if sys then first_message fb lim cap rest else Return (Some (mid, b, rest))
      | Alloc_failure \<Rightarrow> Throw Bad_alloc
      | Incomplete \<Rightarrow> Return None
      | Refused \<Rightarrow> Return None)"
  by pat_completeness auto
termination
  by (relation "measure (\<lambda>(fb, lim, cap, bs). length bs)") (auto dest: decode_frame_consumes)

declare first_message.simps [simp del]

lemma first_message_system_frames:
  assumes "flatbuffers_ok fb" and "\<forall>(i, b) \<in> set sysf. fits fb lim cap i True b" and "fits fb lim cap mid False bs"
  shows "first_message fb lim cap (concat (map (\<lambda>(i, b). frame_bytes fb i True b) sysf) @ frame_bytes fb mid False bs @ rest) =
    Return (Some (mid, bs, rest))"
  using assms(2)
proof (induction sysf)
  case Nil
  then show ?case
    by (simp add: first_message.simps decode_frame_bytes [OF assms(1,3)])
next
  case (Cons f sysf)
  obtain i b where f: "f = (i, b)" by fastforce
  let ?rest = "concat (map (\<lambda>(i, b). frame_bytes fb i True b) sysf) @ frame_bytes fb mid False bs @ rest"
  from Cons.prems f have "decode_frame fb lim cap (frame_bytes fb i True b @ ?rest) = Frame i True b ?rest"
    by (intro decode_frame_bytes [OF assms(1)]) simp
  with Cons f show ?case
    by (simp add: first_message.simps [of fb lim cap "frame_bytes fb i True b @ ?rest"])
qed

definition recv_matches ::
  "('s \<Rightarrow> byte list) \<Rightarrow> (u8 \<times> byte list \<times> byte list) option outcome \<Rightarrow>
   (u8 option outcome \<times> byte list \<times> 's) option \<Rightarrow> bool" where
  "recv_matches inb m r \<longleftrightarrow>
     (\<exists>b s'. r = Some (case m of Throw e \<Rightarrow> Throw e | Return x \<Rightarrow> Return (map_option fst x), b, s') \<and>
       (\<forall>mid bs rest. m = Return (Some (mid, bs, rest)) \<longrightarrow> b = bs \<and> inb s' = rest))"

context stream_socket
begin

lemma recv_loop_first_message:
  assumes p: "boost_endian_ok p" and echo: "\<And>bs. echo bs = []" and "invar s"
  shows "recv_matches inb (first_message fb lim cap (inb s)) (recv_loop ops p fb lim cap s body)"
  using assms(3)
proof (induction "length (inb s)" arbitrary: s body rule: less_induct)
  case less
  note refines = recv_one_refines [OF less.prems p, of fb lim cap body]
  show ?case
  proof (cases "decode_frame fb lim cap (inb s)")
    case (Frame mid sys b rest)
    with refines obtain s1 where s1: "invar s1" "inb s1 = rest"
      and one: "recv_one ops p fb lim cap s body = after_frame ops p fb mid sys b s1" by auto
    show ?thesis
    proof (cases sys)
      case False
      with Frame one s1 show ?thesis
        by (auto simp: recv_matches_def first_message.simps [of fb lim cap "inb s"] after_frame_def
            recv_loop.simps [of ops p fb lim cap s body])
    next
      case True
      obtain s2 where again: "recv_one ops p fb lim cap s body = Again b s2"
        using one True by (cases "mid = MessageId_HbPing") (auto simp: after_frame_def)
      have "inb s2 = rest"
      proof -
        obtain ok s3 where "send ops p fb (CreateHbPongRequest fb) True s1 MessageId_HbPong () = (ok, s3)"
          by fastforce
        with one again True s1 echo send_buffer_stream(2) [OF s1(1)] show ?thesis
          by (auto simp: after_frame_def send_def Let_def split: if_splits)
      qed
      with recv_one_again_shrinks [OF less.prems p echo again] less.hyps [of s2 b] again Frame True
      show ?thesis
        by (simp add: first_message.simps [of fb lim cap "inb s"] recv_loop.simps [of ops p fb lim cap s body])
    qed
  qed (use refines in \<open>auto simp: recv_matches_def first_message.simps [of fb lim cap "inb s"]
      recv_loop.simps [of ops p fb lim cap s body]\<close>)
qed

end

text \<open>An Asio instance for concrete evaluation: a pair of byte pipes.\<close>

definition pipe_asio :: "(byte list \<times> byte list) asio" where
  "pipe_asio =
     \<lparr>asio_resolve = (\<lambda>host _. if host = ''localhost'' then Some [\<lparr>ep_address = V6 1, ep_port = 1\<rparr>] else None),
      asio_connect = (\<lambda>x _. (True, x)), asio_connect_endpoint = (\<lambda>x _. (True, x)),
      asio_handshake = (\<lambda>x _. (True, x)),
      asio_read = (\<lambda>(i, out) n. if n \<le> length i then (True, take n i, (drop n i, out)) else (False, i, ([], out))),
      asio_write = (\<lambda>(i, out) bs. (True, (i, out @ bs))),
      asio_shutdown = (\<lambda>x. x), asio_close = (\<lambda>(i, out). ([], out)), asio_close_error = (\<lambda>_. False),
      asio_remote_endpoint = (\<lambda>_. None), asio_address_string = (\<lambda>_. [])\<rparr>"

lemma asio_stream_ok_pipe [simp]: "asio_stream_ok pipe_asio fst snd"
  by (simp add: asio_stream_ok_def pipe_asio_def)

section \<open>Properties of the receive path\<close>

text \<open>C8: over a connection, \<^verbatim>\<open>recv_buffer\<close> always returns, and with the first application message of the
  inbound bytes: system frames before it are consumed, a refused or truncated frame ends the call
  with nothing, and after a success the stream stands right behind the message.\<close>

theorem tcp_recv_buffer_first_message:
  assumes "asio_stream_ok a inbound outbound" and "boost_endian_ok p"
  shows "recv_matches (\<lambda>s. inbound (tcp_stream s))
    (first_message fb lim (max_message_size s) (inbound (tcp_stream s)))
    (recv_buffer (tcp_ops a) p fb lim s body)"
proof -
  have cap: "op_max_message_size (tcp_ops a) s = max_message_size s" by (simp add: tcp_ops_def)
  show ?thesis
    unfolding recv_buffer_def cap
    by (rule stream_socket.recv_loop_first_message [OF tcp_stream_socket [OF assms(1)] assms(2) refl TrueI])
qed

theorem tcp_recv_buffer_first_message_witness:
  "recv_matches (\<lambda>s. fst (tcp_stream s))
    (first_message flat_fb 100 0 (frame_bytes flat_fb 1 True [5] @ frame_bytes flat_fb 9 False [1, 2]))
    (recv_buffer (tcp_ops pipe_asio) little_platform flat_fb 100
      (new_tcp_socket (frame_bytes flat_fb 1 True [5] @ frame_bytes flat_fb 9 False [1, 2], []) :: (nat, _) tcp_socket) [])"
  using tcp_recv_buffer_first_message [of pipe_asio fst snd little_platform flat_fb 100
      "new_tcp_socket (frame_bytes flat_fb 1 True [5] @ frame_bytes flat_fb 9 False [1, 2], [])" "[]"]
  by (simp add: new_tcp_socket_def default_max_message_size_def)

text \<open>C28: over a connection, \<^verbatim>\<open>recv_buffer\<close> never surfaces a system frame: it skips the ones in front of an
  application message and returns that message with the stream right behind it, even if a pong could
  not be written; and if writes succeed, it has written exactly one pong for every ping, in place, and
  nothing else.\<close>

theorem tcp_recv_buffer_answers_pings:
  assumes "asio_stream_ok a inbound outbound" and "boost_endian_ok p" and "flatbuffers_ok fb"
    and "\<forall>(i, b) \<in> set sysf. fits fb lim (max_message_size s) i True b"
    and "fits fb lim (max_message_size s) mid False bs"
    and "inbound (tcp_stream s) = concat (map (\<lambda>(i, b). frame_bytes fb i True b) sysf) @ frame_bytes fb mid False bs @ rest"
  shows "\<exists>s'. recv_buffer (tcp_ops a) p fb lim s buf = Some (Return (Some mid), bs, s') \<and> inbound (tcp_stream s') = rest \<and>
    ((\<forall>x bs. fst (asio_write a x bs)) \<longrightarrow>
       outbound (tcp_stream s') = outbound (tcp_stream s) @
         concat (replicate (length (filter (\<lambda>(i, b). i = MessageId_HbPing) sysf)) (pong_bytes fb)))"
proof -
  have cap: "op_max_message_size (tcp_ops a) s = max_message_size s" by (simp add: tcp_ops_def)
  have "recv_matches (\<lambda>s. inbound (tcp_stream s)) (Return (Some (mid, bs, rest))) (recv_buffer (tcp_ops a) p fb lim s buf)"
    using stream_socket.recv_loop_first_message [OF tcp_stream_socket [OF assms(1)] assms(2) refl TrueI,
        of fb lim "max_message_size s" s buf] first_message_system_frames [OF assms(3-5), of rest] assms(6)
    by (simp add: recv_buffer_def cap)
  then obtain s' where r: "recv_buffer (tcp_ops a) p fb lim s buf = Some (Return (Some mid), bs, s')"
    "inbound (tcp_stream s') = rest" by (auto simp: recv_matches_def)
  have "outbound (tcp_stream s') = outbound (tcp_stream s) @
      concat (replicate (length (filter (\<lambda>(i, b). i = MessageId_HbPing) sysf)) (pong_bytes fb))"
    if "\<forall>x bs. fst (asio_write a x bs)"
    using reliable_stream.recv_loop_system_frames [OF tcp_reliable_stream [OF assms(1) that] assms(2-5) TrueI assms(6),
        of buf] r(1) by (simp add: recv_buffer_def cap Let_def)
  with r show ?thesis by blast
qed

theorem tcp_recv_buffer_answers_pings_witness:
  "\<exists>s'. recv_buffer (tcp_ops pipe_asio) little_platform flat_fb 100
      (new_tcp_socket (frame_bytes flat_fb 0 True [4] @ frame_bytes flat_fb 9 False [1], []) :: (nat, _) tcp_socket) [] =
        Some (Return (Some 9), [1], s') \<and>
    snd (tcp_stream s') = pong_bytes flat_fb"
proof -
  have "\<forall>x bs. fst (asio_write pipe_asio x bs)" by (simp add: pipe_asio_def)
  with tcp_recv_buffer_answers_pings [of pipe_asio fst snd little_platform flat_fb "[(0, [4])]" 100
      "new_tcp_socket (frame_bytes flat_fb 0 True [4] @ frame_bytes flat_fb 9 False [1], []) :: (nat, _) tcp_socket"
      9 "[1]" "[]" "[]"]
  show ?thesis
    by (auto simp: fits_flat_fb new_tcp_socket_def default_max_message_size_def MessageId_HbPing_def)
qed

text \<open>C29: with a size cap that the process can allocate, no bytes of the peer make \<^verbatim>\<open>recv_buffer\<close> throw, and
  a body it returns is never larger than the cap.\<close>

theorem tcp_recv_buffer_capped:
  assumes "asio_stream_ok a inbound outbound" and "boost_endian_ok p"
    and "0 < max_message_size s" and "max_message_size s \<le> lim"
  shows "\<exists>r b s'. recv_buffer (tcp_ops a) p fb lim s body = Some (Return r, b, s') \<and>
    (r \<noteq> None \<longrightarrow> length b \<le> max_message_size s)"
proof -
  have cap: "op_max_message_size (tcp_ops a) s = max_message_size s" by (simp add: tcp_ops_def)
  obtain r b s' where ret: "recv_buffer (tcp_ops a) p fb lim s body = Some (r, b, s')"
    using stream_socket.recv_loop_terminates [OF tcp_stream_socket [OF assms(1)] TrueI assms(2) refl]
    by (metis prod_cases3 recv_buffer_def)
  have "returns r \<and> (\<forall>mid. r = Return (Some mid) \<longrightarrow> length b \<le> max_message_size s)"
    using recv_loop_capped [OF ret [unfolded recv_buffer_def cap] _ assms(4) tcp.msg_socket_axioms] assms(3)
    by simp
  with ret show ?thesis by (cases r) auto
qed

theorem tcp_recv_buffer_capped_witness:
  "\<exists>r b s'. recv_buffer (tcp_ops pipe_asio) big_platform flat_fb 4096
      (set_max_message_size 1024 (new_tcp_socket (replicate 20 255, []) :: (nat, _) tcp_socket)) [] =
        Some (Return r, b, s') \<and>
    (r \<noteq> None \<longrightarrow> length b \<le> 1024)"
  using tcp_recv_buffer_capped [of pipe_asio fst snd big_platform
      "set_max_message_size 1024 (new_tcp_socket (replicate 20 255, []) :: (nat, _) tcp_socket)" 4096 flat_fb "[]"]
  by (simp add: set_max_message_size_def new_tcp_socket_def)

text \<open>Without a cap the peer decides how much is allocated: eight bytes are enough to make the receive
  path throw, whenever the announced size cannot be allocated.\<close>

theorem tcp_recv_buffer_uncapped_throws:
  fixes n :: u64
  assumes "asio_stream_ok a inbound outbound" and "boost_endian_ok p"
    and "max_message_size s = 0" and "inbound (tcp_stream s) = le_bytes 8 n" and "lim < unat n"
  shows "\<exists>b s'. recv_buffer (tcp_ops a) p fb lim s body = Some (Throw Bad_alloc, b, s')"
proof -
  have "decode_frame fb lim 0 (le_bytes 8 n) = Alloc_failure"
    using assms(5) by (simp add: decode_frame_def le64.dec_enc)
  then have "first_message fb lim (max_message_size s) (inbound (tcp_stream s)) = Throw Bad_alloc"
    by (simp add: assms(3,4) first_message.simps)
  moreover have "op_max_message_size (tcp_ops a) s = max_message_size s" by (simp add: tcp_ops_def)
  ultimately show ?thesis
    using stream_socket.recv_loop_first_message [OF tcp_stream_socket [OF assms(1)] assms(2) refl TrueI,
        of fb lim "max_message_size s" s body]
    by (auto simp: recv_matches_def recv_buffer_def)
qed

theorem tcp_recv_buffer_uncapped_throws_witness:
  "\<exists>b s'. recv_buffer (tcp_ops pipe_asio) little_platform flat_fb 4096
      (new_tcp_socket (le_bytes 8 (65536 :: u64), []) :: (nat, _) tcp_socket) [] = Some (Throw Bad_alloc, b, s')"
  by (rule tcp_recv_buffer_uncapped_throws [OF asio_stream_ok_pipe, where n = 65536])
     (simp_all add: new_tcp_socket_def default_max_message_size_def)

end
