(* ===== verification/Heartbeat.thy ===== *)
theory Heartbeat
  imports Tcp_Lemmas
begin

text \<open>
  The timers of \<^verbatim>\<open>boost_tcp_socket\<close> over arbitrary sequences of completions: which events make the
  socket close its connection, when a ping is sent, and when the timers are armed.
\<close>

section \<open>Sequences of completions\<close>

datatype 'h tcp_event =
    Connect_requested string string 'h
  | Resolve_completes bool "endpoint list" 'h
  | Connect_completes bool endpoint 'h
  | Handshake_requested handshake_type 'h
  | Handshake_completes bool 'h
  | Read_requested nat 'h
  | Read_completes bool 'h
  | Write_requested "byte list" "byte list" "'h option"
  | Write_completes bool
  | Idle_fires bool
  | Heartbeat_fires bool
  | Handshake_fires bool
  | Close_requested

text \<open>An event is a call of the owner or a completion with its error flag. A handler that a completion
  invokes is recorded as a call.\<close>

fun tcp_event_step ::
  "('u send_closure \<Rightarrow> 'h) \<Rightarrow> 'x asio \<Rightarrow> platform \<Rightarrow> ('b, 'o) fb_lib \<Rightarrow> ('h, 'x) tcp_socket \<Rightarrow> 'h tcp_event \<Rightarrow>
   ('h, 'x) tcp_socket \<times> 'h asio_call list" where
  "tcp_event_step wrap a p fb s (Connect_requested host service h) = async_connect s host service h"
| "tcp_event_step wrap a p fb s (Resolve_completes error eps h) = on_resolve_done s error eps h"
| "tcp_event_step wrap a p fb s (Connect_completes error ep h) = on_connect_done s error ep h"
| "tcp_event_step wrap a p fb s (Handshake_requested t h) = async_handshake s t h"
| "tcp_event_step wrap a p fb s (Handshake_completes error h) = on_handshake_done s error h"
| "tcp_event_step wrap a p fb s (Read_requested n h) = async_read s n h"
| "tcp_event_step wrap a p fb s (Read_completes error h) = on_read_done s error h"
| "tcp_event_step wrap a p fb s (Write_requested head body h) = async_write2 s head body h"
| "tcp_event_step wrap a p fb s (Write_completes error) = on_write_done (\<lambda>h ok s. (s, [Call h ok])) s error"
| "tcp_event_step wrap a p fb s (Idle_fires ec) = on_idle_timer a s ec"
| "tcp_event_step wrap a p fb s (Heartbeat_fires ec) = on_heartbeat_timer wrap a p fb s ec"
| "tcp_event_step wrap a p fb s (Handshake_fires ec) = on_handshake_timer a s ec"
| "tcp_event_step wrap a p fb s Close_requested = close_socket a s"

fun tcp_run ::
  "('u send_closure \<Rightarrow> 'h) \<Rightarrow> 'x asio \<Rightarrow> platform \<Rightarrow> ('b, 'o) fb_lib \<Rightarrow> ('h, 'x) tcp_socket \<Rightarrow> 'h tcp_event list \<Rightarrow>
   ('h, 'x) tcp_socket" where
  "tcp_run wrap a p fb s [] = s"
| "tcp_run wrap a p fb s (e # es) = tcp_run wrap a p fb (fst (tcp_event_step wrap a p fb s e)) es"

text \<open>The calls that a sequence of events makes.\<close>

fun tcp_calls ::
  "('u send_closure \<Rightarrow> 'h) \<Rightarrow> 'x asio \<Rightarrow> platform \<Rightarrow> ('b, 'o) fb_lib \<Rightarrow> ('h, 'x) tcp_socket \<Rightarrow> 'h tcp_event list \<Rightarrow>
   'h asio_call list" where
  "tcp_calls wrap a p fb s [] = []"
| "tcp_calls wrap a p fb s (e # es) =
     (let (s', calls) = tcp_event_step wrap a p fb s e in calls @ tcp_calls wrap a p fb s' es)"

text \<open>The events that restart the heartbeat: a new connect, a handshake that succeeds and a read that succeeds.\<close>

fun restarts_heartbeat :: "'h tcp_event \<Rightarrow> bool" where
  "restarts_heartbeat (Connect_requested _ _ _) = True"
| "restarts_heartbeat (Handshake_completes error _) = (\<not> error)"
| "restarts_heartbeat (Read_completes error _) = (\<not> error)"
| "restarts_heartbeat _ = False"

text \<open>The heartbeat timer fired, and was not restarted since.\<close>

fun unanswered :: "bool \<Rightarrow> 'h tcp_event list \<Rightarrow> bool" where
  "unanswered b [] = b"
| "unanswered b (e # es) = unanswered ((b \<or> e = Heartbeat_fires False) \<and> \<not> restarts_heartbeat e) es"

section \<open>Lemmas\<close>

lemma async_write2_frame:
  "async_write2 s head body h = (s', calls) \<Longrightarrow> \<exists>q. s' = s\<lparr>write_queue := q\<rparr>"
  by (auto simp: async_write2_def async_write_locked_def write_next_def split: if_splits list.splits
      intro: exI [of _ "write_queue s"] exI [of _ "_ @ _"])

lemma fst_write_next [simp]: "fst (write_next s) = s"
  by (simp add: write_next_def split: list.split)

lemma write_queue_same [simp]: "write_queue s = q \<Longrightarrow> s\<lparr>write_queue := q\<rparr> = s"
  by (cases s) simp

lemma on_write_done_frame:
  "\<exists>q. fst (on_write_done (\<lambda>h ok s. (s, [Call h ok])) s error) = s\<lparr>write_queue := q\<rparr>"
proof (cases "write_queue s")
  case Nil
  then have "fst (on_write_done (\<lambda>h ok s. (s, [Call h ok])) s error) = s\<lparr>write_queue := []\<rparr>"
    by (simp add: on_write_done_def write_done_locked_def)
  then show ?thesis by blast
next
  case (Cons w ws)
  then have "fst (on_write_done (\<lambda>h ok s. (s, [Call h ok])) s error) = s\<lparr>write_queue := ws\<rparr>"
    by (simp add: on_write_done_def write_done_locked_def Let_def case_prod_beta split: option.split)
  then show ?thesis by blast
qed

lemma on_heartbeat_timer_state:
  "heartbeat_sent (fst (on_heartbeat_timer wrap a p fb s ec)) = (heartbeat_sent s \<or> \<not> ec)"
  "heartbeat_timeout (fst (on_heartbeat_timer wrap a p fb s ec)) = heartbeat_timeout s"
  "idle_timeout (fst (on_heartbeat_timer wrap a p fb s ec)) = idle_timeout s"
proof -
  obtain s1 c where w: "async_send_forget (erased_write wrap) p fb (CreateHbPingRequest fb) True s MessageId_HbPing () = (s1, c)"
    by fastforce
  then obtain q where "s1 = s\<lparr>write_queue := q\<rparr>"
    using async_write2_frame by (force simp: async_send_forget_def async_send_buffer_def erased_write_def Let_def)
  with w show "heartbeat_sent (fst (on_heartbeat_timer wrap a p fb s ec)) = (heartbeat_sent s \<or> \<not> ec)"
    "heartbeat_timeout (fst (on_heartbeat_timer wrap a p fb s ec)) = heartbeat_timeout s"
    "idle_timeout (fst (on_heartbeat_timer wrap a p fb s ec)) = idle_timeout s"
    by (auto simp: on_heartbeat_timer_def tcp_timer_defs)
qed

lemma tcp_event_step_heartbeat:
  assumes "heartbeat_timeout s \<noteq> 0"
  shows "heartbeat_timeout (fst (tcp_event_step wrap a p fb s e)) = heartbeat_timeout s"
    and "heartbeat_sent (fst (tcp_event_step wrap a p fb s e)) = unanswered (heartbeat_sent s) [e]"
proof -
  have "heartbeat_timeout (fst (tcp_event_step wrap a p fb s e)) = heartbeat_timeout s \<and>
    heartbeat_sent (fst (tcp_event_step wrap a p fb s e)) = unanswered (heartbeat_sent s) [e]"
  proof (cases e)
    case (Heartbeat_fires ec)
    then show ?thesis by (simp add: on_heartbeat_timer_state)
  next
    case (Write_requested head body h)
    obtain s' c where "async_write2 s head body h = (s', c)" by fastforce
    with async_write2_frame [OF this] Write_requested show ?thesis by auto
  next
    case (Write_completes error)
    with on_write_done_frame [of s error] show ?thesis by auto
  qed (use assms in \<open>auto simp: on_read_done_def on_handshake_done_def async_connect_def async_handshake_def
      on_resolve_done_def on_connect_done_def async_read_def on_idle_timer_def on_handshake_timer_def close_socket_def
      tcp_timer_defs Let_def\<close>)
  then show "heartbeat_timeout (fst (tcp_event_step wrap a p fb s e)) = heartbeat_timeout s"
    and "heartbeat_sent (fst (tcp_event_step wrap a p fb s e)) = unanswered (heartbeat_sent s) [e]" by auto
qed

lemma tcp_run_heartbeat:
  "heartbeat_timeout s \<noteq> 0 \<Longrightarrow>
     heartbeat_timeout (tcp_run wrap a p fb s es) = heartbeat_timeout s \<and>
     heartbeat_sent (tcp_run wrap a p fb s es) = unanswered (heartbeat_sent s) es"
proof (induction es arbitrary: s)
  case Nil
  then show ?case by simp
next
  case (Cons e es)
  then show ?case
    using tcp_event_step_heartbeat [OF Cons.prems, of wrap a p fb e] by simp
qed

lemma unanswered_iff:
  "unanswered b es \<longleftrightarrow>
     b \<and> (\<forall>e \<in> set es. \<not> restarts_heartbeat e) \<or>
     (\<exists>pre post. es = pre @ Heartbeat_fires False # post \<and> (\<forall>e \<in> set post. \<not> restarts_heartbeat e))"
proof (induction es arbitrary: b)
  case Nil
  then show ?case by simp
next
  case (Cons e es)
  have split: "(\<exists>pre post. e # es = pre @ Heartbeat_fires False # post \<and> (\<forall>e \<in> set post. \<not> restarts_heartbeat e)) \<longleftrightarrow>
      e = Heartbeat_fires False \<and> (\<forall>e \<in> set es. \<not> restarts_heartbeat e) \<or>
      (\<exists>pre post. es = pre @ Heartbeat_fires False # post \<and> (\<forall>e \<in> set post. \<not> restarts_heartbeat e))"
    by (auto simp: Cons_eq_append_conv)
  show ?case
    unfolding split by (auto simp: Cons.IH)
qed

lemma async_write2_accepts:
  assumes "max_pending_writes s = 0 \<or> length (write_queue s) < max_pending_writes s"
  shows "async_write2 s head body h =
    (s\<lparr>write_queue := write_queue s @ [\<lparr>pw_head = head, pw_body = body, pw_handler = h\<rparr>]\<rparr>,
     if write_queue s = [] then [Async_write_start head body] else [])"
  using assms by (auto simp: async_write2_def async_write_locked_def write_next_def)

lemma async_write2_calls:
  "async_write2 s head body h = (s', calls) \<Longrightarrow> Close_stream \<notin> set calls \<and> Shutdown_stream \<notin> set calls"
  by (auto simp: async_write2_def async_write_locked_def write_next_def call_handler_def
      split: if_splits list.splits option.splits)

lemma heartbeat_close_iff_sent:
  "Close_stream \<in> set (snd (on_heartbeat_timer wrap a p fb s False)) \<longleftrightarrow> heartbeat_sent s"
proof -
  obtain s1 c where w: "async_send_forget (erased_write wrap) p fb (CreateHbPingRequest fb) True s MessageId_HbPing () = (s1, c)"
    by fastforce
  then have "Close_stream \<notin> set c"
    using async_write2_calls by (force simp: async_send_forget_def async_send_buffer_def erased_write_def Let_def)
  with w show ?thesis by (auto simp: on_heartbeat_timer_def tcp_timer_defs)
qed

section \<open>Timers exist when they are used\<close>

text \<open>No call goes through a null pointer, a timer exists afterwards exactly if it existed before or was
  set, and every timer that is waited on exists.\<close>

definition timers_ok :: "('h, 'x) tcp_socket \<Rightarrow> ('h, 'x) tcp_socket \<times> 'h asio_call list \<Rightarrow> bool" where
  "timers_ok s res \<longleftrightarrow> UB_null_timer \<notin> set (snd res) \<and>
     (\<forall>t. timer_created t (fst res) \<longleftrightarrow> timer_created t s \<or> (\<exists>d. Expires_after t d \<in> set (snd res))) \<and>
     (\<forall>t. Async_wait t \<in> set (snd res) \<longrightarrow> timer_created t (fst res))"

named_theorems timer_ops

lemma timer_created_updates [simp]:
  "timer_created t (s\<lparr>write_queue := q\<rparr>) = timer_created t s" "timer_created t (s\<lparr>tcp_stream := x\<rparr>) = timer_created t s"
  "timer_created t (s\<lparr>heartbeat_sent := b\<rparr>) = timer_created t s"
  "timer_created t (s\<lparr>remote_endpoint := ep\<rparr>) = timer_created t s"
  by (cases t; simp)+

lemma timers_ok_then:
  "timers_ok s (s1, c1) \<Longrightarrow> timers_ok s1 (s2, c2) \<Longrightarrow> timers_ok s (s2, c1 @ c2)"
  by (auto simp: timers_ok_def)

lemma timers_ok_other [simp]:
  "timers_ok s (s, [])" "timers_ok s (s, [Call h ok])" "timers_ok s (s, [Async_resolve host service h])"
  "timers_ok s (s, [Async_handshake_start ht h])"
  by (simp_all add: timers_ok_def)

lemma timers_ok_resets [timer_ops]:
  "timers_ok s (reset_idle_timer s)" "timers_ok s (reset_heartbeat_timer s)" "timers_ok s (reset_handshake_timer s)"
  "timers_ok s (cancel_handshake_timer s)"
proof -
  have "timer_created t (fst (reset_idle_timer s)) \<longleftrightarrow> timer_created t s \<or> (\<exists>d. Expires_after t d \<in> set (snd (reset_idle_timer s)))"
    "timer_created t (fst (reset_heartbeat_timer s)) \<longleftrightarrow>
       timer_created t s \<or> (\<exists>d. Expires_after t d \<in> set (snd (reset_heartbeat_timer s)))"
    "timer_created t (fst (reset_handshake_timer s)) \<longleftrightarrow>
       timer_created t s \<or> (\<exists>d. Expires_after t d \<in> set (snd (reset_handshake_timer s)))" for t
    by (cases t; simp add: reset_timer_eqs)+
  then show "timers_ok s (reset_idle_timer s)" "timers_ok s (reset_heartbeat_timer s)" "timers_ok s (reset_handshake_timer s)"
    "timers_ok s (cancel_handshake_timer s)"
    unfolding timers_ok_def by (auto simp: reset_timer_eqs)
qed

lemma timers_ok_activity [timer_ops]: "timers_ok s (reset_activity_timers s)"
  by (auto simp: reset_activity_timers_def Let_def case_prod_beta intro!: timers_ok_then [where ?s1.0 = "fst (reset_idle_timer s)"]
      timers_ok_resets)

lemma timers_ok_close [timer_ops]: "timers_ok s (close_socket a s)" "timers_ok s (close_lowest_layer a s)"
  by (auto simp: timers_ok_def close_socket_def close_lowest_layer_def)

lemma timers_ok_read [timer_ops]: "timers_ok s (async_read s n h)"
  by (auto simp: timers_ok_def async_read_def)

lemma timers_ok_write [timer_ops]: "timers_ok s (async_write2 s head body h)"
  by (auto simp: timers_ok_def async_write2_def async_write_locked_def write_next_def call_handler_def
      split: list.splits option.splits)

lemma timers_ok_send [timer_ops]: "timers_ok s (async_send_forget (erased_write wrap) p fb create_fn sys s mid args)"
  by (simp add: async_send_forget_def async_send_buffer_def erased_write_def Let_def timers_ok_write)

lemma timers_ok_write_done [timer_ops]: "timers_ok s (on_write_done (\<lambda>h ok s. (s, [Call h ok])) s error)"
  by (cases "write_queue s")
     (auto simp: timers_ok_def on_write_done_def write_done_locked_def write_next_def Let_def split: option.splits list.splits)

lemma timers_ok_heartbeat [timer_ops]: "heartbeat_timer s \<Longrightarrow> timers_ok s (on_heartbeat_timer wrap a p fb s ec)"
proof -
  assume s: "heartbeat_timer s"
  obtain s1 c where send: "async_send_forget (erased_write wrap) p fb (CreateHbPingRequest fb) True s MessageId_HbPing () = (s1, c)"
    by fastforce
  then have ok: "timers_ok s (s1, c)"
    using timers_ok_send [of s wrap p fb "CreateHbPingRequest fb" True MessageId_HbPing "()"] by simp
  with s have "timer_created Heartbeat_timer s1" unfolding timers_ok_def by simp
  then have "timers_ok s1 (arm_heartbeat (s1\<lparr>heartbeat_sent := True\<rparr>))"
    by (auto simp: timers_ok_def tcp_timer_defs)
  with ok show ?thesis
    using timers_ok_close(2) [of s a] timers_ok_then [OF ok] by (auto simp: on_heartbeat_timer_def send Let_def case_prod_beta)
qed

lemma timers_ok_event:
  assumes "\<And>ec. e = Heartbeat_fires ec \<Longrightarrow> heartbeat_timer s"
  shows "timers_ok s (tcp_event_step wrap a p fb s e)"
proof (cases e)
  case (Connect_requested host service h)
  then show ?thesis
    using timers_ok_then [OF _ timers_ok_other(3), of s "fst (reset_activity_timers s)"] timers_ok_activity [of s]
    by (simp add: async_connect_def Let_def case_prod_beta)
next
  case (Resolve_completes error eps h)
  then show ?thesis by (simp add: on_resolve_done_def timers_ok_def)
next
  case (Connect_completes error ep h)
  then show ?thesis by (simp add: on_connect_done_def timers_ok_def)
next
  case (Handshake_requested t h)
  then show ?thesis
    using timers_ok_then [OF _ timers_ok_other(4), of s "fst (reset_handshake_timer s)"] timers_ok_resets(3) [of s]
    by (simp add: async_handshake_def Let_def case_prod_beta)
next
  case (Handshake_completes error h)
  have "timers_ok s (s, snd (cancel_handshake_timer s))" "fst (cancel_handshake_timer s) = s"
    using timers_ok_resets(4) [of s] by (simp_all add: reset_timer_eqs)
  with Handshake_completes timers_ok_then [OF timers_ok_then [OF this(1)] timers_ok_other(2)] timers_ok_activity [of s]
    timers_ok_then [OF this(1) timers_ok_other(2)] show ?thesis
    by (auto simp: on_handshake_done_def Let_def case_prod_beta)
next
  case (Read_completes error h)
  then show ?thesis
    using timers_ok_then [OF _ timers_ok_other(2), of s "fst (reset_activity_timers s)"] timers_ok_activity [of s]
    by (auto simp: on_read_done_def Let_def case_prod_beta)
qed (use assms timers_ok_close(2) [of s a] in \<open>auto simp: on_idle_timer_def on_handshake_timer_def intro: timer_ops\<close>)

lemma timers_ok_run:
  assumes "\<And>pre ec post. es = pre @ Heartbeat_fires ec # post \<Longrightarrow>
      heartbeat_timer s \<or> Async_wait Heartbeat_timer \<in> set (tcp_calls wrap a p fb s pre)"
  shows "UB_null_timer \<notin> set (tcp_calls wrap a p fb s es)"
    and "timer_created t (tcp_run wrap a p fb s es) \<longleftrightarrow>
      timer_created t s \<or> (\<exists>d. Expires_after t d \<in> set (tcp_calls wrap a p fb s es))"
proof -
  have "UB_null_timer \<notin> set (tcp_calls wrap a p fb s es) \<and>
    (timer_created t (tcp_run wrap a p fb s es) \<longleftrightarrow>
      timer_created t s \<or> (\<exists>d. Expires_after t d \<in> set (tcp_calls wrap a p fb s es)))"
    using assms
  proof (induction es arbitrary: s)
    case (Cons e es)
    obtain s1 c where e: "tcp_event_step wrap a p fb s e = (s1, c)" by fastforce
    have "heartbeat_timer s" if "e = Heartbeat_fires ec" for ec
      using Cons.prems [of "[]" ec es] that by simp
    then have ok: "timers_ok s (s1, c)" using timers_ok_event [of e s wrap a p fb] e by simp
    have "heartbeat_timer s1 \<or> Async_wait Heartbeat_timer \<in> set (tcp_calls wrap a p fb s1 pre)"
      if "es = pre @ Heartbeat_fires ec # post" for pre ec post
      using Cons.prems [of "e # pre" ec post] that ok e unfolding timers_ok_def
      by (auto dest: spec [where x = Heartbeat_timer])
    note IH = Cons.IH [OF this]
    from IH ok e show ?case by (auto simp: timers_ok_def)
  qed simp
  then show "UB_null_timer \<notin> set (tcp_calls wrap a p fb s es)"
    and "timer_created t (tcp_run wrap a p fb s es) \<longleftrightarrow>
      timer_created t s \<or> (\<exists>d. Expires_after t d \<in> set (tcp_calls wrap a p fb s es))" by simp_all
qed

section \<open>Properties\<close>

text \<open>C24: whatever connects, handshakes, reads, writes, closes and timer completions happened since the
  heartbeat was last reset, the next firing of the heartbeat timer closes the connection exactly when
  the timer had already fired and after that neither a read nor a handshake succeeded and no new
  connect was started; a peer that answers within the interval is never dropped.\<close>

theorem heartbeat_closes_iff_unanswered:
  assumes "heartbeat_timeout s \<noteq> 0" and "\<not> heartbeat_sent s"
  shows "Close_stream \<in> set (snd (on_heartbeat_timer wrap a p fb (tcp_run wrap a p fb s es) False)) \<longleftrightarrow>
    (\<exists>pre post. es = pre @ Heartbeat_fires False # post \<and> (\<forall>e \<in> set post. \<not> restarts_heartbeat e))"
  using tcp_run_heartbeat [OF assms(1), of wrap a p fb es] assms(2)
  by (simp add: heartbeat_close_iff_sent unanswered_iff)

theorem heartbeat_closes_iff_unanswered_witness:
  "let s = set_heartbeat_timeout 5 (new_tcp_socket ([], []) :: (unit send_closure, _) tcp_socket)
   in Close_stream \<in> set (snd (on_heartbeat_timer id pipe_asio little_platform flat_fb
        (tcp_run id pipe_asio little_platform flat_fb s [Heartbeat_fires False, Write_completes False]) False)) \<and>
      Close_stream \<notin> set (snd (on_heartbeat_timer id pipe_asio little_platform flat_fb
        (tcp_run id pipe_asio little_platform flat_fb s
          [Heartbeat_fires False, Handshake_completes False (Release_header [])]) False))"
proof -
  let ?s = "set_heartbeat_timeout 5 (new_tcp_socket ([], []) :: (unit send_closure, _) tcp_socket)"
  have s: "heartbeat_timeout ?s \<noteq> 0" "\<not> heartbeat_sent ?s"
    by (simp_all add: set_heartbeat_timeout_def new_tcp_socket_def)
  show ?thesis
    unfolding Let_def heartbeat_closes_iff_unanswered [OF s] by (simp add: Cons_eq_append_conv)
qed

text \<open>The first firing after a reset queues exactly one ping frame behind the writes already pending,
  remembers that it was sent, re-arms the timer and closes nothing.\<close>

theorem heartbeat_sends_ping:
  assumes "boost_endian_ok p" and "\<not> heartbeat_sent s" and "heartbeat_timer s"
    and "max_pending_writes s = 0 \<or> length (write_queue s) < max_pending_writes s"
    and "on_heartbeat_timer wrap a p fb s False = (s', calls)"
  shows "\<exists>w. write_queue s' = write_queue s @ [w] \<and>
    pw_head w @ pw_body w = frame_bytes fb MessageId_HbPing True (serialise (fb_ops fb) (CreateHbPingRequest fb) ()) \<and>
    heartbeat_sent s' \<and>
    calls = (if write_queue s = [] then [Async_write_start (pw_head w) (pw_body w)] else []) @
      [Expires_after Heartbeat_timer (heartbeat_timeout s), Async_wait Heartbeat_timer]"
proof -
  let ?m = "make_msg p fb (CreateHbPingRequest fb) True MessageId_HbPing ()"
  let ?w = "\<lparr>pw_head = msg_header ?m, pw_body = msg_body ?m, pw_handler = Some (wrap (Release_message ?m))\<rparr>"
  note async_write2_accepts [OF assms(4), of "msg_header ?m" "msg_body ?m" "Some (wrap (Release_message ?m))"]
  with assms(2,3,5) have "write_queue s' = write_queue s @ [?w]" "heartbeat_sent s'"
    "calls = (if write_queue s = [] then [Async_write_start (msg_header ?m) (msg_body ?m)] else []) @
      [Expires_after Heartbeat_timer (heartbeat_timeout s), Async_wait Heartbeat_timer]"
    by (auto simp: on_heartbeat_timer_def async_send_forget_def async_send_buffer_def erased_write_def Let_def tcp_timer_defs)
  with make_msg_wire [OF assms(1), of fb "CreateHbPingRequest fb" True MessageId_HbPing "()"] show ?thesis
    by (intro exI [of _ ?w]) simp
qed

theorem heartbeat_sends_ping_witness:
  "let s = fst (reset_heartbeat_timer (set_heartbeat_timeout 5 (new_tcp_socket ([], []) :: (unit send_closure, _) tcp_socket)));
       s' = fst (on_heartbeat_timer id pipe_asio big_platform flat_fb s False)
   in \<exists>w. write_queue s' = [w] \<and>
        pw_head w @ pw_body w = frame_bytes flat_fb MessageId_HbPing True [4] \<and> heartbeat_sent s'"
proof -
  let ?s = "fst (reset_heartbeat_timer (set_heartbeat_timeout 5 (new_tcp_socket ([], []) :: (unit send_closure, _) tcp_socket)))"
  let ?r = "on_heartbeat_timer id pipe_asio big_platform flat_fb ?s False"
  have s: "\<not> heartbeat_sent ?s" "heartbeat_timer ?s" "max_pending_writes ?s = 0 \<or> length (write_queue ?s) < max_pending_writes ?s"
    "write_queue ?s = []"
    by (simp_all add: set_heartbeat_timeout_def new_tcp_socket_def default_max_pending_writes_def reset_timer_eqs)
  from heartbeat_sends_ping [OF boost_endian_ok_big s(1-3), of id pipe_asio flat_fb "fst ?r" "snd ?r"] s(4)
  show ?thesis by (auto simp: Let_def serialise_flat_fb)
qed

text \<open>C39: when the write queue is full the ping is dropped, but the socket still counts it as sent: the
  queue is unchanged, nothing is written, and the next firing closes the connection although the
  peer was never asked.\<close>

theorem heartbeat_ping_lost_when_queue_full:
  assumes "max_pending_writes s \<noteq> 0" and "max_pending_writes s \<le> length (write_queue s)"
    and "\<not> heartbeat_sent s" and "on_heartbeat_timer wrap a p fb s False = (s', calls)"
  shows "write_queue s' = write_queue s \<and> (\<forall>h b. Async_write_start h b \<notin> set calls) \<and>
    Close_stream \<in> set (snd (on_heartbeat_timer wrap a p fb s' False))"
  using assms
  by (auto simp: on_heartbeat_timer_def async_send_forget_def async_send_buffer_def erased_write_def Let_def tcp_timer_defs
      async_write2_def async_write_locked_def call_handler_def split: if_splits)

theorem heartbeat_ping_lost_when_queue_full_witness:
  "let s = set_max_pending_writes 1 (fst (async_write2 (new_tcp_socket ([], [])) [1] []
             (None :: unit send_closure option)));
       s' = fst (on_heartbeat_timer id pipe_asio little_platform flat_fb s False)
   in length (write_queue s) = 1 \<and> write_queue s' = write_queue s \<and>
      Close_stream \<in> set (snd (on_heartbeat_timer id pipe_asio little_platform flat_fb s' False))"
proof -
  let ?s = "set_max_pending_writes 1 (fst (async_write2 (new_tcp_socket ([], [])) [1] []
             (None :: unit send_closure option)))"
  let ?r = "on_heartbeat_timer id pipe_asio little_platform flat_fb ?s False"
  have s: "max_pending_writes ?s \<noteq> 0" "max_pending_writes ?s \<le> length (write_queue ?s)" "\<not> heartbeat_sent ?s"
    "length (write_queue ?s) = 1"
    by (simp_all add: set_max_pending_writes_def new_tcp_socket_def async_write2_def async_write_locked_def
        write_next_def default_max_pending_writes_def)
  from heartbeat_ping_lost_when_queue_full [OF s(1-3), of id pipe_asio little_platform flat_fb "fst ?r" "snd ?r"] s(4)
  show ?thesis by (simp add: Let_def)
qed

text \<open>C40: an asynchronous connect arms the heartbeat timer before the handshake: if the timer fires while
  the connect or the handshake is still under way, the socket starts an application write on the
  stream.\<close>

theorem connect_arms_heartbeat_before_handshake:
  assumes "heartbeat_timeout s \<noteq> 0" and "write_queue s = []"
    and "async_connect s host service h = (s1, calls)"
  shows "Async_wait Heartbeat_timer \<in> set calls \<and>
    (\<forall>t k. Async_handshake_start t k \<notin> set calls) \<and>
    (\<exists>head body. Async_write_start head body \<in> set (snd (on_heartbeat_timer wrap a p fb s1 False)))"
  using assms
  by (cases "idle_timeout s = 0") (auto simp: async_connect_def tcp_timer_defs on_heartbeat_timer_def async_send_forget_def
      async_send_buffer_def erased_write_def Let_def async_write2_def async_write_locked_def write_next_def)

theorem connect_arms_heartbeat_before_handshake_witness:
  "let s = set_heartbeat_timeout 5 (new_tcp_socket ([], []) :: (unit send_closure, _) tcp_socket);
       r = async_connect s ''host'' ''80'' (Release_header [])
   in Async_wait Heartbeat_timer \<in> set (snd r) \<and>
      (\<exists>head body. Async_write_start head body \<in>
         set (snd (on_heartbeat_timer id pipe_asio little_platform flat_fb (fst r) False)))"
proof -
  let ?s = "set_heartbeat_timeout 5 (new_tcp_socket ([], []) :: (unit send_closure, _) tcp_socket)"
  let ?r = "async_connect ?s ''host'' ''80'' (Release_header [])"
  have "heartbeat_timeout ?s \<noteq> 0" "write_queue ?s = []"
    by (simp_all add: set_heartbeat_timeout_def new_tcp_socket_def)
  from connect_arms_heartbeat_before_handshake [OF this prod.collapse [symmetric],
      of "''host''" "''80''" "Release_header []" id pipe_asio little_platform flat_fb]
  show ?thesis by (auto simp: Let_def)
qed

text \<open>The handshake phase has its own deadline: it is armed for the configured time when the handshake
  starts and cancelled when it completes, and the idle and heartbeat timers are re-armed by the
  handshake only if it succeeded.\<close>

theorem handshake_deadline:
  assumes "handshake_timeout s \<noteq> 0" and "async_handshake s t h = (s1, calls)"
    and "on_handshake_done s1 error h = (s2, calls2)"
  shows "calls = [Expires_after Handshake_timer (handshake_timeout s), Async_wait Handshake_timer, Async_handshake_start t h] \<and>
    hd calls2 = Cancel_timer Handshake_timer \<and> last calls2 = Call h (\<not> error) \<and>
    (Async_wait Idle_timer \<in> set calls2 \<longleftrightarrow> \<not> error \<and> idle_timeout s \<noteq> 0) \<and>
    (Async_wait Heartbeat_timer \<in> set calls2 \<longleftrightarrow> \<not> error \<and> heartbeat_timeout s \<noteq> 0)"
  using assms
  by (cases t; cases error; cases "idle_timeout s = 0"; cases "heartbeat_timeout s = 0";
      auto simp: async_handshake_def on_handshake_done_def
        to_asio_handshake_type_def tcp_timer_defs Let_def)

theorem handshake_deadline_witness:
  "let s = set_handshake_timeout 3 (set_idle_timeout 9 (new_tcp_socket ([], []) :: (nat, _) tcp_socket));
       r = async_handshake s Server_handshake 1
   in Async_wait Idle_timer \<in> set (snd (on_handshake_done (fst r) False 1)) \<and>
      Async_wait Idle_timer \<notin> set (snd (on_handshake_done (fst r) True 1))"
proof -
  let ?s = "set_handshake_timeout 3 (set_idle_timeout 9 (new_tcp_socket ([], []) :: (nat, _) tcp_socket))"
  let ?r = "async_handshake ?s Server_handshake 1"
  have s: "handshake_timeout ?s \<noteq> 0" "idle_timeout ?s \<noteq> 0"
    by (simp_all add: set_handshake_timeout_def set_idle_timeout_def new_tcp_socket_def)
  note deadline = handshake_deadline [OF s(1) prod.collapse [symmetric] prod.collapse [symmetric],
      of Server_handshake 1]
  from deadline [of False] deadline [of True] s(2) show ?thesis unfolding Let_def by blast
qed

text \<open>C21: no timer is used before it exists. The three timers of a new socket are null pointers, and over
  every sequence of connects, handshakes, reads, writes, closes and timer completions, each operation
  creates a timer before it goes through it: no call is ever made through a null pointer, the
  re-arming inside the heartbeat handler included, and a timer exists exactly if it has been set. The
  only assumption is Asio's: the heartbeat handler runs only after a wait on its timer was started.\<close>

theorem timers_created_before_use:
  assumes "s = set_handshake_timeout d3 (set_heartbeat_timeout d2 (set_idle_timeout d1 (new_tcp_socket x)))"
    and "\<And>pre ec post. es = pre @ Heartbeat_fires ec # post \<Longrightarrow>
      Async_wait Heartbeat_timer \<in> set (tcp_calls wrap a p fb s pre)"
  shows "UB_null_timer \<notin> set (tcp_calls wrap a p fb s es) \<and>
    (timer_created t (tcp_run wrap a p fb s es) \<longleftrightarrow> (\<exists>d. Expires_after t d \<in> set (tcp_calls wrap a p fb s es)))"
proof -
  have "\<not> timer_created t s"
    by (cases t) (simp_all add: assms(1) set_handshake_timeout_def set_heartbeat_timeout_def set_idle_timeout_def new_tcp_socket_def)
  with timers_ok_run [of es s wrap a p fb] assms(2) show ?thesis by blast
qed

theorem timers_created_before_use_witness:
  "let s = set_handshake_timeout 0 (set_heartbeat_timeout 5 (set_idle_timeout 0 (new_tcp_socket ([], []) ::
             (unit send_closure, _) tcp_socket)));
       es = [Connect_requested ''host'' ''80'' (Release_header []), Heartbeat_fires False]
   in UB_null_timer \<notin> set (tcp_calls id pipe_asio little_platform flat_fb s es) \<and>
      heartbeat_timer (tcp_run id pipe_asio little_platform flat_fb s es)"
proof -
  let ?s = "set_handshake_timeout 0 (set_heartbeat_timeout 5 (set_idle_timeout 0 (new_tcp_socket ([], []) ::
      (unit send_closure, _) tcp_socket)))"
  let ?c = "Connect_requested ''host'' ''80'' (Release_header []) :: unit send_closure tcp_event"
  let ?es = "[?c, Heartbeat_fires False]"
  have calls: "set (tcp_calls id pipe_asio little_platform flat_fb ?s [?c]) =
      {Expires_after Heartbeat_timer 5, Async_wait Heartbeat_timer, Async_resolve ''host'' ''80'' (Release_header [])}"
    by (simp add: async_connect_def tcp_timer_defs set_handshake_timeout_def set_heartbeat_timeout_def set_idle_timeout_def
        new_tcp_socket_def Let_def)
  have fires: "Async_wait Heartbeat_timer \<in> set (tcp_calls id pipe_asio little_platform flat_fb ?s pre)"
    if "?es = pre @ Heartbeat_fires ec # post" for pre ec post
    using that calls by (auto simp: Cons_eq_append_conv)
  have created: "UB_null_timer \<notin> set (tcp_calls id pipe_asio little_platform flat_fb ?s ?es) \<and>
      (timer_created Heartbeat_timer (tcp_run id pipe_asio little_platform flat_fb ?s ?es) \<longleftrightarrow>
        (\<exists>d. Expires_after Heartbeat_timer d \<in> set (tcp_calls id pipe_asio little_platform flat_fb ?s ?es)))"
    by (rule timers_created_before_use [OF refl]) (rule fires)
  have "set (tcp_calls id pipe_asio little_platform flat_fb ?s [?c]) \<subseteq>
      set (tcp_calls id pipe_asio little_platform flat_fb ?s ?es)"
    by (simp add: case_prod_beta)
  with calls have "\<exists>d. Expires_after Heartbeat_timer d \<in> set (tcp_calls id pipe_asio little_platform flat_fb ?s ?es)"
    by blast
  with created show ?thesis by (simp add: Let_def del: tcp_calls.simps tcp_run.simps)
qed

end
