(* ===== verification/Session.thy ===== *)
theory Session
  imports Heartbeat
begin

text \<open>
  \<^verbatim>\<open>sl::session\<close> of \<^verbatim>\<open>src/connection/session.hpp\<close> and \<^verbatim>\<open>session.cpp\<close>, over \<^verbatim>\<open>boost_tcp_socket\<close>: the chain
  of asynchronous reads that receives framed messages. A lambda passed to \<^verbatim>\<open>async_read\<close> is a value
  of \<open>session_cont\<close> with what it captured besides \<^verbatim>\<open>self\<close> and the buffer; \<open>run_cont\<close> is what it
  does when Asio has filled the buffer.
\<close>

section \<open>State and effects\<close>

datatype session_cont =
    After_frame_size
  | After_header
  | After_body u8 bool

text \<open>The callbacks that the sockets of the program hold: closures of the send wrappers, the session's
  own reads, and callbacks of the session's owner.\<close>

datatype ('u, 'm) callback =
    Sent "'u send_closure"
  | Read_done session_cont
  | Owner_callback 'm

record ('u, 'm, 'x) session =
  session_socket :: "(('u, 'm) callback, 'x) tcp_socket"
  session_managed :: bool

text \<open>
  What a session does besides changing its own state, in order: calls of its socket, the calls of
  the virtual functions, \<^verbatim>\<open>manager_->remove_session(this)\<close>, and an exception that leaves the
  completion handler.
\<close>

datatype ('u, 'm) session_effect =
    Socket_call "('u, 'm) callback asio_call"
  | Handle_message u8 "byte list"
  | Handle_sys_message u8 "byte list"
  | On_error
  | Remove_session
  | Throws cpp_exception

type_synonym ('u, 'm, 'x) session_result =
  "('u, 'm, 'x) session \<times> ('u, 'm) session_effect list"

text \<open>\<^verbatim>\<open>handle_message\<close> is pure virtual: its effect on the session is an argument.\<close>

type_synonym ('u, 'm, 'x) message_handler =
  "u8 \<Rightarrow> byte list \<Rightarrow> ('u, 'm, 'x) session \<Rightarrow> ('u, 'm, 'x) session_result"

section \<open>Operations\<close>

definition new_session :: "(('u, 'm) callback, 'x) tcp_socket \<Rightarrow> bool \<Rightarrow> ('u, 'm, 'x) session" where
  "new_session sock managed = \<lparr>session_socket = sock, session_managed = managed\<rparr>"

text \<open>A call on the session's socket.\<close>

definition on_socket ::
  "((('u, 'm) callback, 'x) tcp_socket \<Rightarrow> (('u, 'm) callback, 'x) tcp_socket \<times> ('u, 'm) callback asio_call list) \<Rightarrow>
   ('u, 'm, 'x) session \<Rightarrow> ('u, 'm, 'x) session_result" where
  "on_socket f s = (let (sock, calls) = f (session_socket s) in (s\<lparr>session_socket := sock\<rparr>, map Socket_call calls))"

definition session_stop :: "'x asio \<Rightarrow> ('u, 'm, 'x) session \<Rightarrow> ('u, 'm, 'x) session_result" where
  "session_stop a s = on_socket (close_socket a) s"

definition session_destroy :: "'x asio \<Rightarrow> ('u, 'm, 'x) session \<Rightarrow> ('u, 'm, 'x) session_result" where
  "session_destroy a s = on_socket (close_socket a) s"

definition session_connect ::
  "'x asio \<Rightarrow> ('u, 'm, 'x) session \<Rightarrow> string \<Rightarrow> string \<Rightarrow> bool outcome \<times> ('u, 'm, 'x) session" where
  "session_connect a s host service =
     (let (r, sock) = connect_host a (session_socket s) host service in (r, s\<lparr>session_socket := sock\<rparr>))"

definition session_async_connect ::
  "('u, 'm, 'x) session \<Rightarrow> string \<Rightarrow> string \<Rightarrow> ('u, 'm) callback \<Rightarrow> ('u, 'm, 'x) session_result" where
  "session_async_connect s host service handler = on_socket (\<lambda>sock. async_connect sock host service handler) s"

definition session_handshake ::
  "'x asio \<Rightarrow> ('u, 'm, 'x) session \<Rightarrow> handshake_type \<Rightarrow> bool \<times> ('u, 'm, 'x) session" where
  "session_handshake a s t = (let (ok, sock) = handshake a (session_socket s) t in (ok, s\<lparr>session_socket := sock\<rparr>))"

definition session_async_handshake ::
  "('u, 'm, 'x) session \<Rightarrow> handshake_type \<Rightarrow> ('u, 'm) callback \<Rightarrow> ('u, 'm, 'x) session_result" where
  "session_async_handshake s t handler = on_socket (\<lambda>sock. async_handshake sock t handler) s"

definition on_error :: "'x asio \<Rightarrow> ('u, 'm, 'x) session \<Rightarrow> ('u, 'm, 'x) session_result" where
  "on_error a s = (if session_managed s then (s, [On_error, Remove_session])
      else let (s, effs) = session_stop a s in (s, On_error # effs))"

definition parse_header :: "('b, 'o) fb_lib \<Rightarrow> byte list \<Rightarrow> (u8 \<times> size_t \<times> bool) option" where
  "parse_header fb header =
     (if \<not> is_valid (MessageHeader_table fb) header then None
      else let message_header = deserialise (MessageHeader_table fb) header
           in Some (type_of message_header, unat (body_size_of message_header), is_system_of message_header))"

definition read_frame_size :: "('u, 'm, 'x) session \<Rightarrow> ('u, 'm, 'x) session_result" where
  "read_frame_size s = on_socket (\<lambda>sock. async_read sock 8 (Read_done After_frame_size)) s"

definition session_start :: "('u, 'm, 'x) session \<Rightarrow> ('u, 'm, 'x) session_result" where
  "session_start s = read_frame_size s"

definition read_header :: "'x asio \<Rightarrow> size_t \<Rightarrow> ('u, 'm, 'x) session \<Rightarrow> size_t \<Rightarrow> ('u, 'm, 'x) session_result" where
  "read_header a lim s header_size =
     (let max_size = max_message_size (session_socket s) in
      if max_size \<noteq> 0 \<and> header_size > max_size then on_error a s
      else if header_size > lim then (s, [Throws Bad_alloc])
      else on_socket (\<lambda>sock. async_read sock header_size (Read_done After_header)) s)"

definition read_body ::
  "'x asio \<Rightarrow> size_t \<Rightarrow> ('u, 'm, 'x) session \<Rightarrow> u8 \<Rightarrow> size_t \<Rightarrow> bool \<Rightarrow> ('u, 'm, 'x) session_result" where
  "read_body a lim s mid body_size is_system =
     (let max_size = max_message_size (session_socket s) in
      if max_size \<noteq> 0 \<and> body_size > max_size then on_error a s
      else if body_size > lim then (s, [Throws Bad_alloc])
      else on_socket (\<lambda>sock. async_read sock body_size (Read_done (After_body mid is_system))) s)"

definition handle_sys_message ::
  "platform \<Rightarrow> ('b, 'o) fb_lib \<Rightarrow> ('u, 'm, 'x) session \<Rightarrow> u8 \<Rightarrow> byte list \<Rightarrow> ('u, 'm, 'x) session_result" where
  "handle_sys_message p fb s mid body =
     (if mid = MessageId_HbPing
      then on_socket (\<lambda>sock. async_send_forget (erased_write Sent) p fb (CreateHbPongRequest fb) True sock
                               MessageId_HbPong ()) s
      else (s, []))"

text \<open>The three lambdas. \<open>data\<close> is the buffer that the read filled.\<close>

fun run_cont ::
  "('u, 'm, 'x) message_handler \<Rightarrow> 'x asio \<Rightarrow> platform \<Rightarrow> ('b, 'o) fb_lib \<Rightarrow> size_t \<Rightarrow> session_cont \<Rightarrow> bool \<Rightarrow>
   byte list \<Rightarrow> ('u, 'm, 'x) session \<Rightarrow> ('u, 'm, 'x) session_result" where
  "run_cont handle_message a p fb lim After_frame_size valid data s =
     (if valid then read_header a lim s (unat (from_little p (object_value (native_order p) data)))
      else on_error a s)"
| "run_cont handle_message a p fb lim After_header valid data s =
     (if \<not> valid then on_error a s
      else case parse_header fb data of
             None \<Rightarrow> on_error a s
           | Some (mid, body_size, is_system) \<Rightarrow> read_body a lim s mid body_size is_system)"
| "run_cont handle_message a p fb lim (After_body mid is_system) valid data s =
     (if \<not> valid then on_error a s
      else
        let (s, effs) =
              (if is_system
               then (let (s, effs) = handle_sys_message p fb s mid data in (s, Handle_sys_message mid data # effs))
               else (let (s, effs) = handle_message mid data s in (s, Handle_message mid data # effs)));
            (s, effs') = read_frame_size s
        in (s, effs @ effs'))"

text \<open>Completion of an outstanding read: the socket resets its timers and calls the lambda.\<close>

definition session_read_done ::
  "('u, 'm, 'x) message_handler \<Rightarrow> 'x asio \<Rightarrow> platform \<Rightarrow> ('b, 'o) fb_lib \<Rightarrow> size_t \<Rightarrow> session_cont \<Rightarrow> bool \<Rightarrow>
   byte list \<Rightarrow> ('u, 'm, 'x) session \<Rightarrow> ('u, 'm, 'x) session_result" where
  "session_read_done handle_message a p fb lim k error data s =
     (let (s, effs) = on_socket (\<lambda>sock. on_read_done sock error (Read_done k)) s;
          (s, effs') = run_cont handle_message a p fb lim k (\<not> error) data s
      in (s, effs @ effs'))"

end
