(* ===== verification/Session_Run.thy ===== *)
theory Session_Run
  imports Session
begin

text \<open>
  A session under every interleaving of its read completions with timers, writes and failures, and
  its refinement of the reference decoder: whatever way the bytes of the peer arrive, the session
  hands over exactly the frames of the byte stream, in order.
\<close>

section \<open>The reference: decoding a whole stream\<close>

datatype stream_status = Awaiting | Rejected | Unallocatable

function decode_stream ::
  "('b, 'o) fb_lib \<Rightarrow> size_t \<Rightarrow> size_t \<Rightarrow> byte list \<Rightarrow> (u8 \<times> bool \<times> byte list) list \<times> stream_status" where
  "decode_stream fb lim cap bs =
     (case decode_frame fb lim cap bs of
        Frame mid sys b rest \<Rightarrow>
          (let (ms, st) = decode_stream fb lim cap rest in ((mid, sys, b) # ms, st))
      | Incomplete \<Rightarrow> ([], Awaiting)
      | Refused \<Rightarrow> ([], Rejected)
      | Alloc_failure \<Rightarrow> ([], Unallocatable))"
  by pat_completeness auto
termination
  by (relation "measure (\<lambda>(fb, lim, cap, bs). length bs)") (auto dest: decode_frame_consumes)

declare decode_stream.simps [simp del]

section \<open>The machine\<close>

fun read_of :: "('u, 'm) session_effect \<Rightarrow> (nat \<times> session_cont) list" where
  "read_of (Socket_call (Async_read_start n (Read_done k))) = [(n, k)]"
| "read_of _ = []"

fun handled_of :: "('u, 'm) session_effect \<Rightarrow> (u8 \<times> bool \<times> byte list) list" where
  "handled_of (Handle_message mid b) = [(mid, False, b)]"
| "handled_of (Handle_sys_message mid b) = [(mid, True, b)]"
| "handled_of _ = []"

definition reads_of :: "('u, 'm) session_effect list \<Rightarrow> (nat \<times> session_cont) list" where
  "reads_of effs = concat (map read_of effs)"

definition handled :: "('u, 'm) session_effect list \<Rightarrow> (u8 \<times> bool \<times> byte list) list" where
  "handled effs = concat (map handled_of effs)"

lemma trace_simps [simp]:
  "reads_of [] = []" "reads_of (e # es) = read_of e @ reads_of es" "reads_of (xs @ ys) = reads_of xs @ reads_of ys"
  "handled [] = []" "handled (e # es) = handled_of e @ handled es" "handled (xs @ ys) = handled xs @ handled ys"
  by (simp_all add: reads_of_def handled_def)

text \<open>
  The outstanding reads, the effects so far, and two ghosts: the bytes that successful reads have
  taken from the connection, and whether a read has failed.
\<close>

record ('u, 'm, 'x) session_run =
  run_session :: "('u, 'm, 'x) session"
  run_reads :: "(nat \<times> session_cont) list"
  run_trace :: "('u, 'm) session_effect list"
  run_input :: "byte list"
  run_failed :: bool

definition run_start :: "('u, 'm, 'x) session \<Rightarrow> ('u, 'm, 'x) session_run" where
  "run_start s =
     (let (s', effs) = session_start s
      in \<lparr>run_session = s', run_reads = reads_of effs, run_trace = effs, run_input = [], run_failed = False\<rparr>)"

definition advance ::
  "('u, 'm, 'x) session_run \<Rightarrow> ('u, 'm, 'x) session_result \<Rightarrow> ('u, 'm, 'x) session_run" where
  "advance r res =
     r\<lparr>run_session := fst res, run_reads := run_reads r @ reads_of (snd res), run_trace := run_trace r @ snd res\<rparr>"

text \<open>An outstanding read completes with its buffer filled, or fails; or the socket runs a timer or a
  write, or the program requests a write.\<close>

inductive session_step ::
  "('u, 'm, 'x) message_handler \<Rightarrow> 'x asio \<Rightarrow> platform \<Rightarrow> ('b, 'o) fb_lib \<Rightarrow> size_t \<Rightarrow>
   ('u, 'm, 'x) session_run \<Rightarrow> ('u, 'm, 'x) session_run \<Rightarrow> bool"
  for handle_message a p fb lim where
  read_ok: "(n, k) \<in> set (run_reads r) \<Longrightarrow> length data = n \<Longrightarrow>
    session_step handle_message a p fb lim r
      (advance (r\<lparr>run_reads := remove1 (n, k) (run_reads r), run_input := run_input r @ data\<rparr>)
        (session_read_done handle_message a p fb lim k False data (run_session r)))"
| read_fails: "(n, k) \<in> set (run_reads r) \<Longrightarrow> length data = n \<Longrightarrow>
    session_step handle_message a p fb lim r
      (advance (r\<lparr>run_reads := remove1 (n, k) (run_reads r), run_failed := True\<rparr>)
        (session_read_done handle_message a p fb lim k True data (run_session r)))"
| heartbeat: "session_step handle_message a p fb lim r
    (advance r (on_socket (\<lambda>s. on_heartbeat_timer Sent a p fb s ec) (run_session r)))"
| idle: "session_step handle_message a p fb lim r
    (advance r (on_socket (\<lambda>s. on_idle_timer a s ec) (run_session r)))"
| write_request: "session_step handle_message a p fb lim r
    (advance r (on_socket (\<lambda>s. async_write2 s head body (map_option Sent h)) (run_session r)))"
| write_done: "session_step handle_message a p fb lim r
    (advance r (on_socket (\<lambda>s. on_write_done (\<lambda>h ok s. (s, [Call h ok])) s error) (run_session r)))"

text \<open>What the session relies on in the user's \<^verbatim>\<open>handle_message\<close>: it does not read from the session's
  socket itself, change the size cap, leave its manager or report an error of its own.\<close>

fun user_effect :: "('u, 'm) session_effect \<Rightarrow> bool" where
  "user_effect (Socket_call c) = (\<forall>n h. c \<noteq> Async_read_start n h)"
| "user_effect _ = False"

definition handler_ok :: "('u, 'm, 'x) message_handler \<Rightarrow> bool" where
  "handler_ok handle_message \<longleftrightarrow>
     (\<forall>mid b s s' effs. handle_message mid b s = (s', effs) \<longrightarrow>
        max_message_size (session_socket s') = max_message_size (session_socket s) \<and>
        session_managed s' = session_managed s \<and> list_all user_effect effs)"

section \<open>The invariant\<close>

definition size_ok :: "size_t \<Rightarrow> size_t \<Rightarrow> nat \<Rightarrow> bool" where
  "size_ok lim cap n \<longleftrightarrow> \<not> (cap \<noteq> 0 \<and> cap < n) \<and> n \<le> lim"

text \<open>What the session has of the current frame while a read is outstanding.\<close>

fun phase_ok :: "('b, 'o) fb_lib \<Rightarrow> size_t \<Rightarrow> size_t \<Rightarrow> nat \<Rightarrow> session_cont \<Rightarrow> byte list \<Rightarrow> bool" where
  "phase_ok fb lim cap n After_frame_size part \<longleftrightarrow> n = 8 \<and> part = []"
| "phase_ok fb lim cap n After_header part \<longleftrightarrow>
     length part = 8 \<and> n = unat (le_value part :: u64) \<and> size_ok lim cap n"
| "phase_ok fb lim cap n (After_body mid sys) part \<longleftrightarrow>
     (let h = drop 8 part in
      8 \<le> length part \<and> length h = unat (le_value (take 8 part) :: u64) \<and> size_ok lim cap (length h) \<and>
      parse_header fb h = Some (mid, n, sys) \<and> size_ok lim cap n)"

definition frames_done ::
  "('b, 'o) fb_lib \<Rightarrow> size_t \<Rightarrow> size_t \<Rightarrow> byte list \<Rightarrow> (u8 \<times> bool \<times> byte list) list \<Rightarrow> bool" where
  "frames_done fb lim cap bs ms \<longleftrightarrow>
     (\<forall>rest. decode_stream fb lim cap (bs @ rest) =
        (ms @ fst (decode_stream fb lim cap rest), snd (decode_stream fb lim cap rest)))"

text \<open>
  The bytes so far are complete frames, which have been handed over, and a part of one more frame of
  which a read of \<open>n\<close> bytes is the next piece.
\<close>

definition mid_frame ::
  "('b, 'o) fb_lib \<Rightarrow> size_t \<Rightarrow> size_t \<Rightarrow> nat \<Rightarrow> session_cont \<Rightarrow> byte list \<Rightarrow> (u8 \<times> bool \<times> byte list) list \<Rightarrow> bool" where
  "mid_frame fb lim cap n k bs ms \<longleftrightarrow>
     (\<exists>pre part. bs = pre @ part \<and> frames_done fb lim cap pre ms \<and> phase_ok fb lim cap n k part)"

definition no_error :: "('u, 'm) session_effect list \<Rightarrow> bool" where
  "no_error effs \<longleftrightarrow> On_error \<notin> set effs \<and> Remove_session \<notin> set effs \<and> (\<forall>e. Throws e \<notin> set effs)"

definition session_inv :: "('b, 'o) fb_lib \<Rightarrow> size_t \<Rightarrow> size_t \<Rightarrow> ('u, 'm, 'x) session_run \<Rightarrow> bool" where
  "session_inv fb lim cap r \<longleftrightarrow>
     max_message_size (session_socket (run_session r)) = cap \<and>
     (case run_reads r of
        [] \<Rightarrow> (if run_failed r then \<exists>n k. mid_frame fb lim cap n k (run_input r) (handled (run_trace r))
               else decode_stream fb lim cap (run_input r) = (handled (run_trace r), Rejected)) \<and>
              On_error \<in> set (run_trace r) \<and> (\<forall>e. Throws e \<notin> set (run_trace r))
            \<or> \<not> run_failed r \<and> decode_stream fb lim cap (run_input r) = (handled (run_trace r), Unallocatable) \<and>
              Throws Bad_alloc \<in> set (run_trace r)
      | [(n, k)] \<Rightarrow> \<not> run_failed r \<and> no_error (run_trace r) \<and> mid_frame fb lim cap n k (run_input r) (handled (run_trace r))
      | _ \<Rightarrow> False)"

section \<open>What the operations of the socket leave alone\<close>

definition quiet :: "('h, 'x) tcp_socket \<Rightarrow> ('h, 'x) tcp_socket \<times> 'h asio_call list \<Rightarrow> bool" where
  "quiet s res \<longleftrightarrow> max_message_size (fst res) = max_message_size s \<and> (\<forall>n h. Async_read_start n h \<notin> set (snd res))"

named_theorems quiet_ops

lemma quiet_close [quiet_ops]: "quiet s (close_socket a s)" "quiet s (close_lowest_layer a s)"
  by (auto simp: quiet_def close_socket_def close_lowest_layer_def)

lemma quiet_activity [quiet_ops]: "quiet s (reset_activity_timers s)"
  by (auto simp: quiet_def tcp_timer_defs Let_def)

lemma quiet_read_done [quiet_ops]: "quiet s (on_read_done s error h)"
  using quiet_activity [of s] by (auto simp: quiet_def on_read_done_def Let_def split: prod.splits)

lemma quiet_write [quiet_ops]: "quiet s (async_write2 s head body h)"
  by (auto simp: quiet_def async_write2_def async_write_locked_def write_next_def call_handler_def
      split: list.splits option.splits)

lemma quiet_send [quiet_ops]: "quiet s (async_send_forget (erased_write wrap) p fb create_fn sys s mid args)"
  by (simp add: async_send_forget_def async_send_buffer_def erased_write_def Let_def quiet_write)

lemma quiet_heartbeat [quiet_ops]: "quiet s (on_heartbeat_timer wrap a p fb s ec)"
  using quiet_send [of s wrap p fb "CreateHbPingRequest fb" True MessageId_HbPing "()"] quiet_close(2) [of s a]
  by (auto simp: quiet_def on_heartbeat_timer_def arm_heartbeat_def through_timer_def Let_def split: prod.splits)

lemma quiet_idle [quiet_ops]: "quiet s (on_idle_timer a s ec)"
  using quiet_close(2) [of s a] by (auto simp: on_idle_timer_def quiet_def)

lemma quiet_write_done [quiet_ops]: "quiet s (on_write_done (\<lambda>h ok s. (s, [Call h ok])) s error)"
  by (cases "write_queue s")
     (auto simp: quiet_def on_write_done_def write_done_locked_def write_next_def Let_def
      split: option.splits list.splits prod.splits)

text \<open>Effects that neither start a read, nor hand over a message, nor report an error.\<close>

definition silent :: "('u, 'm, 'x) session \<Rightarrow> ('u, 'm, 'x) session_result \<Rightarrow> bool" where
  "silent s res \<longleftrightarrow> max_message_size (session_socket (fst res)) = max_message_size (session_socket s) \<and>
     session_managed (fst res) = session_managed s \<and> list_all user_effect (snd res)"

lemma silent_on_socket: "quiet (session_socket s) (f (session_socket s)) \<Longrightarrow> silent s (on_socket f s)"
  by (auto simp: silent_def quiet_def on_socket_def list_all_iff split: prod.splits)

lemma read_of_call: "\<forall>n h. c \<noteq> Async_read_start n h \<Longrightarrow> read_of (Socket_call c) = []"
  by (cases c) auto

lemma user_effect_simps:
  "user_effect e \<Longrightarrow> read_of e = [] \<and> handled_of e = [] \<and> e \<noteq> On_error \<and> e \<noteq> Remove_session \<and> e \<noteq> Throws x"
  by (cases e) (auto simp: read_of_call)

lemma user_effects_simps:
  assumes "list_all user_effect effs"
  shows "reads_of effs = []" and "handled effs = []" and "no_error effs"
  using assms by (auto simp: list_all_iff no_error_def reads_of_def handled_def dest: user_effect_simps)

lemma silent_simps:
  assumes "silent s res"
  shows "max_message_size (session_socket (fst res)) = max_message_size (session_socket s)"
    and "session_managed (fst res) = session_managed s"
    and "reads_of (snd res) = []" and "handled (snd res) = []" and "no_error (snd res)"
  using assms user_effects_simps [of "snd res"] by (auto simp: silent_def)

lemma no_error_throws [simp]: "no_error effs \<Longrightarrow> Throws e \<notin> set effs"
  by (simp add: no_error_def)

lemma no_error_append [simp]: "no_error (xs @ ys) \<longleftrightarrow> no_error xs \<and> no_error ys"
  by (auto simp: no_error_def)

text \<open>An error report: nothing is read any more.\<close>

definition reports :: "('u, 'm, 'x) session \<Rightarrow> ('u, 'm, 'x) session_result \<Rightarrow> bool" where
  "reports s res \<longleftrightarrow> max_message_size (session_socket (fst res)) = max_message_size (session_socket s) \<and>
     reads_of (snd res) = [] \<and> handled (snd res) = [] \<and> On_error \<in> set (snd res) \<and> (\<forall>e. Throws e \<notin> set (snd res)) \<and>
     session_managed (fst res) = session_managed s \<and> (session_managed s \<longrightarrow> Remove_session \<in> set (snd res))"

lemma reports_on_error: "reports s (on_error a s)"
proof -
  have "silent s (session_stop a s)"
    unfolding session_stop_def by (intro silent_on_socket quiet_ops)
  from silent_simps [OF this] show ?thesis
    by (auto simp: reports_def on_error_def no_error_def Let_def split: prod.splits)
qed

text \<open>Starting one read.\<close>

definition starts :: "nat \<Rightarrow> session_cont \<Rightarrow> ('u, 'm, 'x) session \<Rightarrow> ('u, 'm, 'x) session_result \<Rightarrow> bool" where
  "starts n k s res \<longleftrightarrow> max_message_size (session_socket (fst res)) = max_message_size (session_socket s) \<and>
     reads_of (snd res) = [(n, k)] \<and> handled (snd res) = [] \<and> no_error (snd res) \<and>
     session_managed (fst res) = session_managed s"

lemma starts_async_read: "starts n k s (on_socket (\<lambda>sock. async_read sock n (Read_done k)) s)"
  by (simp add: starts_def on_socket_def async_read_def no_error_def)

lemma starts_read_frame_size: "starts 8 After_frame_size s (read_frame_size s)"
  unfolding read_frame_size_def by (rule starts_async_read)

definition gives_up :: "('u, 'm, 'x) session \<Rightarrow> ('u, 'm, 'x) session_result \<Rightarrow> bool" where
  "gives_up s res \<longleftrightarrow> max_message_size (session_socket (fst res)) = max_message_size (session_socket s) \<and>
     reads_of (snd res) = [] \<and> handled (snd res) = [] \<and> Throws Bad_alloc \<in> set (snd res) \<and>
     session_managed (fst res) = session_managed s"

text \<open>A complete frame is handed over and the next frame is awaited.\<close>

definition hands_over ::
  "u8 \<Rightarrow> bool \<Rightarrow> byte list \<Rightarrow> ('u, 'm, 'x) session \<Rightarrow> ('u, 'm, 'x) session_result \<Rightarrow> bool" where
  "hands_over mid sys b s res \<longleftrightarrow> max_message_size (session_socket (fst res)) = max_message_size (session_socket s) \<and>
     reads_of (snd res) = [(8, After_frame_size)] \<and> handled (snd res) = [(mid, sys, b)] \<and> no_error (snd res) \<and>
     session_managed (fst res) = session_managed s"

lemmas result_defs = reports_def starts_def gives_up_def hands_over_def

text \<open>The size checks of \<^verbatim>\<open>read_header\<close> and \<^verbatim>\<open>read_body\<close>.\<close>

definition checked_read ::
  "size_t \<Rightarrow> nat \<Rightarrow> session_cont \<Rightarrow> ('u, 'm, 'x) session \<Rightarrow> ('u, 'm, 'x) session_result \<Rightarrow> bool" where
  "checked_read lim n k s res =
     (let cap = max_message_size (session_socket s) in
      if cap \<noteq> 0 \<and> cap < n then reports s res else if lim < n then gives_up s res else starts n k s res)"

lemma checked_read_header: "checked_read lim n After_header s (read_header a lim s n)"
  using reports_on_error [of s a]
  by (simp add: checked_read_def read_header_def Let_def starts_async_read gives_up_def)

lemma checked_read_body: "checked_read lim n (After_body mid sys) s (read_body a lim s mid n sys)"
  using reports_on_error [of s a]
  by (simp add: checked_read_def read_body_def Let_def starts_async_read gives_up_def)

section \<open>What each completion does\<close>

lemma silent_handle_sys: "silent s (handle_sys_message p fb s mid b)"
proof (cases "mid = MessageId_HbPing")
  case True
  then show ?thesis
    by (simp add: handle_sys_message_def silent_on_socket quiet_send)
next
  case False
  then show ?thesis by (simp add: handle_sys_message_def silent_def)
qed

lemma silent_handler: "handler_ok hm \<Longrightarrow> silent s (hm mid b s)"
  by (cases "hm mid b s") (auto simp: handler_ok_def silent_def)

lemma run_cont_error: "reports s (run_cont hm a p fb lim k False data s)"
  by (cases k) (simp_all add: reports_on_error)

lemma run_cont_frame_size:
  assumes "boost_endian_ok p" and "length data = 8"
  shows "checked_read lim (unat (le_value data :: u64)) After_header s
    (run_cont hm a p fb lim After_frame_size True data s)"
  by (simp add: from_little_object_value [OF assms] checked_read_header)

lemma run_cont_header:
  "case parse_header fb data of
     None \<Rightarrow> reports s (run_cont hm a p fb lim After_header True data s)
   | Some (mid, n, sys) \<Rightarrow>
       checked_read lim n (After_body mid sys) s (run_cont hm a p fb lim After_header True data s)"
  by (auto simp: reports_on_error checked_read_body split: option.splits)

lemma run_cont_body:
  assumes "handler_ok hm"
  shows "hands_over mid sys data s (run_cont hm a p fb lim (After_body mid sys) True data s)"
proof -
  define mid_res where "mid_res = (if sys then handle_sys_message p fb s mid data else hm mid data s)"
  have quiet: "silent s mid_res"
    by (simp add: mid_res_def silent_handle_sys silent_handler [OF assms])
  let ?next = "read_frame_size (fst mid_res)"
  have "run_cont hm a p fb lim (After_body mid sys) True data s =
      (fst ?next, (if sys then Handle_sys_message mid data else Handle_message mid data) # snd mid_res @ snd ?next)"
    by (simp add: mid_res_def Let_def case_prod_beta)
  with silent_simps [OF quiet] starts_read_frame_size [of "fst mid_res"] show ?thesis
    by (cases sys) (simp_all add: hands_over_def starts_def no_error_def)
qed

declare run_cont.simps [simp del]

text \<open>The timers that the socket resets first do not interfere.\<close>

lemma session_read_done_run_cont:
  obtains s1 pre where "max_message_size (session_socket s1) = max_message_size (session_socket s)"
    and "session_managed s1 = session_managed s" and "list_all user_effect pre"
    and "session_read_done hm a p fb lim k error data s =
      (fst (run_cont hm a p fb lim k (\<not> error) data s1), pre @ snd (run_cont hm a p fb lim k (\<not> error) data s1))"
proof -
  obtain s1 pre where eq: "on_socket (\<lambda>sock. on_read_done sock error (Read_done k)) s = (s1, pre)"
    by fastforce
  moreover have "silent s (on_socket (\<lambda>sock. on_read_done sock error (Read_done k)) s)"
    by (intro silent_on_socket quiet_ops)
  ultimately show thesis
    by (intro that [of s1 pre]) (auto simp: silent_def session_read_done_def Let_def split: prod.splits)
qed

lemma prefix_result:
  assumes "max_message_size (session_socket s1) = max_message_size (session_socket s)"
    and "session_managed s1 = session_managed s" and "list_all user_effect pre"
  shows "reports s1 res \<Longrightarrow> reports s (fst res, pre @ snd res)"
    and "gives_up s1 res \<Longrightarrow> gives_up s (fst res, pre @ snd res)"
    and "starts n k s1 res \<Longrightarrow> starts n k s (fst res, pre @ snd res)"
    and "hands_over mid sys b s1 res \<Longrightarrow> hands_over mid sys b s (fst res, pre @ snd res)"
  using assms user_effects_simps [OF assms(3)] by (simp_all add: result_defs no_error_def)

lemma prefix_checked_read:
  assumes "max_message_size (session_socket s1) = max_message_size (session_socket s)"
    and "session_managed s1 = session_managed s" and "list_all user_effect pre"
    and "checked_read lim n k s1 res"
  shows "checked_read lim n k s (fst res, pre @ snd res)"
  using assms(4) prefix_result(1-3) [OF assms(1-3)] by (auto simp: checked_read_def Let_def assms(1) split: if_splits)

lemma read_done_error: "reports s (session_read_done hm a p fb lim k True data s)"
proof (rule session_read_done_run_cont [of s hm a p fb lim k True data], goal_cases)
  case (1 s1 pre)
  then show ?case using prefix_result(1) [OF 1(1-3) run_cont_error] by simp
qed

lemma read_done_frame_size:
  assumes "boost_endian_ok p" and "length data = 8"
  shows "checked_read lim (unat (le_value data :: u64)) After_header s
    (session_read_done hm a p fb lim After_frame_size False data s)"
proof (rule session_read_done_run_cont [of s hm a p fb lim After_frame_size False data], goal_cases)
  case (1 s1 pre)
  then show ?case using prefix_checked_read [OF 1(1-3) run_cont_frame_size [OF assms]] by simp
qed

lemma read_done_header:
  "case parse_header fb data of
     None \<Rightarrow> reports s (session_read_done hm a p fb lim After_header False data s)
   | Some (mid, n, sys) \<Rightarrow>
       checked_read lim n (After_body mid sys) s (session_read_done hm a p fb lim After_header False data s)"
proof (rule session_read_done_run_cont [of s hm a p fb lim After_header False data], goal_cases)
  case (1 s1 pre)
  then show ?case
    using run_cont_header [where fb = fb and data = data and s = s1] prefix_result(1) [OF 1(1-3)]
      prefix_checked_read [OF 1(1-3)]
    by (auto split: option.splits)
qed

lemma read_done_body:
  assumes "handler_ok hm"
  shows "hands_over mid sys data s (session_read_done hm a p fb lim (After_body mid sys) False data s)"
proof (rule session_read_done_run_cont [of s hm a p fb lim "After_body mid sys" False data], goal_cases)
  case (1 s1 pre)
  then show ?case using prefix_result(4) [OF 1(1-3) run_cont_body [OF assms]] by simp
qed

section \<open>Decoding what has arrived so far\<close>

lemma decode_stream_frame:
  assumes "frames_done fb lim cap pre ms" and "\<And>rest. decode_frame fb lim cap (bs @ rest) = Frame mid sys b rest"
  shows "frames_done fb lim cap (pre @ bs) (ms @ [(mid, sys, b)])"
  unfolding frames_done_def
proof
  fix rest
  have "decode_stream fb lim cap (bs @ rest) =
      ((mid, sys, b) # fst (decode_stream fb lim cap rest), snd (decode_stream fb lim cap rest))"
    by (simp add: decode_stream.simps [of fb lim cap "bs @ rest"] assms(2) Let_def split: prod.split)
  with assms(1) show "decode_stream fb lim cap ((pre @ bs) @ rest) =
      ((ms @ [(mid, sys, b)]) @ fst (decode_stream fb lim cap rest), snd (decode_stream fb lim cap rest))"
    by (simp add: frames_done_def)
qed

lemma decode_stream_end:
  assumes "frames_done fb lim cap pre ms"
  shows "decode_frame fb lim cap part = Incomplete \<Longrightarrow> decode_stream fb lim cap (pre @ part) = (ms, Awaiting)"
    and "decode_frame fb lim cap part = Refused \<Longrightarrow> decode_stream fb lim cap (pre @ part) = (ms, Rejected)"
    and "decode_frame fb lim cap part = Alloc_failure \<Longrightarrow> decode_stream fb lim cap (pre @ part) = (ms, Unallocatable)"
  using assms by (simp_all add: frames_done_def decode_stream.simps [of fb lim cap part])

text \<open>The reference decoder, phase by phase.\<close>

definition size_verdict :: "size_t \<Rightarrow> size_t \<Rightarrow> nat \<Rightarrow> decoded \<Rightarrow> decoded" where
  "size_verdict lim cap n d = (if cap \<noteq> 0 \<and> cap < n then Refused else if lim < n then Alloc_failure else d)"

lemma decode_frame_size:
  assumes "length data = 8" and "\<not> size_ok lim cap (unat (le_value data :: u64))"
  shows "decode_frame fb lim cap data = size_verdict lim cap (unat (le_value data :: u64)) Incomplete"
  using assms by (auto simp: decode_frame_def Let_def size_verdict_def size_ok_def)

lemma decode_header:
  assumes "length part = 8" and "length data = unat (le_value part :: u64)" and "size_ok lim cap (length data)"
  shows "decode_frame fb lim cap (part @ data @ rest) =
    (case parse_header fb data of
       None \<Rightarrow> Refused
     | Some (mid, n, sys) \<Rightarrow> size_verdict lim cap n
         (if length rest < n then Incomplete else Frame mid sys (take n rest) (drop n rest)))"
  using assms by (auto simp: decode_frame_def Let_def size_verdict_def size_ok_def parse_header_def)

lemma decode_body:
  assumes "phase_ok fb lim cap n (After_body mid sys) part"
  shows "decode_frame fb lim cap (part @ rest) =
    (if length rest < n then Incomplete else Frame mid sys (take n rest) (drop n rest))"
proof -
  have "decode_frame fb lim cap (part @ rest) = decode_frame fb lim cap (take 8 part @ drop 8 part @ rest)"
    by (metis append.assoc append_take_drop_id)
  moreover have h: "length (take 8 part) = 8" "length (drop 8 part) = unat (le_value (take 8 part) :: u64)"
    "size_ok lim cap (length (drop 8 part))" "parse_header fb (drop 8 part) = Some (mid, n, sys)" "size_ok lim cap n"
    using assms by (auto simp: Let_def simp del: length_drop)
  moreover have "size_verdict lim cap n d = d" for d
    using h(5) by (auto simp: size_verdict_def size_ok_def)
  ultimately show ?thesis
    by (simp add: decode_header [OF h(1-3)] del: length_drop)
qed

lemma decode_waiting: "phase_ok fb lim cap n k part \<Longrightarrow> 0 < n \<Longrightarrow> decode_frame fb lim cap part = Incomplete"
proof (cases k)
  case (After_body mid sys)
  then show "phase_ok fb lim cap n k part \<Longrightarrow> 0 < n \<Longrightarrow> decode_frame fb lim cap part = Incomplete"
    using decode_body [of fb lim cap n mid sys part "[]"] by (simp del: phase_ok.simps)
qed (auto simp: decode_frame_def size_ok_def)

section \<open>Preservation\<close>

lemma advance_simps [simp]:
  "run_session (advance r res) = fst res" "run_reads (advance r res) = run_reads r @ reads_of (snd res)"
  "run_trace (advance r res) = run_trace r @ snd res" "run_input (advance r res) = run_input r"
  "run_failed (advance r res) = run_failed r"
  by (simp_all add: advance_def)

lemma silent_inv:
  assumes "session_inv fb lim cap r" and "silent (run_session r) res"
  shows "session_inv fb lim cap (advance r res)"
  using assms(1) silent_simps [OF assms(2)]
  by (auto simp: session_inv_def split: list.splits)

lemmas socket_event_inv = silent_inv [OF _ silent_on_socket]

text \<open>An invariant state with an outstanding read, taken apart.\<close>

lemma session_inv_read:
  assumes "session_inv fb lim cap r" and "(n, k) \<in> set (run_reads r)"
  obtains pre part where "run_reads r = [(n, k)]" and "max_message_size (session_socket (run_session r)) = cap"
    and "\<not> run_failed r" and "no_error (run_trace r)" and "run_input r = pre @ part"
    and "frames_done fb lim cap pre (handled (run_trace r))" and "phase_ok fb lim cap n k part"
proof (cases "run_reads r")
  case Nil
  with assms(2) show thesis by simp
next
  case (Cons x xs)
  with assms that show thesis by (cases x; cases xs) (auto simp: session_inv_def mid_frame_def)
qed

lemma session_inv_waiting:
  assumes "session_inv fb lim cap r" and "(n, k) \<in> set (run_reads r)"
  shows "run_reads r = [(n, k)]" and "no_error (run_trace r)"
    and "0 < n \<Longrightarrow> decode_stream fb lim cap (run_input r) = (handled (run_trace r), Awaiting)"
proof -
  have "run_reads r = [(n, k)] \<and> no_error (run_trace r) \<and>
    (0 < n \<longrightarrow> decode_stream fb lim cap (run_input r) = (handled (run_trace r), Awaiting))"
  proof (rule session_inv_read [OF assms], goal_cases)
    case (1 pre part)
    with decode_stream_end(1) [OF 1(6), of part] decode_waiting [OF 1(7)] show ?case by simp
  qed
  then show "run_reads r = [(n, k)]" and "no_error (run_trace r)"
    and "0 < n \<Longrightarrow> decode_stream fb lim cap (run_input r) = (handled (run_trace r), Awaiting)"
    by simp_all
qed

lemma checked_read_inv:
  assumes res: "checked_read lim n k (run_session r) res"
    and r: "max_message_size (session_socket (run_session r)) = cap" "\<not> run_failed r" "no_error (run_trace r)"
      "run_reads r = []" "run_input r = pre @ part" "frames_done fb lim cap pre (handled (run_trace r))"
    and ok: "size_ok lim cap n \<Longrightarrow> phase_ok fb lim cap n k part"
    and bad: "\<not> size_ok lim cap n \<Longrightarrow> decode_frame fb lim cap part = size_verdict lim cap n Incomplete"
  shows "session_inv fb lim cap (advance r res)"
proof -
  consider (refused) "cap \<noteq> 0 \<and> cap < n" | (alloc) "\<not> (cap \<noteq> 0 \<and> cap < n)" "lim < n"
    | (ok) "\<not> (cap \<noteq> 0 \<and> cap < n)" "\<not> lim < n"
    by blast
  then show ?thesis
  proof cases
    case refused
    with bad have "decode_frame fb lim cap part = Refused" by (auto simp: size_ok_def size_verdict_def)
    moreover have "reports (run_session r) res" using refused res r(1) by (simp add: checked_read_def)
    ultimately show ?thesis
      using decode_stream_end(2) [OF r(6)] r by (simp add: session_inv_def reports_def)
  next
    case alloc
    with bad have "decode_frame fb lim cap part = Alloc_failure" by (auto simp: size_ok_def size_verdict_def)
    moreover have "gives_up (run_session r) res" using alloc res r(1) by (auto simp: checked_read_def Let_def)
    ultimately show ?thesis
      using decode_stream_end(3) [OF r(6)] r by (simp add: session_inv_def gives_up_def)
  next
    case ok
    with assms(8) have "phase_ok fb lim cap n k part" by (auto simp: size_ok_def)
    moreover have "starts n k (run_session r) res" using ok res r(1) by (auto simp: checked_read_def Let_def)
    ultimately show ?thesis
      using r by (auto simp: session_inv_def starts_def mid_frame_def)
  qed
qed

lemma read_fails_inv:
  assumes "session_inv fb lim cap r" and "(n, k) \<in> set (run_reads r)"
  shows "session_inv fb lim cap
    (advance (r\<lparr>run_reads := remove1 (n, k) (run_reads r), run_failed := True\<rparr>)
      (session_read_done hm a p fb lim k True data (run_session r)))"
proof (rule session_inv_read [OF assms])
  fix pre part
  assume r: "run_reads r = [(n, k)]" "max_message_size (session_socket (run_session r)) = cap" "no_error (run_trace r)"
    and "run_input r = pre @ part" "frames_done fb lim cap pre (handled (run_trace r))" "phase_ok fb lim cap n k part"
  then have "mid_frame fb lim cap n k (run_input r) (handled (run_trace r))"
    unfolding mid_frame_def by blast
  with r read_done_error [of "run_session r" hm a p fb lim k data] show ?thesis
    by (auto simp: session_inv_def reports_def)
qed

lemma read_ok_inv:
  assumes inv: "session_inv fb lim cap r" and read: "(n, k) \<in> set (run_reads r)" and data: "length data = n"
    and p: "boost_endian_ok p" and hm: "handler_ok hm"
  shows "session_inv fb lim cap
    (advance (r\<lparr>run_reads := remove1 (n, k) (run_reads r), run_input := run_input r @ data\<rparr>)
      (session_read_done hm a p fb lim k False data (run_session r)))"
    (is "session_inv fb lim cap (advance ?r _)")
proof (rule session_inv_read [OF inv read])
  fix pre part
  assume r: "run_reads r = [(n, k)]" "max_message_size (session_socket (run_session r)) = cap"
    "\<not> run_failed r" "no_error (run_trace r)" "run_input r = pre @ part"
    and frames: "frames_done fb lim cap pre (handled (run_trace r))" and phase: "phase_ok fb lim cap n k part"
  have r': "max_message_size (session_socket (run_session ?r)) = cap" "\<not> run_failed ?r"
    "no_error (run_trace ?r)" "run_reads ?r = []" "run_input ?r = pre @ part @ data"
    "frames_done fb lim cap pre (handled (run_trace ?r))"
    using r frames by simp_all
  show ?thesis
  proof (cases k)
    case After_frame_size
    with phase data have d: "length data = 8" "part = []" by simp_all
    show ?thesis
      by (rule checked_read_inv [OF _ r', where n = "unat (le_value data :: u64)" and k = After_header])
         (use read_done_frame_size [OF p d(1)] d decode_frame_size [OF d(1)] After_frame_size in simp_all)
  next
    case After_header
    with phase data have h: "length part = 8" "length data = unat (le_value part :: u64)" "size_ok lim cap (length data)"
      by auto
    note dec = decode_header [OF h, of fb "[]"]
    show ?thesis
    proof (cases "parse_header fb data")
      case None
      with dec decode_stream_end(2) [OF frames, of "part @ data"] read_done_header [where fb = fb and data = data and s = "run_session r" and hm = hm and a = a and p = p and lim = lim]
        r After_header show ?thesis by (simp add: session_inv_def reports_def)
    next
      case (Some x)
      obtain mid m sys where x: "x = (mid, m, sys)" by (cases x)
      show ?thesis
        by (rule checked_read_inv [OF _ r', where n = m and k = "After_body mid sys"])
           (use read_done_header [where fb = fb and data = data and s = "run_session r" and hm = hm and a = a and p = p and lim = lim] Some x After_header h dec in
             \<open>(simp_all add: size_verdict_def size_ok_def)?, auto\<close>)
    qed
  next
    case (After_body mid sys)
    have "decode_frame fb lim cap ((part @ data) @ rest) = Frame mid sys data rest" for rest
      using decode_body [of fb lim cap n mid sys part "data @ rest"] phase data After_body
      by (simp del: phase_ok.simps)
    from decode_stream_frame [OF frames this] read_done_body [OF hm, of mid sys data "run_session r" a p fb lim]
      r After_body show ?thesis
      by (auto simp: session_inv_def hands_over_def mid_frame_def)
  qed
qed

interpretation session_machine: step_invariant "session_step hm a p fb lim" "\<lambda>r. boost_endian_ok p \<and> handler_ok hm \<and> session_inv fb lim cap r"
  for hm a p fb lim cap
proof (unfold_locales, goal_cases)
  case (1 r r')
  from 1(1) show ?case
    by cases (use 1(2) in \<open>auto intro!: read_ok_inv read_fails_inv socket_event_inv quiet_ops\<close>)
qed

lemma run_start_inv: "session_inv fb lim (max_message_size (session_socket s)) (run_start s)"
proof -
  have "frames_done fb lim cap [] []" for cap
    by (simp add: frames_done_def)
  with starts_read_frame_size [of s] show ?thesis
    by (auto simp: run_start_def session_start_def session_inv_def starts_def mid_frame_def split: prod.splits)
qed

lemmas reachable_inv =
  session_machine.run_inv [OF _ conjI [OF _ conjI [OF _ run_start_inv]], THEN conjunct2, THEN conjunct2]

end
