(* ===== verification/Session_Delivery.thy ===== *)
theory Session_Delivery
  imports Session_Run
begin

text \<open>
  What a session promises to its user: every message that a peer frames is delivered once and in
  order, pings are answered, reads are bounded by the cap, and the asynchronous and the blocking
  receive paths agree.
\<close>

section \<open>Streams of framed messages\<close>

definition stream_bytes :: "('b, 'o) fb_lib \<Rightarrow> (u8 \<times> bool \<times> byte list) list \<Rightarrow> byte list" where
  "stream_bytes fb ms = concat (map (\<lambda>(mid, sys, b). frame_bytes fb mid sys b) ms)"

definition all_fit :: "('b, 'o) fb_lib \<Rightarrow> size_t \<Rightarrow> size_t \<Rightarrow> (u8 \<times> bool \<times> byte list) list \<Rightarrow> bool" where
  "all_fit fb lim cap ms = list_all (\<lambda>(mid, sys, b). fits fb lim cap mid sys b) ms"

lemma stream_bytes_simps [simp]:
  "stream_bytes fb [] = []" "stream_bytes fb ((mid, sys, b) # ms) = frame_bytes fb mid sys b @ stream_bytes fb ms"
  "stream_bytes fb (ms @ ms') = stream_bytes fb ms @ stream_bytes fb ms'"
  by (simp_all add: stream_bytes_def)

lemma all_fit_simps [simp]:
  "all_fit fb lim cap []" "all_fit fb lim cap ((mid, sys, b) # ms) \<longleftrightarrow> fits fb lim cap mid sys b \<and> all_fit fb lim cap ms"
  by (simp_all add: all_fit_def)

lemma decode_stream_Nil [simp]: "decode_stream fb lim cap [] = ([], Awaiting)"
  by (simp add: decode_stream.simps decode_frame_def)

lemma decode_stream_bytes:
  assumes "flatbuffers_ok fb" and "all_fit fb lim cap ms"
  shows "decode_stream fb lim cap (stream_bytes fb ms) = (ms, Awaiting)"
  using assms(2)
proof (induction ms)
  case Nil
  then show ?case by simp
next
  case (Cons m ms)
  obtain mid sys b where m: "m = (mid, sys, b)" by (cases m)
  with Cons have "decode_frame fb lim cap (frame_bytes fb mid sys b @ stream_bytes fb ms) =
      Frame mid sys b (stream_bytes fb ms)"
    by (intro decode_frame_bytes [OF assms(1)]) simp
  with Cons m show ?case
    by (simp add: decode_stream.simps [of fb lim cap "frame_bytes fb mid sys b @ stream_bytes fb ms"])
qed

lemma decode_stream_allocatable:
  assumes "cap \<noteq> 0" and "cap \<le> lim"
  shows "snd (decode_stream fb lim cap bs) \<noteq> Unallocatable"
proof (induction bs rule: length_induct)
  case (1 bs)
  show ?case
  proof (cases "decode_frame fb lim cap bs")
    case (Frame mid sys b rest)
    then have "length rest < length bs" using decode_frame_consumes by fastforce
    with 1 have "snd (decode_stream fb lim cap rest) \<noteq> Unallocatable" by blast
    with Frame show ?thesis
      by (auto simp: decode_stream.simps [of fb lim cap bs] split: prod.split)
  next
    case Alloc_failure
    with decode_frame_no_alloc_failure assms show ?thesis by blast
  qed (simp_all add: decode_stream.simps [of fb lim cap bs])
qed

text \<open>The blocking receive returns the first application frame of the stream.\<close>

lemma first_message_decode_stream:
  assumes "filter (\<lambda>(mid, sys, b). \<not> sys) (fst (decode_stream fb lim cap bs)) = (mid, sys, b) # ms"
  shows "\<exists>rest. first_message fb lim cap bs = Return (Some (mid, b, rest))"
  using assms
proof (induction "length bs" arbitrary: bs rule: less_induct)
  case less
  show ?case
  proof (cases "decode_frame fb lim cap bs")
    case (Frame i sy c rest)
    with decode_frame_consumes [OF Frame] less.hyps [of rest] less.prems show ?thesis
      by (cases sy) (auto simp: decode_stream.simps [of fb lim cap bs] first_message.simps [of fb lim cap bs]
          Let_def split: prod.splits)
  qed (use less.prems in \<open>simp_all add: decode_stream.simps [of fb lim cap bs]\<close>)
qed

section \<open>What has been handed over in the middle of a frame\<close>

lemma mid_frame_decoded:
  assumes "mid_frame fb lim cap n k bs ms"
  shows "\<exists>pre part. bs = pre @ part \<and> phase_ok fb lim cap n k part \<and> decode_stream fb lim cap pre = (ms, Awaiting)"
proof -
  obtain pre part where "bs = pre @ part" "frames_done fb lim cap pre ms" "phase_ok fb lim cap n k part"
    using assms by (auto simp: mid_frame_def)
  moreover from this(2) have "decode_stream fb lim cap pre = (ms, Awaiting)"
    unfolding frames_done_def by (drule_tac x = "[]" in spec) simp
  ultimately show ?thesis by blast
qed

lemma mid_frame_empty_body:
  assumes "mid_frame fb lim cap 0 (After_body mid sys) bs ms"
  shows "decode_stream fb lim cap bs = (ms @ [(mid, sys, [])], Awaiting)"
proof -
  obtain pre part where bs: "bs = pre @ part" and frames: "frames_done fb lim cap pre ms"
    and phase: "phase_ok fb lim cap 0 (After_body mid sys) part"
    using assms by (auto simp: mid_frame_def)
  have "decode_frame fb lim cap (part @ rest) = Frame mid sys [] rest" for rest
    using decode_body [OF phase, of rest] by simp
  from decode_stream_frame [OF frames this] show ?thesis
    unfolding frames_done_def bs by (drule_tac x = "[]" in spec) simp
qed

section \<open>Progress: a frame that arrives is received\<close>

text \<open>A session between two frames.\<close>

definition between_frames :: "size_t \<Rightarrow> ('u, 'm, 'x) session_run \<Rightarrow> bool" where
  "between_frames cap r \<longleftrightarrow> run_reads r = [(8, After_frame_size)] \<and> no_error (run_trace r) \<and> \<not> run_failed r \<and>
     max_message_size (session_socket (run_session r)) = cap"

text \<open>A read that starts the next one, as a step of the machine.\<close>

definition after_read ::
  "('u, 'm, 'x) message_handler \<Rightarrow> 'x asio \<Rightarrow> platform \<Rightarrow> ('b, 'o) fb_lib \<Rightarrow> size_t \<Rightarrow> session_cont \<Rightarrow> byte list \<Rightarrow>
   ('u, 'm, 'x) session_run \<Rightarrow> ('u, 'm, 'x) session_run" where
  "after_read hm a p fb lim k data r =
     advance (r\<lparr>run_reads := remove1 (length data, k) (run_reads r), run_input := run_input r @ data\<rparr>)
       (session_read_done hm a p fb lim k False data (run_session r))"

lemma after_read_step:
  "run_reads r = [(length data, k)] \<Longrightarrow> session_step hm a p fb lim r (after_read hm a p fb lim k data r)"
  unfolding after_read_def by (rule read_ok) simp_all

lemma after_read_simps:
  assumes "run_reads r = [(length data, k)]"
  shows "run_reads (after_read hm a p fb lim k data r) =
      reads_of (snd (session_read_done hm a p fb lim k False data (run_session r)))"
    and "run_trace (after_read hm a p fb lim k data r) =
      run_trace r @ snd (session_read_done hm a p fb lim k False data (run_session r))"
    and "run_input (after_read hm a p fb lim k data r) = run_input r @ data"
    and "run_failed (after_read hm a p fb lim k data r) = run_failed r"
    and "run_session (after_read hm a p fb lim k data r) =
      fst (session_read_done hm a p fb lim k False data (run_session r))"
  using assms by (simp_all add: after_read_def)

lemma after_read_starts:
  assumes "run_reads r = [(length data, k)]" and "no_error (run_trace r)"
    and "starts n k' (run_session r) (session_read_done hm a p fb lim k False data (run_session r))"
  shows "run_reads (after_read hm a p fb lim k data r) = [(n, k')]"
    and "no_error (run_trace (after_read hm a p fb lim k data r))"
    and "handled (run_trace (after_read hm a p fb lim k data r)) = handled (run_trace r)"
    and "max_message_size (session_socket (run_session (after_read hm a p fb lim k data r))) =
      max_message_size (session_socket (run_session r))"
  using assms by (simp_all add: after_read_simps starts_def)

lemma starts_if_checked:
  "checked_read lim n k s res \<Longrightarrow> size_ok lim (max_message_size (session_socket s)) n \<Longrightarrow> starts n k s res"
  by (auto simp: checked_read_def size_ok_def Let_def split: if_splits)

lemma receives_frame:
  assumes fb: "flatbuffers_ok fb" and p: "boost_endian_ok p" and hm: "handler_ok hm"
    and fits: "fits fb lim cap mid sys b" and r: "between_frames cap r"
  obtains r' where "(session_step hm a p fb lim)\<^sup>*\<^sup>* r r'" and "between_frames cap r'"
    and "run_input r' = run_input r @ frame_bytes fb mid sys b"
    and "handled (run_trace r') = handled (run_trace r) @ [(mid, sys, b)]"
proof -
  let ?h = "make_header fb mid (length b) sys"
  let ?d = "le_bytes 8 (of_nat (length ?h) :: u64)"
  let ?r1 = "after_read hm a p fb lim After_frame_size ?d r"
  let ?r2 = "after_read hm a p fb lim After_header ?h ?r1"
  let ?r3 = "after_read hm a p fb lim (After_body mid sys) b ?r2"
  have n: "unat (le_value ?d :: u64) = length ?h" by (simp add: le64.dec_enc unat_header_size [OF fb])
  have ok: "size_ok lim cap (length ?h)" "size_ok lim cap (length b)" and b: "length b < 2 ^ 64"
    using fits by (auto simp: fits_def size_ok_def)
  have parse: "parse_header fb ?h = Some (mid, length b, sys)"
    using b by (simp add: parse_header_def make_header_valid [OF fb] unat_of_nat)
  have r0: "run_reads r = [(length ?d, After_frame_size)]" "no_error (run_trace r)"
    "max_message_size (session_socket (run_session r)) = cap"
    using r by (simp_all add: between_frames_def)
  have "starts (length ?h) After_header (run_session r)
      (session_read_done hm a p fb lim After_frame_size False ?d (run_session r))"
    using read_done_frame_size [OF p, of ?d lim "run_session r" hm a fb] ok(1) r0(3)
    by (simp add: n starts_if_checked)
  note r1 = after_read_starts [OF r0(1,2) this]
  have "starts (length b) (After_body mid sys) (run_session ?r1)
      (session_read_done hm a p fb lim After_header False ?h (run_session ?r1))"
    using read_done_header [where fb = fb and data = ?h and s = "run_session ?r1" and hm = hm and a = a and p = p and lim = lim]
      parse ok(2) r1(4) r0(3) by (simp add: starts_if_checked)
  note r2 = after_read_starts [OF r1(1,2) this]
  note r3 = read_done_body [OF hm, of mid sys b "run_session ?r2" a p fb lim]
  show thesis
  proof (rule that [of ?r3])
    show "(session_step hm a p fb lim)\<^sup>*\<^sup>* r ?r3"
      using after_read_step [OF r0(1)] after_read_step [OF r1(1)] after_read_step [OF r2(1)]
      by (meson converse_rtranclp_into_rtranclp r_into_rtranclp)
    show "between_frames cap ?r3"
      using r3 r r1 r2 r0 by (simp add: between_frames_def after_read_simps(1,2,4,5) hands_over_def)
    show "run_input ?r3 = run_input r @ frame_bytes fb mid sys b"
      by (simp add: after_read_simps(3) r0 r1 r2 frame_bytes_def Let_def)
    show "handled (run_trace ?r3) = handled (run_trace r) @ [(mid, sys, b)]"
      using r3 r1 r2 by (simp add: after_read_simps(2) hands_over_def)
  qed
qed

lemma receives_stream:
  assumes "flatbuffers_ok fb" and "boost_endian_ok p" and "handler_ok hm" and "all_fit fb lim cap ms"
    and "between_frames cap r"
  shows "\<exists>r'. (session_step hm a p fb lim)\<^sup>*\<^sup>* r r' \<and> between_frames cap r' \<and>
    run_input r' = run_input r @ stream_bytes fb ms \<and> handled (run_trace r') = handled (run_trace r) @ ms"
  using assms(4,5)
proof (induction ms arbitrary: r)
  case Nil
  then show ?case by (intro exI [of _ r]) simp
next
  case (Cons m ms)
  obtain mid sys b where m: "m = (mid, sys, b)" by (cases m)
  with Cons.prems have fits: "fits fb lim cap mid sys b" "all_fit fb lim cap ms" by simp_all
  obtain r1 where r1: "(session_step hm a p fb lim)\<^sup>*\<^sup>* r r1" "between_frames cap r1"
    "run_input r1 = run_input r @ frame_bytes fb mid sys b"
    "handled (run_trace r1) = handled (run_trace r) @ [(mid, sys, b)]"
    using receives_frame [OF assms(1-3) fits(1) Cons.prems(2)] by blast
  from Cons.IH [OF fits(2) r1(2)] r1 m show ?case
    by (auto intro: rtranclp_trans)
qed

lemma between_frames_start: "between_frames (max_message_size (session_socket s)) (run_start s)"
  using starts_read_frame_size [of s]
  by (auto simp: between_frames_def run_start_def session_start_def starts_def split: prod.splits)

lemma run_start_empty: "run_input (run_start s) = []" "handled (run_trace (run_start s)) = []"
  using starts_read_frame_size [of s]
  by (auto simp: run_start_def session_start_def starts_def split: prod.splits)

section \<open>Bounded reads\<close>

definition reads_bounded :: "size_t \<Rightarrow> ('u, 'm, 'x) session_run \<Rightarrow> bool" where
  "reads_bounded cap r \<longleftrightarrow> (\<forall>(n, k) \<in> set (reads_of (run_trace r)). n \<le> max 8 cap)"

lemma outstanding_bounded:
  assumes "session_inv fb lim cap r" and "cap \<noteq> 0" and "(n, k) \<in> set (run_reads r)"
  shows "n \<le> max 8 cap"
proof (rule session_inv_read [OF assms(1,3)])
  fix part
  assume "phase_ok fb lim cap n k part"
  with assms(2) show ?thesis by (cases k) (auto simp: size_ok_def Let_def)
qed

text \<open>A read that a step starts is outstanding after it.\<close>

lemma step_reads:
  "session_step hm a p fb lim r r' \<Longrightarrow>
     \<exists>new. reads_of (run_trace r') = reads_of (run_trace r) @ new \<and> set new \<subseteq> set (run_reads r')"
  by (cases rule: session_step.cases) auto

interpretation session_bounds: step_invariant "session_step hm a p fb lim"
  "\<lambda>r. cap \<noteq> 0 \<and> (boost_endian_ok p \<and> handler_ok hm \<and> session_inv fb lim cap r) \<and> reads_bounded cap r"
  for hm a p fb lim cap
proof (unfold_locales, goal_cases)
  case (1 r r')
  from session_machine.step_inv [OF 1(1)] 1(2)
  have inv: "boost_endian_ok p \<and> handler_ok hm \<and> session_inv fb lim cap r'" by blast
  obtain new where "reads_of (run_trace r') = reads_of (run_trace r) @ new" "set new \<subseteq> set (run_reads r')"
    using step_reads [OF 1(1)] by blast
  with inv 1(2) outstanding_bounded [of fb lim cap r'] show ?case
    by (fastforce simp: reads_bounded_def)
qed

lemma run_reads_bounded:
  assumes "boost_endian_ok p" and "handler_ok hm" and "(session_step hm a p fb lim)\<^sup>*\<^sup>* (run_start s) r"
    and "max_message_size (session_socket s) \<noteq> 0" and "max_message_size (session_socket s) \<le> lim"
  shows "reads_bounded (max_message_size (session_socket s)) r" and "\<forall>e. Throws e \<notin> set (run_trace r)"
proof -
  have "reads_bounded cap (run_start s)" for cap
    using starts_read_frame_size [of s]
    by (auto simp: reads_bounded_def run_start_def session_start_def starts_def split: prod.splits)
  then show "reads_bounded (max_message_size (session_socket s)) r"
    using session_bounds.run_inv [OF assms(3), of "max_message_size (session_socket s)"] assms(1,2,4) run_start_inv
    by blast
  have inv: "session_inv fb lim (max_message_size (session_socket s)) r"
    by (rule reachable_inv [OF assms(3,1,2)])
  show "\<forall>e. Throws e \<notin> set (run_trace r)"
  proof (cases "run_reads r")
    case Nil
    with inv decode_stream_allocatable [OF assms(4,5), of fb "run_input r"] show ?thesis
      by (auto simp: session_inv_def)
  next
    case (Cons x xs)
    then have "(fst x, snd x) \<in> set (run_reads r)" by simp
    from session_inv_waiting(2) [OF inv this] show ?thesis by simp
  qed
qed

section \<open>System messages\<close>

lemma on_read_done_queue:
  "write_queue (fst (on_read_done s error h)) = write_queue s"
  "max_pending_writes (fst (on_read_done s error h)) = max_pending_writes s"
  by (auto simp: on_read_done_def tcp_timer_defs Let_def)

lemma send_queues:
  assumes "boost_endian_ok p" and "max_pending_writes s = 0 \<or> length (write_queue s) < max_pending_writes s"
  obtains w where
    "write_queue (fst (async_send_forget (erased_write wrap) p fb create_fn sys s mid args)) = write_queue s @ [w]"
    and "pw_head w @ pw_body w = frame_bytes fb mid sys (serialise (fb_ops fb) create_fn args)"
  using make_msg_wire [OF assms(1), of fb create_fn sys mid args]
  by (simp add: async_send_forget_def async_send_buffer_def erased_write_def Let_def async_write2_accepts [OF assms(2)])

lemma handle_sys_queue:
  assumes "boost_endian_ok p"
    and "full \<longleftrightarrow> max_pending_writes (session_socket s) \<noteq> 0 \<and>
           max_pending_writes (session_socket s) \<le> length (write_queue (session_socket s))"
  shows "\<exists>ws. write_queue (session_socket (fst (handle_sys_message p fb s mid data))) =
      write_queue (session_socket s) @ ws \<and>
    map (\<lambda>w. pw_head w @ pw_body w) ws = (if mid = MessageId_HbPing \<and> \<not> full then [pong_bytes fb] else [])"
proof (cases "mid = MessageId_HbPing")
  case ping: True
  then have s': "session_socket (fst (handle_sys_message p fb s mid data)) = fst (async_send_forget (erased_write Sent) p fb
      (CreateHbPongRequest fb) True (session_socket s) MessageId_HbPong ())"
    by (simp add: handle_sys_message_def on_socket_def Let_def case_prod_beta)
  show ?thesis
  proof (cases full)
    case True
    with assms(2) ping show ?thesis
      unfolding s' by (simp add: async_send_forget_def async_send_buffer_def erased_write_def async_write2_def
          async_write_locked_def Let_def)
  next
    case False
    with assms(2) have room: "max_pending_writes (session_socket s) = 0 \<or>
        length (write_queue (session_socket s)) < max_pending_writes (session_socket s)" by auto
    obtain w where "write_queue (fst (async_send_forget (erased_write Sent) p fb (CreateHbPongRequest fb) True
        (session_socket s) MessageId_HbPong ())) = write_queue (session_socket s) @ [w]" and "pw_head w @ pw_body w = pong_bytes fb"
      unfolding pong_bytes_def by (rule send_queues [OF assms(1) room])
    with ping False show ?thesis
      unfolding s' by (intro exI [of _ "[w]"]) simp
  qed
next
  case False
  then show ?thesis by (simp add: handle_sys_message_def)
qed

lemma read_done_system_body:
  "reads_of (snd (session_read_done hm a p fb lim (After_body mid True) False data s)) = [(8, After_frame_size)]"
  "no_error (snd (session_read_done hm a p fb lim (After_body mid True) False data s))"
proof -
  have eq: "session_read_done hm a p fb lim (After_body mid True) False data s =
      session_read_done (\<lambda>_ _ s. (s, [])) a p fb lim (After_body mid True) False data s"
    by (simp add: session_read_done_def run_cont.simps)
  have "handler_ok (\<lambda>_ _ s. (s, []))" by (simp add: handler_ok_def)
  from read_done_body [OF this, of mid True data s a p fb lim]
  show "reads_of (snd (session_read_done hm a p fb lim (After_body mid True) False data s)) = [(8, After_frame_size)]"
    "no_error (snd (session_read_done hm a p fb lim (After_body mid True) False data s))"
    unfolding eq by (simp_all add: hands_over_def)
qed

text \<open>A session and a message stream for concrete instances: a ping between two messages.\<close>

definition demo_session :: "(unit, unit, byte list \<times> byte list) session" where
  "demo_session = new_session (set_max_message_size 64 (new_tcp_socket ([], []))) False"

definition demo_handler :: "(unit, unit, byte list \<times> byte list) message_handler" where
  "demo_handler = (\<lambda>mid b s. on_socket (\<lambda>sock. async_write sock b None) s)"

definition demo_stream :: "(u8 \<times> bool \<times> byte list) list" where
  "demo_stream = [(7, False, [1, 2]), (0, True, [4]), (9, False, [])]"

lemma demo_handler_ok: "handler_ok demo_handler"
proof -
  have "silent s (demo_handler mid b s)" for mid b s
    unfolding demo_handler_def async_write_def by (intro silent_on_socket quiet_ops)
  then show ?thesis unfolding handler_ok_def silent_def by (metis fst_conv snd_conv)
qed

lemma demo_cap [simp]: "max_message_size (session_socket demo_session) = 64"
  by (simp add: demo_session_def new_session_def set_max_message_size_def)

lemma demo_fits: "all_fit flat_fb 100 (max_message_size (session_socket demo_session)) demo_stream"
  by (simp add: demo_stream_def fits_flat_fb)

lemma demo_run:
  obtains r where "(session_step demo_handler pipe_asio little_platform flat_fb 100)\<^sup>*\<^sup>* (run_start demo_session) r"
    and "run_input r = stream_bytes flat_fb demo_stream" and "run_reads r = [(8, After_frame_size)]"
    and "\<not> run_failed r" and "handled (run_trace r) = demo_stream"
  using receives_stream [OF flatbuffers_ok_flat_fb boost_endian_ok_little demo_handler_ok demo_fits between_frames_start,
      of pipe_asio]
  by (auto simp: run_start_empty between_frames_def)

section \<open>Properties\<close>

text \<open>C2: under every interleaving of read completions, timers and writes, a session keeps exactly one read
  outstanding until it stops, and what it has handed over are exactly the frames that the reference
  decoder finds in the bytes received so far, in order: while a read is outstanding, and also after a
  failed read, the bytes are those frames and the part of one more frame that the read continues. If
  the read lacks bytes, the decoder awaits more; if it is the read of an empty body, the only frame
  not handed over yet is the one with that body. Without a failed read the session stops only on a
  frame that the decoder refuses (an error is reported) or a size that cannot be allocated (an
  exception).\<close>

theorem session_refines_decoder:
  assumes "boost_endian_ok p" and "handler_ok hm" and "(session_step hm a p fb lim)\<^sup>*\<^sup>* (run_start s) r"
    and "cap = max_message_size (session_socket s)"
  shows "case run_reads r of
      [] \<Rightarrow> (if run_failed r
             then \<exists>pre part n k. run_input r = pre @ part \<and> phase_ok fb lim cap n k part \<and>
               decode_stream fb lim cap pre = (handled (run_trace r), Awaiting)
             else decode_stream fb lim cap (run_input r) = (handled (run_trace r), Rejected)) \<and>
            On_error \<in> set (run_trace r) \<and> (\<forall>e. Throws e \<notin> set (run_trace r))
          \<or> \<not> run_failed r \<and> decode_stream fb lim cap (run_input r) = (handled (run_trace r), Unallocatable) \<and>
            Throws Bad_alloc \<in> set (run_trace r)
    | [(n, k)] \<Rightarrow> \<not> run_failed r \<and> no_error (run_trace r) \<and>
          (\<exists>pre part. run_input r = pre @ part \<and> phase_ok fb lim cap n k part \<and>
             decode_stream fb lim cap pre = (handled (run_trace r), Awaiting)) \<and>
          (0 < n \<longrightarrow> decode_stream fb lim cap (run_input r) = (handled (run_trace r), Awaiting)) \<and>
          (\<forall>mid sys. n = 0 \<and> k = After_body mid sys \<longrightarrow>
             decode_stream fb lim cap (run_input r) = (handled (run_trace r) @ [(mid, sys, [])], Awaiting))
    | _ \<Rightarrow> False"
proof -
  have inv: "session_inv fb lim cap r"
    using reachable_inv [OF assms(3,1,2)] assms(4) by simp
  show ?thesis
  proof (cases "run_reads r")
    case Nil
    have "\<exists>pre part n k. run_input r = pre @ part \<and> phase_ok fb lim cap n k part \<and>
        decode_stream fb lim cap pre = (handled (run_trace r), Awaiting)" if failed: "run_failed r"
    proof -
      obtain n k where "mid_frame fb lim cap n k (run_input r) (handled (run_trace r))"
        using inv Nil failed by (auto simp: session_inv_def)
      from mid_frame_decoded [OF this] show ?thesis by blast
    qed
    with inv Nil show ?thesis by (cases "run_failed r") (simp_all add: session_inv_def)
  next
    case (Cons x xs)
    obtain n k where x: "x = (n, k)" by (cases x)
    with Cons have "(n, k) \<in> set (run_reads r)" by simp
    note waiting = session_inv_waiting [OF inv this]
    with inv have "mid_frame fb lim cap n k (run_input r) (handled (run_trace r))" "\<not> run_failed r"
      by (simp_all add: session_inv_def)
    with waiting mid_frame_decoded [OF this(1)] mid_frame_empty_body show ?thesis by auto
  qed
qed

theorem session_refines_decoder_witness:
  "\<exists>r. run_input (r :: (unit, unit, byte list \<times> byte list) session_run) = stream_bytes flat_fb demo_stream \<and>
     decode_stream flat_fb 100 64 (run_input r) = (handled (run_trace r), Awaiting)"
proof (rule demo_run)
  fix r
  assume r: "(session_step demo_handler pipe_asio little_platform flat_fb 100)\<^sup>*\<^sup>* (run_start demo_session) r"
    "run_input r = stream_bytes flat_fb demo_stream" "run_reads r = [(8, After_frame_size)]"
  from session_refines_decoder [OF boost_endian_ok_little demo_handler_ok r(1) refl] r(2,3) show ?thesis
    by (intro exI [of _ r]) simp
qed

text \<open>C3: messages are delivered exactly once and in order: however the bytes of a sequence of framed
  messages were split into reads and interleaved with timers and writes, a session that has received
  them all, and has no read of an empty buffer left to complete, has handed over exactly these
  messages and reported no error.\<close>

theorem session_delivers_in_order:
  assumes "flatbuffers_ok fb" and "boost_endian_ok p" and "handler_ok hm"
    and "(session_step hm a p fb lim)\<^sup>*\<^sup>* (run_start s) r"
    and "all_fit fb lim (max_message_size (session_socket s)) ms"
    and "run_input r = stream_bytes fb ms" and "\<not> run_failed r"
  shows "no_error (run_trace r) \<and>
    (\<exists>n k. run_reads r = [(n, k)] \<and> (0 < n \<longrightarrow> handled (run_trace r) = ms))"
proof -
  have inv: "session_inv fb lim (max_message_size (session_socket s)) r"
    by (rule reachable_inv [OF assms(4,2,3)])
  have dec: "decode_stream fb lim (max_message_size (session_socket s)) (run_input r) = (ms, Awaiting)"
    using decode_stream_bytes [OF assms(1,5)] assms(6) by simp
  have "run_reads r \<noteq> []"
    using inv dec assms(7) by (auto simp: session_inv_def)
  then obtain n k where "(n, k) \<in> set (run_reads r)" by (cases "run_reads r") auto
  from session_inv_waiting [OF inv this] dec show ?thesis by simp
qed

theorem session_delivers_in_order_witness:
  "\<exists>r. (session_step demo_handler pipe_asio little_platform flat_fb 100)\<^sup>*\<^sup>* (run_start demo_session) r \<and>
     no_error (run_trace r) \<and> handled (run_trace r) = [(7, False, [1, 2]), (0, True, [4]), (9, False, [])]"
proof (rule demo_run)
  fix r
  assume r: "(session_step demo_handler pipe_asio little_platform flat_fb 100)\<^sup>*\<^sup>* (run_start demo_session) r"
    "run_input r = stream_bytes flat_fb demo_stream" "run_reads r = [(8, After_frame_size)]" "\<not> run_failed r"
  from session_delivers_in_order [OF flatbuffers_ok_flat_fb boost_endian_ok_little demo_handler_ok r(1) demo_fits r(2,4)]
    r show ?thesis by (auto simp: demo_stream_def)
qed

text \<open>C18: and it can always do so: from the start, every sequence of framed messages within the limits has a
  run in which the session reads all its bytes, hands over all the messages and is ready for the
  next frame.\<close>

theorem session_receives_all:
  assumes "flatbuffers_ok fb" and "boost_endian_ok p" and "handler_ok hm"
    and "all_fit fb lim (max_message_size (session_socket s)) ms"
  shows "\<exists>r. (session_step hm a p fb lim)\<^sup>*\<^sup>* (run_start s) r \<and> run_input r = stream_bytes fb ms \<and>
    handled (run_trace r) = ms \<and> run_reads r = [(8, After_frame_size)] \<and> no_error (run_trace r) \<and> \<not> run_failed r"
  using receives_stream [OF assms between_frames_start] by (auto simp: run_start_empty between_frames_def)

theorem session_receives_all_witness:
  "\<exists>r. (session_step demo_handler pipe_asio little_platform flat_fb 100)\<^sup>*\<^sup>* (run_start demo_session) r \<and>
     run_input r = stream_bytes flat_fb demo_stream \<and> handled (run_trace r) = demo_stream \<and>
     run_reads r = [(8, After_frame_size)]"
  using session_receives_all [OF flatbuffers_ok_flat_fb boost_endian_ok_little demo_handler_ok demo_fits,
      where a = pipe_asio] by auto

text \<open>C19: with a cap that can be allocated, no bytes of the peer make a session read more than the cap into
  one buffer (eight bytes for the frame size) or raise an exception.\<close>

theorem session_reads_bounded:
  assumes "boost_endian_ok p" and "handler_ok hm" and "(session_step hm a p fb lim)\<^sup>*\<^sup>* (run_start s) r"
    and "max_message_size (session_socket s) \<noteq> 0" and "max_message_size (session_socket s) \<le> lim"
  shows "(\<forall>(n, k) \<in> set (reads_of (run_trace r)). n \<le> max 8 (max_message_size (session_socket s))) \<and>
    (\<forall>e. Throws e \<notin> set (run_trace r))"
  using run_reads_bounded [OF assms] by (simp add: reads_bounded_def)

theorem session_reads_bounded_witness:
  "\<exists>r. run_input r = stream_bytes flat_fb demo_stream \<and>
     (\<forall>(n, k) \<in> set (reads_of (run_trace (r :: (unit, unit, byte list \<times> byte list) session_run))). n \<le> 64) \<and>
     (\<forall>e. Throws e \<notin> set (run_trace r))"
proof (rule demo_run)
  fix r
  assume r: "(session_step demo_handler pipe_asio little_platform flat_fb 100)\<^sup>*\<^sup>* (run_start demo_session) r"
    "run_input r = stream_bytes flat_fb demo_stream"
  from session_reads_bounded [OF boost_endian_ok_little demo_handler_ok r(1)] r(2) show ?thesis
    by (intro exI [of _ r]) simp
qed

text \<open>C16: the two receive paths agree: the first application message that a session hands over is the one
  that the blocking \<^verbatim>\<open>recv_buffer\<close> returns for the same inbound bytes and the same cap.\<close>

theorem async_and_blocking_receive_agree:
  assumes "asio_stream_ok a inbound outbound" and "boost_endian_ok p" and "handler_ok hm"
    and "(session_step hm a p fb lim)\<^sup>*\<^sup>* (run_start s) r" and "run_reads r = [(n, k)]" and "0 < n"
    and "inbound (tcp_stream sock) = run_input r" and "max_message_size sock = max_message_size (session_socket s)"
    and "filter (\<lambda>(mid, sys, b). \<not> sys) (handled (run_trace r)) = (mid, sys, b) # ms"
  shows "\<exists>sock'. recv_buffer (tcp_ops a) p fb lim sock body = Some (Return (Some mid), b, sock')"
proof -
  let ?cap = "max_message_size (session_socket s)"
  have inv: "session_inv fb lim ?cap r"
    by (rule reachable_inv [OF assms(4,2,3)])
  have "(n, k) \<in> set (run_reads r)" by (simp add: assms(5))
  then have "decode_stream fb lim ?cap (run_input r) = (handled (run_trace r), Awaiting)"
    by (rule session_inv_waiting(3) [OF inv _ assms(6)])
  with first_message_decode_stream [of fb lim ?cap "run_input r" mid sys b ms] assms(9)
  obtain rest where "first_message fb lim ?cap (run_input r) = Return (Some (mid, b, rest))" by auto
  moreover have "op_max_message_size (tcp_ops a) sock = ?cap" by (simp add: tcp_ops_def assms(8))
  ultimately show ?thesis
    using stream_socket.recv_loop_first_message [OF tcp_stream_socket [OF assms(1)] assms(2) refl TrueI,
        of fb lim ?cap sock body]
    by (auto simp: recv_matches_def recv_buffer_def assms(7))
qed

theorem async_and_blocking_receive_agree_witness:
  "\<exists>sock'. recv_buffer (tcp_ops pipe_asio) little_platform flat_fb 100
     (set_max_message_size 64 (new_tcp_socket (stream_bytes flat_fb demo_stream, [])) :: (nat, _) tcp_socket) [] =
     Some (Return (Some 7), [1, 2], sock')"
proof (rule demo_run)
  fix r
  assume r: "(session_step demo_handler pipe_asio little_platform flat_fb 100)\<^sup>*\<^sup>* (run_start demo_session) r"
    "run_input r = stream_bytes flat_fb demo_stream" "run_reads r = [(8, After_frame_size)]"
    "handled (run_trace r) = demo_stream"
  show ?thesis
    by (rule async_and_blocking_receive_agree [OF asio_stream_ok_pipe boost_endian_ok_little demo_handler_ok r(1,3),
          where sys = False and ms = "[(9, False, [])]"])
       (simp_all add: r(2,4) demo_stream_def set_max_message_size_def new_tcp_socket_def)
qed

text \<open>C35: a ping frame is answered if there is room: completing its body queues exactly one pong frame behind
  the writes already pending, unless the queue has reached its limit; then the pong is dropped and the
  queue stays as it is. Any other system message changes nothing in the queue. In every case the
  session goes on to the next frame and reports no error.\<close>

theorem session_answers_ping:
  assumes "boost_endian_ok p"
    and "session_read_done hm a p fb lim (After_body mid True) False data s = (s', effs)"
    and "full \<longleftrightarrow> max_pending_writes (session_socket s) \<noteq> 0 \<and>
           max_pending_writes (session_socket s) \<le> length (write_queue (session_socket s))"
  shows "reads_of effs = [(8, After_frame_size)] \<and> no_error effs \<and>
    (\<exists>ws. write_queue (session_socket s') = write_queue (session_socket s) @ ws \<and>
       map (\<lambda>w. pw_head w @ pw_body w) ws = (if mid = MessageId_HbPing \<and> \<not> full then [pong_bytes fb] else []))"
proof -
  let ?s1 = "fst (on_socket (\<lambda>sock. on_read_done sock False (Read_done (After_body mid True))) s)"
  have s1: "write_queue (session_socket ?s1) = write_queue (session_socket s)"
    "max_pending_writes (session_socket ?s1) = max_pending_writes (session_socket s)"
    by (simp_all add: on_socket_def on_read_done_queue Let_def case_prod_beta)
  have "session_socket s' = session_socket (fst (handle_sys_message p fb ?s1 mid data))"
    using assms(2)
    by (auto simp: session_read_done_def run_cont.simps read_frame_size_def on_socket_def async_read_def Let_def
        split: prod.splits)
  moreover have "reads_of effs = [(8, After_frame_size)]" "no_error effs"
    using assms(2) read_done_system_body by (metis snd_conv)+
  ultimately show ?thesis
    using handle_sys_queue [OF assms(1), of full ?s1 fb mid data] assms(3) by (simp add: s1)
qed

theorem session_answers_ping_witness:
  "(\<exists>w. write_queue (session_socket (fst (session_read_done demo_handler pipe_asio big_platform flat_fb 100
          (After_body 0 True) False [4] demo_session))) = [w] \<and> pw_head w @ pw_body w = pong_bytes flat_fb) \<and>
   (let s = demo_session\<lparr>session_socket := set_max_pending_writes 1 (fst (async_write (session_socket demo_session) [1] None))\<rparr>
    in length (write_queue (session_socket s)) = 1 \<and>
       write_queue (session_socket (fst (session_read_done demo_handler pipe_asio big_platform flat_fb 100
          (After_body 0 True) False [4] s))) = write_queue (session_socket s))"
proof -
  let ?s = "demo_session\<lparr>session_socket := set_max_pending_writes 1 (fst (async_write (session_socket demo_session) [1] None))\<rparr>"
  note defs = demo_session_def new_session_def set_max_message_size_def new_tcp_socket_def default_max_pending_writes_def
    set_max_pending_writes_def async_write_def async_write2_def async_write_locked_def write_next_def
  have "write_queue (session_socket demo_session) = []" "max_pending_writes (session_socket demo_session) = 0"
    "length (write_queue (session_socket ?s)) = 1" "max_pending_writes (session_socket ?s) = 1"
    by (simp_all add: defs)
  with session_answers_ping [OF boost_endian_ok_big prod.collapse [symmetric] refl, where hm = demo_handler and
      a = pipe_asio and fb = flat_fb and lim = 100 and mid = 0 and data = "[4]" and s = demo_session]
    session_answers_ping [OF boost_endian_ok_big prod.collapse [symmetric] refl, where hm = demo_handler and
      a = pipe_asio and fb = flat_fb and lim = 100 and mid = 0 and data = "[4]" and s = ?s]
  show ?thesis by (auto simp: MessageId_HbPing_def map_eq_Cons_conv Let_def)
qed

end
