(* ===== verification/Lifetime.thy ===== *)
theory Lifetime
  imports Session_Delivery
begin

text \<open>
  Who keeps a session alive. A \<^verbatim>\<open>sl::session\<close> lives as long as some \<^verbatim>\<open>std::shared_ptr\<close> refers to it: the
  manager's \<^verbatim>\<open>sessions_\<close>, copies that the program holds, the \<^verbatim>\<open>self\<close> that the lambdas of its own reads
  captured (\<^verbatim>\<open>session.cpp\<close>), and handlers of queued writes that captured one. The completion
  handlers that \<^verbatim>\<open>boost_tcp_socket\<close> passes to Asio (\<^verbatim>\<open>socket.cpp\<close>) capture only the raw \<^verbatim>\<open>this\<close>.
  The machine of \<open>Session_Run\<close> is extended with the asynchronous operations that are pending besides
  reads, with the owners, with the destruction of the object when the last owner goes, and with a
  flag that records a handler that used the object after that.
\<close>

section \<open>Pending operations and owners\<close>

text \<open>
  A wait on a timer completes with success once the timer has expired, and with
  \<^verbatim>\<open>operation_aborted\<close> when \<^verbatim>\<open>expires_after\<close>, \<^verbatim>\<open>cancel\<close> or the timer's destructor came first. A wait
  that has expired but whose handler has not run yet can no longer be cancelled.
\<close>

datatype wait_status = Armed | Expired | Cancelled

record ('u, 'm, 'x) life =
  life_run :: "('u, 'm, 'x) session_run"
  life_writes :: nat
  life_waits :: "(timer_id \<times> wait_status) list"
  life_registered :: bool
  life_users :: nat
  life_alive :: bool
  life_uaf :: bool

abbreviation life_session :: "('u, 'm, 'x) life \<Rightarrow> ('u, 'm, 'x) session" where
  "life_session l \<equiv> run_session (life_run l)"

abbreviation life_reads :: "('u, 'm, 'x) life \<Rightarrow> (nat \<times> session_cont) list" where
  "life_reads l \<equiv> run_reads (life_run l)"

fun abort_status :: "wait_status \<Rightarrow> wait_status" where
  "abort_status Armed = Cancelled"
| "abort_status st = st"

definition abort_waits :: "(timer_id \<Rightarrow> bool) \<Rightarrow> (timer_id \<times> wait_status) list \<Rightarrow> (timer_id \<times> wait_status) list" where
  "abort_waits which ws = map (\<lambda>(t, st). (t, if which t then abort_status st else st)) ws"

text \<open>What a call of Asio adds to, or aborts among, the pending operations. Reads are kept by the run.\<close>

fun track_call :: "'h asio_call \<Rightarrow> nat \<times> (timer_id \<times> wait_status) list \<Rightarrow> nat \<times> (timer_id \<times> wait_status) list" where
  "track_call (Expires_after t d) (n, ws) = (n, abort_waits (\<lambda>u. u = t) ws)"
| "track_call (Cancel_timer t) (n, ws) = (n, abort_waits (\<lambda>u. u = t) ws)"
| "track_call (Async_wait t) (n, ws) = (n, ws @ [(t, Armed)])"
| "track_call (Async_write_start head body) (n, ws) = (n + 1, ws)"
| "track_call _ (n, ws) = (n, ws)"

fun track_effect ::
  "('u, 'm) session_effect \<Rightarrow> nat \<times> (timer_id \<times> wait_status) list \<Rightarrow> nat \<times> (timer_id \<times> wait_status) list" where
  "track_effect (Socket_call c) ops = track_call c ops"
| "track_effect _ ops = ops"

definition track_effects ::
  "('u, 'm) session_effect list \<Rightarrow> nat \<times> (timer_id \<times> wait_status) list \<Rightarrow> nat \<times> (timer_id \<times> wait_status) list" where
  "track_effects effs ops = fold track_effect effs ops"

text \<open>
  What the lambdas capture. Those of \<^verbatim>\<open>session.cpp\<close> take a \<^verbatim>\<open>shared_ptr\<close> to the session and one to
  their buffer. The completion handlers of \<^verbatim>\<open>socket.cpp\<close> take the raw \<^verbatim>\<open>this\<close>; that of a read also
  holds a copy of the caller's handler, and so what that captured, while the handlers of writes stay
  in the queue.
\<close>

datatype capture = Shared_self | Shared_buffer | Raw_this

fun cont_captures :: "session_cont \<Rightarrow> capture list" where
  "cont_captures After_frame_size = [Shared_self, Shared_buffer]"
| "cont_captures After_header = [Shared_self, Shared_buffer]"
| "cont_captures (After_body mid is_system) = [Shared_self, Shared_buffer]"

definition read_captures :: "session_cont \<Rightarrow> capture list" where
  "read_captures handler = Raw_this # cont_captures handler"

definition write_captures :: "capture list" where
  "write_captures = [Raw_this]"

fun wait_captures :: "timer_id \<Rightarrow> capture list" where
  "wait_captures Idle_timer = [Raw_this]"
| "wait_captures Heartbeat_timer = [Raw_this]"
| "wait_captures Handshake_timer = [Raw_this]"

text \<open>\<open>owns\<close> says which handlers of writes captured a \<^verbatim>\<open>shared_ptr\<close> to the session: the program decides.\<close>

definition handler_owns :: "('h \<Rightarrow> bool) \<Rightarrow> 'h pending_write \<Rightarrow> bool" where
  "handler_owns owns w = (case pw_handler w of None \<Rightarrow> False | Some h \<Rightarrow> owns h)"

text \<open>Some \<^verbatim>\<open>shared_ptr\<close> refers to the session: of the manager, of the program, of a pending operation, or of
  a queued handler.\<close>

definition held :: "(('u, 'm) callback \<Rightarrow> bool) \<Rightarrow> ('u, 'm, 'x) life \<Rightarrow> bool" where
  "held owns l \<longleftrightarrow> life_registered l \<or> life_users l \<noteq> 0 \<or>
     list_ex (\<lambda>(n, k). Shared_self \<in> set (read_captures k)) (life_reads l) \<or>
     life_writes l \<noteq> 0 \<and> Shared_self \<in> set write_captures \<or>
     list_ex (\<lambda>(t, st). Shared_self \<in> set (wait_captures t)) (life_waits l) \<or>
     list_ex (handler_owns owns) (write_queue (session_socket (life_session l)))"

section \<open>Operations\<close>

text \<open>\<^verbatim>\<open>~session\<close> closes the socket, then the members of the socket go, the timers among them.\<close>

definition life_destroy :: "'x asio \<Rightarrow> ('u, 'm, 'x) life \<Rightarrow> ('u, 'm, 'x) life" where
  "life_destroy a l =
     l\<lparr>life_run := advance (life_run l) (session_destroy a (life_session l)),
       life_waits := abort_waits (\<lambda>_. True) (life_waits l), life_alive := False\<rparr>"

definition release :: "(('u, 'm) callback \<Rightarrow> bool) \<Rightarrow> 'x asio \<Rightarrow> ('u, 'm, 'x) life \<Rightarrow> ('u, 'm, 'x) life" where
  "release owns a l = (if life_alive l \<and> \<not> held owns l then life_destroy a l else l)"

text \<open>The effects of a handler that ran on the session; \<^verbatim>\<open>remove_session\<close> takes it out of the registry.\<close>

definition perform ::
  "('u, 'm, 'x) session_run \<Rightarrow> ('u, 'm, 'x) session_result \<Rightarrow> ('u, 'm, 'x) life \<Rightarrow> ('u, 'm, 'x) life" where
  "perform r res l =
     (let (n, ws) = track_effects (snd res) (life_writes l, life_waits l)
      in l\<lparr>life_run := advance r res, life_writes := n, life_waits := ws,
           life_registered := life_registered l \<and> Remove_session \<notin> set (snd res)\<rparr>)"

text \<open>A completion handler that uses the object: on a live object its effects, then the handler and what it
  captured are destroyed; on a dead one a use after free.\<close>

definition complete ::
  "(('u, 'm) callback \<Rightarrow> bool) \<Rightarrow> 'x asio \<Rightarrow> ('u, 'm, 'x) session_run \<Rightarrow> ('u, 'm, 'x) session_result \<Rightarrow>
   ('u, 'm, 'x) life \<Rightarrow> ('u, 'm, 'x) life" where
  "complete owns a r res l = (if life_alive l then release owns a (perform r res l) else l\<lparr>life_run := r, life_uaf := True\<rparr>)"

text \<open>The three lambdas passed to \<^verbatim>\<open>async_wait\<close>.\<close>

fun timer_handler ::
  "'x asio \<Rightarrow> platform \<Rightarrow> ('b, 'o) fb_lib \<Rightarrow> timer_id \<Rightarrow> bool \<Rightarrow> ('u, 'm, 'x) session \<Rightarrow> ('u, 'm, 'x) session_result" where
  "timer_handler a p fb Idle_timer ec s = on_socket (\<lambda>s. on_idle_timer a s ec) s"
| "timer_handler a p fb Heartbeat_timer ec s = on_socket (\<lambda>s. on_heartbeat_timer Sent a p fb s ec) s"
| "timer_handler a p fb Handshake_timer ec s = on_socket (\<lambda>s. on_handshake_timer a s ec) s"

text \<open>After an aborted wait they return at once, whatever the object: only the error code is looked at.\<close>

lemma timer_handler_aborted: "timer_handler a p fb t True s = (s, [])"
  by (cases t) (simp_all add: on_socket_def on_idle_timer_def on_heartbeat_timer_def on_handshake_timer_def)

definition life_start :: "('u, 'm, 'x) session \<Rightarrow> (timer_id \<times> wait_status) list \<Rightarrow> ('u, 'm, 'x) life" where
  "life_start s ws =
     \<lparr>life_run = run_start s, life_writes = of_bool (write_queue (session_socket s) \<noteq> []), life_waits = ws,
      life_registered = True, life_users = 0, life_alive = True, life_uaf = False\<rparr>"

text \<open>
  From the moment when \<^verbatim>\<open>register_and_start\<close> has started the session: a pending operation completes, a
  timer expires, an owner writes, copies or drops its pointer, or the manager forgets the session
  (\<^verbatim>\<open>remove_session\<close>, or \<^verbatim>\<open>stop\<close>, which also closes it).
\<close>

inductive life_step ::
  "(('u, 'm) callback \<Rightarrow> bool) \<Rightarrow> ('u, 'm, 'x) message_handler \<Rightarrow> 'x asio \<Rightarrow> platform \<Rightarrow> ('b, 'o) fb_lib \<Rightarrow> size_t \<Rightarrow>
   ('u, 'm, 'x) life \<Rightarrow> ('u, 'm, 'x) life \<Rightarrow> bool"
  for owns hm a p fb lim where
  read_ok: "(n, k) \<in> set (life_reads l) \<Longrightarrow> length data = n \<Longrightarrow>
    life_step owns hm a p fb lim l
      (complete owns a ((life_run l)\<lparr>run_reads := remove1 (n, k) (life_reads l), run_input := run_input (life_run l) @ data\<rparr>)
        (session_read_done hm a p fb lim k False data (life_session l)) l)"
| read_fails: "(n, k) \<in> set (life_reads l) \<Longrightarrow> length data = n \<Longrightarrow>
    life_step owns hm a p fb lim l
      (complete owns a ((life_run l)\<lparr>run_reads := remove1 (n, k) (life_reads l), run_failed := True\<rparr>)
        (session_read_done hm a p fb lim k True data (life_session l)) l)"
| write_done: "life_writes l \<noteq> 0 \<Longrightarrow>
    life_step owns hm a p fb lim l
      (complete owns a (life_run l)
        (on_socket (\<lambda>s. on_write_done (\<lambda>h ok s. (s, [Call h ok])) s error) (life_session l))
        (l\<lparr>life_writes := life_writes l - 1\<rparr>))"
| wait_expired: "(t, Expired) \<in> set (life_waits l) \<Longrightarrow>
    life_step owns hm a p fb lim l
      (complete owns a (life_run l) (timer_handler a p fb t False (life_session l))
        (l\<lparr>life_waits := remove1 (t, Expired) (life_waits l)\<rparr>))"
| wait_aborted: "(t, Cancelled) \<in> set (life_waits l) \<Longrightarrow>
    life_step owns hm a p fb lim l (l\<lparr>life_waits := remove1 (t, Cancelled) (life_waits l)\<rparr>)"
| timer_expires: "i < length (life_waits l) \<Longrightarrow> life_waits l ! i = (t, Armed) \<Longrightarrow>
    life_step owns hm a p fb lim l (l\<lparr>life_waits := (life_waits l)[i := (t, Expired)]\<rparr>)"
| write_request: "life_registered l \<or> life_users l \<noteq> 0 \<Longrightarrow>
    life_step owns hm a p fb lim l
      (complete owns a (life_run l) (on_socket (\<lambda>s. async_write2 s head body h) (life_session l)) l)"
| user_copies: "life_registered l \<or> life_users l \<noteq> 0 \<Longrightarrow>
    life_step owns hm a p fb lim l (l\<lparr>life_users := life_users l + 1\<rparr>)"
| user_drops: "life_users l \<noteq> 0 \<Longrightarrow>
    life_step owns hm a p fb lim l (release owns a (l\<lparr>life_users := life_users l - 1\<rparr>))"
| removed: "life_registered l \<Longrightarrow>
    life_step owns hm a p fb lim l (release owns a (l\<lparr>life_registered := False\<rparr>))"
| manager_stops: "life_registered l \<Longrightarrow>
    life_step owns hm a p fb lim l
      (release owns a ((perform (life_run l) (session_stop a (life_session l)) l)\<lparr>life_registered := False\<rparr>))"

section \<open>Ownership\<close>

text \<open>So of the pending operations only the reads own the session.\<close>

lemma captures_self [simp]:
  "Shared_self \<in> set (read_captures k)" "Shared_self \<notin> set write_captures" "Shared_self \<notin> set (wait_captures t)"
  by (simp_all add: read_captures_def write_captures_def) ((cases k; simp), (cases t; simp))

lemma held_eq:
  "held owns l \<longleftrightarrow> life_registered l \<or> life_users l \<noteq> 0 \<or> life_reads l \<noteq> [] \<or>
     list_ex (handler_owns owns) (write_queue (session_socket (life_session l)))"
  by (cases "life_reads l") (auto simp: held_def list_ex_iff)

lemma perform_simps [simp]:
  "life_run (perform r res l) = advance r res" "life_users (perform r res l) = life_users l"
  "life_alive (perform r res l) = life_alive l" "life_uaf (perform r res l) = life_uaf l"
  "life_registered (perform r res l) \<longleftrightarrow> life_registered l \<and> Remove_session \<notin> set (snd res)"
  "life_writes (perform r res l) = fst (track_effects (snd res) (life_writes l, life_waits l))"
  "life_waits (perform r res l) = snd (track_effects (snd res) (life_writes l, life_waits l))"
  by (simp_all add: perform_def case_prod_beta)

lemma silent_destroy: "silent s (session_destroy a s)" "silent s (session_stop a s)"
  unfolding session_destroy_def session_stop_def by (intro silent_on_socket quiet_ops)+

lemma destroy_queue [simp]:
  "write_queue (session_socket (fst (session_destroy a s))) = write_queue (session_socket s)"
  by (simp add: session_destroy_def on_socket_def close_socket_def)

lemma life_destroy_simps [simp]:
  "life_reads (life_destroy a l) = life_reads l" "life_writes (life_destroy a l) = life_writes l"
  "life_registered (life_destroy a l) = life_registered l" "life_users (life_destroy a l) = life_users l"
  "life_waits (life_destroy a l) = abort_waits (\<lambda>_. True) (life_waits l)"
  "\<not> life_alive (life_destroy a l)" "life_uaf (life_destroy a l) = life_uaf l"
  "held owns (life_destroy a l) = held owns l"
  by (simp_all add: life_destroy_def held_eq silent_simps(3) [OF silent_destroy(1)])

lemma abort_status_simps [simp]:
  "Armed \<noteq> abort_status st" "Expired = abort_status st \<longleftrightarrow> st = Expired"
  by (cases st; simp)+

lemma abort_waits_armed [simp]: "(t, Armed) \<notin> set (abort_waits (\<lambda>_. True) ws)"
  by (auto simp: abort_waits_def)

lemma abort_waits_expired [simp]: "(t, Expired) \<in> set (abort_waits which ws) \<longleftrightarrow> (t, Expired) \<in> set ws"
  by (force simp: abort_waits_def split: if_splits)

definition ownership :: "(('u, 'm) callback \<Rightarrow> bool) \<Rightarrow> ('u, 'm, 'x) life \<Rightarrow> bool" where
  "ownership owns l \<longleftrightarrow>
     (if life_alive l then held owns l \<and> \<not> life_uaf l else \<not> held owns l \<and> (\<forall>t. (t, Armed) \<notin> set (life_waits l)))"

lemma ownership_alive: "life_alive l \<Longrightarrow> ownership owns l \<longleftrightarrow> held owns l \<and> \<not> life_uaf l"
  by (simp add: ownership_def)

lemma release_ownership: "life_alive l \<Longrightarrow> \<not> life_uaf l \<Longrightarrow> ownership owns (release owns a l)"
  by (simp add: release_def ownership_def)

lemma complete_ownership:
  "life_alive l \<Longrightarrow> \<not> life_uaf l \<Longrightarrow> ownership owns (complete owns a r res l)"
  "\<not> life_alive l \<Longrightarrow> ownership owns l \<Longrightarrow> ownership owns (complete owns a (life_run l) res l)"
  by (simp_all add: complete_def release_ownership) (simp add: ownership_def held_eq)

lemma held_update [simp]:
  "held owns (l\<lparr>life_writes := n\<rparr>) = held owns l" "held owns (l\<lparr>life_waits := ws\<rparr>) = held owns l"
  by (simp_all add: held_eq)

lemma ownership_step: "life_step owns hm a p fb lim l l' \<Longrightarrow> ownership owns l \<Longrightarrow> ownership owns l'"
proof (cases "life_alive l")
  case True
  assume step: "life_step owns hm a p fb lim l l'" and own: "ownership owns l"
  from step True own show "ownership owns l'"
    by cases (simp_all add: ownership_alive complete_ownership(1) release_ownership, simp add: held_eq)
next
  case False
  assume step: "life_step owns hm a p fb lim l l'" and own: "ownership owns l"
  from step False own show "ownership owns l'"
  proof cases
    case write_done
    with False own complete_ownership(2) [of "l\<lparr>life_writes := life_writes l - 1\<rparr>" owns] show ?thesis
      by (simp add: ownership_def)
  next
    case (wait_expired t)
    with False own complete_ownership(2) [of "l\<lparr>life_waits := remove1 (t, Expired) (life_waits l)\<rparr>" owns] show ?thesis
      by (auto simp: ownership_def dest: notin_set_remove1)
  qed (auto simp: ownership_def held_eq dest: notin_set_remove1 nth_mem)
qed

interpretation life_owners: step_invariant "life_step owns hm a p fb lim" "ownership owns"
  for owns hm a p fb lim
  by unfold_locales (rule ownership_step)

lemma life_start_ownership: "ownership owns (life_start s ws)"
  by (simp add: ownership_def held_eq life_start_def)

section \<open>A registered session reads\<close>

definition reading :: "('b, 'o) fb_lib \<Rightarrow> size_t \<Rightarrow> size_t \<Rightarrow> ('u, 'm, 'x) life \<Rightarrow> bool" where
  "reading fb lim cap l \<longleftrightarrow> session_inv fb lim cap (life_run l) \<and> session_managed (life_session l) \<and>
     (life_registered l \<longrightarrow> life_reads l \<noteq> [])"

lemma reading_same:
  "reading fb lim cap l \<Longrightarrow> life_run l' = life_run l \<Longrightarrow> life_registered l' \<longrightarrow> life_registered l \<Longrightarrow>
     reading fb lim cap l'"
  by (simp add: reading_def)

lemma reading_silent:
  assumes "reading fb lim cap l" and "silent (life_session l) res"
    and "life_run l' = advance (life_run l) res" and "life_registered l' \<longrightarrow> life_registered l"
  shows "reading fb lim cap l'"
  using assms silent_inv [OF _ assms(2), of fb lim cap] silent_simps [OF assms(2)] by (simp add: reading_def)

lemma release_reading: "reading fb lim cap l \<Longrightarrow> reading fb lim cap (release owns a l)"
  by (auto simp: release_def life_destroy_def intro: reading_silent [OF _ silent_destroy(1)])

lemma complete_reading:
  assumes "life_alive l \<Longrightarrow> reading fb lim cap (perform r res l)" and "\<not> life_alive l \<Longrightarrow> reading fb lim cap (l\<lparr>life_run := r\<rparr>)"
  shows "reading fb lim cap (complete owns a r res l)"
  using assms by (auto simp: complete_def release_reading) (simp add: reading_def)

lemma complete_silent:
  assumes "reading fb lim cap l" and "silent (life_session l) res" and "life_run l' = life_run l"
    and "life_registered l' = life_registered l"
  shows "reading fb lim cap (complete owns a (life_run l) res l')"
proof (rule complete_reading)
  show "reading fb lim cap (perform (life_run l) res l')"
    by (rule reading_silent [OF assms(1,2)]) (simp_all add: assms(4))
  show "reading fb lim cap (l'\<lparr>life_run := life_run l\<rparr>)"
    using assms(1,4) by (simp add: reading_def)
qed

lemma on_handshake_timer_eq: "on_handshake_timer = on_idle_timer"
  by (simp add: fun_eq_iff on_handshake_timer_def on_idle_timer_def)

lemma silent_timer_handler: "silent s (timer_handler a p fb t ec s)"
  by (cases t) (simp_all add: silent_on_socket quiet_ops on_handshake_timer_eq)

text \<open>A read that completes starts the next one or, with an allocatable cap, removes the session.\<close>

lemma checked_read_continues:
  assumes "checked_read lim n k s res" and "session_managed s"
    and "max_message_size (session_socket s) \<noteq> 0" and "max_message_size (session_socket s) \<le> lim"
  shows "session_managed (fst res) \<and> (reads_of (snd res) = [] \<longrightarrow> Remove_session \<in> set (snd res))"
  using assms by (auto simp: checked_read_def result_defs Let_def split: if_splits)

lemma read_continues:
  assumes "boost_endian_ok p" and "handler_ok hm" and "phase_ok fb lim cap n k part" and "length data = n"
    and "session_managed s" and "max_message_size (session_socket s) = cap" and "cap \<noteq> 0" and "cap \<le> lim"
  shows "session_managed (fst (session_read_done hm a p fb lim k error data s)) \<and>
    (reads_of (snd (session_read_done hm a p fb lim k error data s)) = [] \<longrightarrow>
     Remove_session \<in> set (snd (session_read_done hm a p fb lim k error data s)))"
proof (cases error)
  case True
  then show ?thesis
    using read_done_error [of s hm a p fb lim k data] assms(5) by (simp add: reports_def)
next
  case ok: False
  note go = checked_read_continues [OF _ assms(5)]
  show ?thesis
  proof (cases k)
    case After_frame_size
    with assms(3,4) have "length data = 8" by simp
    from go [OF read_done_frame_size [OF assms(1) this]] After_frame_size ok assms(6-8) show ?thesis by simp
  next
    case After_header
    note header = read_done_header [where fb = fb and data = data and s = s and hm = hm and a = a and p = p and lim = lim]
    show ?thesis
    proof (cases "parse_header fb data")
      case None
      with header After_header ok assms(5) show ?thesis by (simp add: reports_def)
    next
      case (Some x)
      obtain mid m sys where "x = (mid, m, sys)" by (cases x)
      with Some header have "checked_read lim m (After_body mid sys) s
          (session_read_done hm a p fb lim After_header False data s)" by simp
      from go [OF this] After_header ok assms(6-8) show ?thesis by simp
    qed
  next
    case (After_body mid sys)
    with read_done_body [OF assms(2), of mid sys data s a p fb lim] ok assms(5) show ?thesis
      by (simp add: hands_over_def)
  qed
qed

lemma reading_read_step:
  assumes "boost_endian_ok p" and "handler_ok hm" and cap: "cap \<noteq> 0" "cap \<le> lim"
    and l: "reading fb lim cap l" "life_alive l" and read: "(n, k) \<in> set (life_reads l)" "length data = n"
    and r: "session_inv fb lim cap (advance r (session_read_done hm a p fb lim k error data (life_session l)))"
  shows "reading fb lim cap (complete owns a r (session_read_done hm a p fb lim k error data (life_session l)) l)"
proof (rule complete_reading)
  have inv: "session_inv fb lim cap (life_run l)" and managed: "session_managed (life_session l)"
    using l by (simp_all add: reading_def)
  obtain part where "phase_ok fb lim cap n k part" "max_message_size (session_socket (life_session l)) = cap"
    by (rule session_inv_read [OF inv read(1)])
  from read_continues [OF assms(1,2) this(1) read(2) managed this(2) cap] r
  show "reading fb lim cap (perform r (session_read_done hm a p fb lim k error data (life_session l)) l)"
    by (auto simp: reading_def)
qed (use l in simp)

interpretation life_reading: step_invariant "life_step owns hm a p fb lim"
  "\<lambda>l. (boost_endian_ok p \<and> handler_ok hm \<and> cap \<noteq> 0 \<and> cap \<le> lim) \<and> ownership owns l \<and> reading fb lim cap l"
  for owns hm a p fb lim cap
proof (unfold_locales, goal_cases)
  case (1 l l')
  then have env: "boost_endian_ok p" "handler_ok hm" "cap \<noteq> 0" "cap \<le> lim"
    and own: "ownership owns l" and l: "reading fb lim cap l" by simp_all
  have alive: "x \<in> set (life_reads l) \<Longrightarrow> life_alive l" for x
    using own by (auto simp: ownership_def held_eq split: if_splits)
  have inv: "session_inv fb lim cap (life_run l)" using l by (simp add: reading_def)
  from 1(1) have "reading fb lim cap l'"
  proof cases
    case (read_ok n k data)
    from reading_read_step [OF env l alive [OF read_ok(2)] read_ok(2,3) read_ok_inv [OF inv read_ok(2,3) env(1,2)]]
      read_ok(1) show ?thesis by simp
  next
    case (read_fails n k data)
    from reading_read_step [OF env l alive [OF read_fails(2)] read_fails(2,3) read_fails_inv [OF inv read_fails(2)]]
      read_fails(1) show ?thesis by simp
  next
    case (manager_stops)
    then show ?thesis
      by (auto intro!: release_reading reading_silent [OF l silent_destroy(2)])
  qed (auto intro!: complete_silent [OF l] release_reading silent_timer_handler silent_on_socket quiet_ops
        intro: reading_same [OF l])
  with env ownership_step [OF 1(1) own] show ?case by blast
qed

lemma life_start_reading:
  assumes "session_managed s"
  shows "reading fb lim (max_message_size (session_socket s)) (life_start s ws)"
  using run_start_inv [of fb lim s] starts_read_frame_size [of s] assms
  by (simp add: reading_def life_start_def run_start_def session_start_def starts_def case_prod_beta)

section \<open>After the destruction\<close>

text \<open>A dead object with no write in flight and no expired wait: nothing is left that would use it.\<close>

definition at_rest :: "(('u, 'm) callback \<Rightarrow> bool) \<Rightarrow> ('u, 'm, 'x) life \<Rightarrow> bool" where
  "at_rest owns l \<longleftrightarrow> ownership owns l \<and> \<not> life_alive l \<and> life_writes l = 0 \<and>
     (\<forall>t. (t, Expired) \<notin> set (life_waits l)) \<and> \<not> life_uaf l"

interpretation life_rest: step_invariant "life_step owns hm a p fb lim" "at_rest owns"
  for owns hm a p fb lim
proof (unfold_locales, goal_cases)
  case (1 l l')
  then have rest: "\<not> life_alive l" "life_writes l = 0" "\<not> held owns l" "\<not> life_uaf l"
    and waits: "\<And>t. (t, Expired) \<notin> set (life_waits l)" "\<And>t. (t, Armed) \<notin> set (life_waits l)"
    by (simp_all add: at_rest_def ownership_def)
  from 1(1) have "\<not> life_alive l' \<and> life_writes l' = 0 \<and> (\<forall>t. (t, Expired) \<notin> set (life_waits l')) \<and> \<not> life_uaf l'"
  proof cases
    case (timer_expires i t)
    with waits(2) nth_mem [of i "life_waits l"] show ?thesis by auto
  qed (use rest waits in \<open>auto simp: held_eq dest: notin_set_remove1\<close>)
  with ownership_step [OF 1(1)] 1(2) show ?case by (simp add: at_rest_def)
qed

text \<open>The way into it: on a managed session a failed read only reports.\<close>

lemma read_done_error_managed:
  "session_managed s \<Longrightarrow> session_read_done hm a p fb lim k True data s =
     (s, [Socket_call (Call (Read_done k) False), On_error, Remove_session])"
  by (cases k) (simp_all add: session_read_done_def run_cont.simps on_error_def on_socket_def on_read_done_def)

text \<open>The outstanding read fails.\<close>

definition read_failed ::
  "(('u, 'm) callback \<Rightarrow> bool) \<Rightarrow> ('u, 'm, 'x) message_handler \<Rightarrow> 'x asio \<Rightarrow> platform \<Rightarrow> ('b, 'o) fb_lib \<Rightarrow> size_t \<Rightarrow>
   nat \<Rightarrow> session_cont \<Rightarrow> byte list \<Rightarrow> ('u, 'm, 'x) life \<Rightarrow> ('u, 'm, 'x) life" where
  "read_failed owns hm a p fb lim n k data l =
     complete owns a ((life_run l)\<lparr>run_reads := remove1 (n, k) (life_reads l), run_failed := True\<rparr>)
       (session_read_done hm a p fb lim k True data (life_session l)) l"

lemma failed_read_destroys:
  fixes hm :: "('u, 'm, 'x) message_handler"
  assumes "life_alive l" and "life_users l = 0" and "life_reads l = [(n, k)]" and "session_managed (life_session l)"
    and "list_all (\<lambda>w. \<not> handler_owns owns w) (write_queue (session_socket (life_session l)))" and "length data = n"
    and l'_def: "l' = read_failed owns hm a p fb lim n k data l"
  shows "life_step owns hm a p fb lim l l'" and "\<not> life_alive l'" and "life_writes l' = life_writes l"
    and "life_uaf l' = life_uaf l" and "\<forall>t. (t, Expired) \<in> set (life_waits l') \<longleftrightarrow> (t, Expired) \<in> set (life_waits l)"
    and "tcp_stream (session_socket (life_session l')) =
      asio_close a (asio_shutdown a (tcp_stream (session_socket (life_session l))))"
proof -
  let ?res = "(life_session l, [Socket_call (Call (Read_done k) False), On_error, Remove_session]) :: ('u, 'm, 'x) session_result"
  let ?l = "perform ((life_run l)\<lparr>run_reads := remove1 (n, k) (life_reads l), run_failed := True\<rparr>) ?res l"
  have "\<not> held owns ?l"
    using assms(2,3,5) by (auto simp: held_eq list_ex_iff list_all_iff)
  then have eq: "l' = life_destroy a ?l"
    using assms(1) by (simp add: l'_def read_failed_def read_done_error_managed [OF assms(4)] complete_def release_def)
  show "life_step owns hm a p fb lim l l'"
    unfolding l'_def read_failed_def by (rule life_step.read_fails) (simp_all add: assms(3,6))
  show "\<not> life_alive l'" "life_writes l' = life_writes l" "life_uaf l' = life_uaf l"
    "\<forall>t. (t, Expired) \<in> set (life_waits l') \<longleftrightarrow> (t, Expired) \<in> set (life_waits l)"
    "tcp_stream (session_socket (life_session l')) =
      asio_close a (asio_shutdown a (tcp_stream (session_socket (life_session l))))"
    unfolding eq
    by (simp_all add: track_effects_def) (simp add: life_destroy_def session_destroy_def on_socket_def close_socket_def)
qed

lemma at_rest_never_used: "at_rest owns l \<Longrightarrow> (life_step owns hm a p fb lim)\<^sup>*\<^sup>* l l' \<Longrightarrow> \<not> life_uaf l'"
  using life_rest.run_inv [of owns hm a p fb lim l l'] by (simp add: at_rest_def)

lemma failed_read_is_last:
  assumes "ownership owns l" and "life_alive l" and "life_users l = 0" and "life_reads l = [(n, k)]"
    and "session_managed (life_session l)"
    and "list_all (\<lambda>w. \<not> handler_owns owns w) (write_queue (session_socket (life_session l)))" and "length data = n"
    and "life_writes l = 0" and "\<forall>t. (t, Expired) \<notin> set (life_waits l)"
    and "(life_step owns hm a p fb lim)\<^sup>*\<^sup>* (read_failed owns hm a p fb lim n k data l) l''"
  shows "\<not> life_uaf l''"
proof -
  note d = failed_read_destroys [OF assms(2-7) refl, of hm a p fb lim]
  have "\<not> life_uaf l" using assms(1,2) by (simp add: ownership_alive)
  with d ownership_step [OF d(1) assms(1)] assms(8,9) have "at_rest owns (read_failed owns hm a p fb lim n k data l)"
    by (simp add: at_rest_def)
  from at_rest_never_used [OF this assms(10)] show ?thesis .
qed

section \<open>Properties\<close>

text \<open>A managed session of the program, and two of its lives: a write in flight, and a peer that went away.\<close>

definition managed_session_demo :: "(unit, unit, byte list \<times> byte list) session" where
  "managed_session_demo = new_session (set_idle_timeout 5 (set_max_message_size 64 (new_tcp_socket ([], [])))) True"

lemma managed_demo_simps [simp]:
  "session_managed managed_session_demo" "max_message_size (session_socket managed_session_demo) = 64"
  "write_queue (session_socket managed_session_demo) = []" "idle_timeout (session_socket managed_session_demo) = 5"
  by (simp_all add: managed_session_demo_def new_session_def set_max_message_size_def set_idle_timeout_def new_tcp_socket_def)

abbreviation demo_life_step ::
  "(unit, unit, byte list \<times> byte list) life \<Rightarrow> (unit, unit, byte list \<times> byte list) life \<Rightarrow> bool" where
  "demo_life_step \<equiv> life_step (\<lambda>_. False) demo_handler pipe_asio little_platform flat_fb 100"

definition demo_writing :: "(unit, unit, byte list \<times> byte list) life" where
  "demo_writing = complete (\<lambda>_. False) pipe_asio (life_run (life_start managed_session_demo []))
     (on_socket (\<lambda>s. async_write2 s [1] [] None) (life_session (life_start managed_session_demo [])))
     (life_start managed_session_demo [])"

lemma demo_writing_reachable: "demo_life_step\<^sup>*\<^sup>* (life_start managed_session_demo []) demo_writing"
  unfolding demo_writing_def by (intro r_into_rtranclp life_step.write_request) (simp add: life_start_def)

lemma demo_writing_simps [simp]:
  "life_reads demo_writing = [(8, After_frame_size)]" "life_writes demo_writing = 1" "life_users demo_writing = 0"
  "life_registered demo_writing" "life_alive demo_writing" "session_managed (life_session demo_writing)"
  "map pw_handler (write_queue (session_socket (life_session demo_writing))) = [None]"
  by (simp_all add: demo_writing_def complete_def release_def held_eq perform_def track_effects_def life_start_def
      run_start_def session_start_def read_frame_size_def on_socket_def async_read_def async_write2_def
      async_write_locked_def write_next_def managed_session_demo_def new_session_def set_max_message_size_def
      set_idle_timeout_def new_tcp_socket_def default_max_pending_writes_def advance_def)

text \<open>C9: no session leaks. Once the manager has forgotten a managed session with an allocatable cap and
  neither the program nor a handler of a queued write holds it, its own read is all that keeps it
  alive: it is alive exactly while that one read is outstanding, the failure of the read, which closing
  the connection brings about, destroys it and shuts its connection down, and with no write in flight
  and no expired timer it is never used again.\<close>

theorem forgotten_session_destroyed:
  assumes "boost_endian_ok p" and "handler_ok hm" and "session_managed s"
    and "max_message_size (session_socket s) \<noteq> 0" and "max_message_size (session_socket s) \<le> lim"
    and "(life_step owns hm a p fb lim)\<^sup>*\<^sup>* (life_start s ws) l"
    and "\<not> life_registered l" and "life_users l = 0"
    and "list_all (\<lambda>w. \<not> handler_owns owns w) (write_queue (session_socket (life_session l)))"
  shows "(life_alive l \<longleftrightarrow> life_reads l \<noteq> []) \<and>
    (life_alive l \<longrightarrow> (\<exists>n k. life_reads l = [(n, k)] \<and> (\<forall>data. length data = n \<longrightarrow>
       (let l' = read_failed owns hm a p fb lim n k data l
        in life_step owns hm a p fb lim l l' \<and> \<not> life_alive l' \<and>
           tcp_stream (session_socket (life_session l')) =
             asio_close a (asio_shutdown a (tcp_stream (session_socket (life_session l)))) \<and>
           (life_writes l = 0 \<and> (\<forall>t. (t, Expired) \<notin> set (life_waits l)) \<longrightarrow>
             (\<forall>l''. (life_step owns hm a p fb lim)\<^sup>*\<^sup>* l' l'' \<longrightarrow> \<not> life_uaf l''))))))"
proof -
  have own: "ownership owns l" and l: "reading fb lim (max_message_size (session_socket s)) l"
    using life_reading.run_inv [OF assms(6), of "max_message_size (session_socket s)"] assms(1-5)
      life_start_reading [OF assms(3)] life_start_ownership by blast+
  have alive: "life_alive l \<longleftrightarrow> life_reads l \<noteq> []"
    using own assms(7-9) by (auto simp: ownership_def held_eq list_ex_iff list_all_iff split: if_splits)
  show ?thesis
  proof (intro conjI impI alive)
    assume live: "life_alive l"
    with alive obtain n k where "(n, k) \<in> set (life_reads l)" by (cases "life_reads l") auto
    with session_inv_waiting(1) [of fb lim "max_message_size (session_socket s)" "life_run l" n k] l
    have reads: "life_reads l = [(n, k)]" and managed: "session_managed (life_session l)"
      by (simp_all add: reading_def)
    show "\<exists>n k. life_reads l = [(n, k)] \<and> (\<forall>data. length data = n \<longrightarrow>
       (let l' = read_failed owns hm a p fb lim n k data l
        in life_step owns hm a p fb lim l l' \<and> \<not> life_alive l' \<and>
           tcp_stream (session_socket (life_session l')) =
             asio_close a (asio_shutdown a (tcp_stream (session_socket (life_session l)))) \<and>
           (life_writes l = 0 \<and> (\<forall>t. (t, Expired) \<notin> set (life_waits l)) \<longrightarrow>
             (\<forall>l''. (life_step owns hm a p fb lim)\<^sup>*\<^sup>* l' l'' \<longrightarrow> \<not> life_uaf l''))))"
      using reads failed_read_destroys [OF live assms(8) reads managed assms(9) _ refl, of _ hm a p fb lim]
        failed_read_is_last [OF own live assms(8) reads managed assms(9), of _ hm a p fb lim]
      by (intro exI [of _ n] exI [of _ k]) (simp add: Let_def)
  qed
qed

text \<open>The peer of a session that the manager has stopped: the read that is still pending fails.\<close>

definition demo_stopped :: "(unit, unit, byte list \<times> byte list) life" where
  "demo_stopped = release (\<lambda>_. False) pipe_asio ((perform (life_run (life_start managed_session_demo []))
     (session_stop pipe_asio (life_session (life_start managed_session_demo []))) (life_start managed_session_demo []))
     \<lparr>life_registered := False\<rparr>)"

lemma demo_stopped_reachable: "demo_life_step\<^sup>*\<^sup>* (life_start managed_session_demo []) demo_stopped"
  unfolding demo_stopped_def by (intro r_into_rtranclp life_step.manager_stops) (simp add: life_start_def)

lemma demo_stopped_simps:
  "life_reads demo_stopped = [(8, After_frame_size)]" "\<not> life_registered demo_stopped" "life_users demo_stopped = 0"
  "write_queue (session_socket (life_session demo_stopped)) = []"
  by (simp_all add: demo_stopped_def release_def held_eq perform_def track_effects_def life_start_def
      run_start_def session_start_def session_stop_def close_socket_def read_frame_size_def on_socket_def async_read_def
      managed_session_demo_def new_session_def set_max_message_size_def set_idle_timeout_def new_tcp_socket_def advance_def)

theorem forgotten_session_destroyed_witness:
  "life_alive demo_stopped \<and>
   \<not> life_alive (read_failed (\<lambda>_. False) demo_handler pipe_asio little_platform flat_fb 100 8 After_frame_size (replicate 8 0) demo_stopped)"
proof -
  have cap: "max_message_size (session_socket managed_session_demo) \<noteq> 0"
    "max_message_size (session_socket managed_session_demo) \<le> 100" by simp_all
  from forgotten_session_destroyed [OF boost_endian_ok_little demo_handler_ok managed_demo_simps(1) cap
      demo_stopped_reachable demo_stopped_simps(2,3)] demo_stopped_simps(1,4)
  show ?thesis by (auto simp: Let_def)
qed

text \<open>C22: the completion handlers of writes and timers capture the raw \<^verbatim>\<open>this\<close> and own nothing. When the
  connection of a managed session is lost while a write is in flight or a timer has just expired, and
  neither the program nor a handler of a queued write holds the session, the failed read removes and
  destroys the session, and the handler that is still to run uses the destroyed object.\<close>

theorem lost_connection_uses_destroyed_session:
  assumes "(life_step owns hm a p fb lim)\<^sup>*\<^sup>* (life_start s ws) l"
    and "life_reads l = [(n, k)]" and "session_managed (life_session l)" and "life_users l = 0"
    and "list_all (\<lambda>w. \<not> handler_owns owns w) (write_queue (session_socket (life_session l)))"
    and "life_writes l \<noteq> 0 \<or> (\<exists>t. (t, Expired) \<in> set (life_waits l))"
  shows "\<exists>l'. (life_step owns hm a p fb lim)\<^sup>*\<^sup>* l l' \<and> \<not> life_alive l' \<and> life_uaf l'"
proof -
  have "ownership owns l"
    by (rule life_owners.run_inv [OF assms(1) life_start_ownership])
  then have alive: "life_alive l"
    using assms(2) by (auto simp: ownership_def held_eq split: if_splits)
  obtain d where d: "life_step owns hm a p fb lim l d" "\<not> life_alive d" "life_writes d = life_writes l"
    "\<forall>t. (t, Expired) \<in> set (life_waits d) \<longleftrightarrow> (t, Expired) \<in> set (life_waits l)"
    using failed_read_destroys [OF alive assms(4,2,3,5) length_replicate refl, of hm a p fb lim] by blast
  from assms(6) have "\<exists>l'. life_step owns hm a p fb lim d l' \<and> \<not> life_alive l' \<and> life_uaf l'"
  proof
    assume "life_writes l \<noteq> 0"
    with d(3) have "life_writes d \<noteq> 0" by simp
    from life_step.write_done [OF this, of owns hm a p fb lim] d(2) show ?thesis
      by (auto simp: complete_def)
  next
    assume "\<exists>t. (t, Expired) \<in> set (life_waits l)"
    then obtain t where "(t, Expired) \<in> set (life_waits d)" using d(4) by blast
    from life_step.wait_expired [OF this, of owns hm a p fb lim] d(2) show ?thesis
      by (auto simp: complete_def)
  qed
  with d(1) show ?thesis by (meson converse_rtranclp_into_rtranclp r_into_rtranclp)
qed

theorem lost_connection_uses_destroyed_session_witness:
  "\<exists>l. demo_life_step\<^sup>*\<^sup>* demo_writing l \<and> \<not> life_alive l \<and> life_uaf l"
  by (rule lost_connection_uses_destroyed_session [OF demo_writing_reachable demo_writing_simps(1,6,3)])
     (use demo_writing_simps(7) in \<open>auto simp: list_all_iff handler_owns_def split: option.splits\<close>)

text \<open>C13: a managed session with an allocatable cap that is registered always has exactly one read
  outstanding: whatever the peer sends and whichever timers and writes interleave, no session stays
  in the registry without noticing that its connection is gone.\<close>

theorem registered_session_keeps_reading:
  assumes "boost_endian_ok p" and "handler_ok hm" and "session_managed s"
    and "max_message_size (session_socket s) \<noteq> 0" and "max_message_size (session_socket s) \<le> lim"
    and "(life_step owns hm a p fb lim)\<^sup>*\<^sup>* (life_start s ws) l" and "life_registered l"
  shows "\<exists>n k. life_reads l = [(n, k)] \<and> life_alive l \<and> no_error (run_trace (life_run l))"
proof -
  have own: "ownership owns l" and l: "reading fb lim (max_message_size (session_socket s)) l"
    using life_reading.run_inv [OF assms(6), of "max_message_size (session_socket s)"] assms(1-5)
      life_start_reading [OF assms(3)] life_start_ownership by blast+
  then obtain n k where "(n, k) \<in> set (life_reads l)"
    using assms(7) by (cases "life_reads l") (auto simp: reading_def)
  with session_inv_waiting(1,2) [OF _ this, of fb lim "max_message_size (session_socket s)"] own l assms(7) show ?thesis
    by (auto simp: reading_def ownership_def held_eq split: if_splits)
qed

theorem registered_session_keeps_reading_witness:
  "life_reads demo_writing \<noteq> [] \<and> no_error (run_trace (life_run demo_writing))"
proof -
  have cap: "max_message_size (session_socket managed_session_demo) \<noteq> 0"
    "max_message_size (session_socket managed_session_demo) \<le> 100" by simp_all
  show ?thesis
    using registered_session_keeps_reading [OF boost_endian_ok_little demo_handler_ok managed_demo_simps(1) cap
        demo_writing_reachable demo_writing_simps(4)] by auto
qed

end
