(* ===== verification/Data_Races.thy ===== *)
theory Data_Races
  imports Lifetime "HOL-Library.State_Monad"
begin

text \<open>
  What the handlers of a socket touch while they run. The examples run the handlers on a pool of
  threads without a strand, so two handlers that are ready at the same time may run at the same time.
  The functions of \<^verbatim>\<open>socket.cpp\<close> and \<^verbatim>\<open>session.cpp\<close> that a handler runs are given once more, statement by
  statement, as programs of a state monad that records every read and write of a member, every call
  and whether \<^verbatim>\<open>write_mutex_\<close> is held at that moment. Forgetting the record gives back the operations of
  \<open>Tcp_Socket\<close> and \<open>Session\<close>, and the record shows which accesses can collide.
\<close>

section \<open>Recorded programs\<close>

datatype member =
    M_stream | M_idle_timeout | M_heartbeat_timeout | M_heartbeat_sent | M_max_message_size | M_max_pending_writes
  | M_idle_timer | M_heartbeat_timer | M_handshake_timer | M_write_queue

text \<open>The member, whether it is written, and whether \<^verbatim>\<open>write_mutex_\<close> is held.\<close>

record access =
  acc_member :: member
  acc_written :: bool
  acc_locked :: bool

text \<open>\<open>tr_relocked\<close> remembers an attempt to lock the mutex while the thread already holds it, which a
  \<^verbatim>\<open>std::mutex\<close> does not allow; each call is recorded with whether the lock was held.\<close>

record ('h, 'x) traced =
  tr_socket :: "('h, 'x) tcp_socket"
  tr_held :: bool
  tr_relocked :: bool
  tr_accesses :: "access list"
  tr_calls :: "('h asio_call \<times> bool) list"

type_synonym ('h, 'x, 'a) program = "(('h, 'x) traced, 'a) state"

definition begin_trace :: "('h, 'x) tcp_socket \<Rightarrow> ('h, 'x) traced" where
  "begin_trace s = \<lparr>tr_socket = s, tr_held = False, tr_relocked = False, tr_accesses = [], tr_calls = []\<rparr>"

definition touch :: "member \<Rightarrow> bool \<Rightarrow> ('h, 'x, unit) program" where
  "touch m w = State_Monad.update (\<lambda>t. t\<lparr>tr_accesses := tr_accesses t @ [\<lparr>acc_member = m, acc_written = w, acc_locked = tr_held t\<rparr>]\<rparr>)"

definition fetch :: "member \<Rightarrow> (('h, 'x) tcp_socket \<Rightarrow> 'a) \<Rightarrow> ('h, 'x, 'a) program" where
  "fetch m f = do { touch m False; t \<leftarrow> State_Monad.get; State_Monad.return (f (tr_socket t)) }"

definition store :: "member \<Rightarrow> (('h, 'x) tcp_socket \<Rightarrow> ('h, 'x) tcp_socket) \<Rightarrow> ('h, 'x, unit) program" where
  "store m f = do { touch m True; State_Monad.update (\<lambda>t. t\<lparr>tr_socket := f (tr_socket t)\<rparr>) }"

text \<open>\<^verbatim>\<open>const std::lock_guard lock(write_mutex_)\<close> around a block.\<close>

definition lock_guard :: "('h, 'x, 'a) program \<Rightarrow> ('h, 'x, 'a) program" where
  "lock_guard body = do {
     State_Monad.update (\<lambda>t. t\<lparr>tr_held := True, tr_relocked := tr_relocked t \<or> tr_held t\<rparr>);
     x \<leftarrow> body;
     State_Monad.update (\<lambda>t. t\<lparr>tr_held := False\<rparr>);
     State_Monad.return x }"

text \<open>The object that a call of Asio is made on. Asio allows no two threads to use one at a time, so a call
  counts as a write of it.\<close>

fun timer_member :: "timer_id \<Rightarrow> member" where
  "timer_member Idle_timer = M_idle_timer"
| "timer_member Heartbeat_timer = M_heartbeat_timer"
| "timer_member Handshake_timer = M_handshake_timer"

fun called_member :: "'h asio_call \<Rightarrow> member option" where
  "called_member (Expires_after t _) = Some (timer_member t)"
| "called_member (Async_wait t) = Some (timer_member t)"
| "called_member (Cancel_timer t) = Some (timer_member t)"
| "called_member (Async_connect_start _ _) = Some M_stream"
| "called_member (Async_handshake_start _ _) = Some M_stream"
| "called_member (Async_read_start _ _) = Some M_stream"
| "called_member (Async_write_start _ _) = Some M_stream"
| "called_member Shutdown_stream = Some M_stream"
| "called_member Close_stream = Some M_stream"
| "called_member _ = None"

lemma timer_member_queue [simp]: "timer_member t \<noteq> M_write_queue"
  by (cases t) simp_all

definition invoke :: "'h asio_call \<Rightarrow> ('h, 'x, unit) program" where
  "invoke c = do {
     (case called_member c of None \<Rightarrow> State_Monad.return () | Some m \<Rightarrow> touch m True);
     State_Monad.update (\<lambda>t. t\<lparr>tr_calls := tr_calls t @ [(c, tr_held t)]\<rparr>) }"

definition skip :: "('h, 'x, unit) program" where
  "skip = State_Monad.return ()"

section \<open>The functions of the socket\<close>

definition write_next_t :: "('h, 'x, unit) program" where
  "write_next_t = do {
     front \<leftarrow> lock_guard (fetch M_write_queue (\<lambda>s. case write_queue s of [] \<Rightarrow> None | w # _ \<Rightarrow> Some (pw_head w, pw_body w)));
     case front of None \<Rightarrow> invoke UB_empty_front | Some (head, body) \<Rightarrow> invoke (Async_write_start head body) }"

definition async_write_locked_t ::
  "byte list \<Rightarrow> byte list \<Rightarrow> 'h option \<Rightarrow> ('h, 'x, bool \<times> bool) program" where
  "async_write_locked_t head body handler = lock_guard (do {
     max_pending \<leftarrow> fetch M_max_pending_writes max_pending_writes;
     full \<leftarrow> (if max_pending \<noteq> 0 then fetch M_write_queue (\<lambda>s. length (write_queue s) \<ge> max_pending)
              else State_Monad.return False);
     if full then State_Monad.return (True, False)
     else do {
       idle \<leftarrow> fetch M_write_queue (\<lambda>s. write_queue s = []);
       store M_write_queue (\<lambda>s. s\<lparr>write_queue := write_queue s @ [\<lparr>pw_head = head, pw_body = body, pw_handler = handler\<rparr>]\<rparr>);
       State_Monad.return (False, idle) } })"

definition async_write2_t :: "byte list \<Rightarrow> byte list \<Rightarrow> 'h option \<Rightarrow> ('h, 'x, unit) program" where
  "async_write2_t head body handler = do {
     (rejected, idle) \<leftarrow> async_write_locked_t head body handler;
     if rejected then (case handler of None \<Rightarrow> skip | Some h \<Rightarrow> invoke (Call h False))
     else if idle then write_next_t
     else skip }"

definition write_done_locked_t :: "('h, 'x, ('h option \<times> bool) option) program" where
  "write_done_locked_t = lock_guard (do {
     queue \<leftarrow> fetch M_write_queue write_queue;
     case queue of
       [] \<Rightarrow> State_Monad.return None
     | w # ws \<Rightarrow> do {
         store M_write_queue (\<lambda>s. s\<lparr>write_queue := ws\<rparr>);
         more_left \<leftarrow> fetch M_write_queue (\<lambda>s. write_queue s \<noteq> []);
         State_Monad.return (Some (pw_handler w, more_left)) } })"

definition on_write_done_t :: "bool \<Rightarrow> ('h, 'x, unit) program" where
  "on_write_done_t error = do {
     popped \<leftarrow> write_done_locked_t;
     case popped of
       None \<Rightarrow> invoke UB_empty_front
     | Some (handler, more_left) \<Rightarrow> do {
         (case handler of None \<Rightarrow> skip | Some h \<Rightarrow> invoke (Call h (\<not> error)));
         if more_left then write_next_t else skip } }"

definition through_timer_t :: "timer_id \<Rightarrow> duration \<Rightarrow> ('h, 'x, unit) program" where
  "through_timer_t timer d = do {
     created \<leftarrow> fetch (timer_member timer) (timer_created timer);
     if created then do { invoke (Expires_after timer d); invoke (Async_wait timer) } else invoke UB_null_timer }"

definition ensure_timer_t :: "timer_id \<Rightarrow> ('h, 'x, unit) program" where
  "ensure_timer_t timer = do {
     created \<leftarrow> fetch (timer_member timer) (timer_created timer);
     if \<not> created then store (timer_member timer) (make_timer timer) else skip }"

definition reset_idle_timer_t :: "('h, 'x, unit) program" where
  "reset_idle_timer_t = do {
     timeout \<leftarrow> fetch M_idle_timeout idle_timeout;
     if timeout = 0 then skip
     else do {
       ensure_timer_t Idle_timer;
       timeout \<leftarrow> fetch M_idle_timeout idle_timeout;
       through_timer_t Idle_timer timeout } }"

definition arm_heartbeat_t :: "('h, 'x, unit) program" where
  "arm_heartbeat_t = do {
     timeout \<leftarrow> fetch M_heartbeat_timeout heartbeat_timeout;
     through_timer_t Heartbeat_timer timeout }"

definition reset_heartbeat_timer_t :: "('h, 'x, unit) program" where
  "reset_heartbeat_timer_t = do {
     timeout \<leftarrow> fetch M_heartbeat_timeout heartbeat_timeout;
     if timeout = 0 then skip
     else do {
       ensure_timer_t Heartbeat_timer;
       store M_heartbeat_sent (\<lambda>s. s\<lparr>heartbeat_sent := False\<rparr>);
       arm_heartbeat_t } }"

definition close_lowest_layer_t :: "'x asio \<Rightarrow> ('h, 'x, unit) program" where
  "close_lowest_layer_t a = do {
     x \<leftarrow> fetch M_stream tcp_stream;
     invoke Close_stream;
     store M_stream (\<lambda>s. s\<lparr>tcp_stream := asio_close a x\<rparr>);
     if asio_close_error a x then invoke (Raise System_error) else skip }"

definition close_socket_t :: "'x asio \<Rightarrow> ('h, 'x, unit) program" where
  "close_socket_t a = do {
     invoke Shutdown_stream;
     store M_stream (\<lambda>s. s\<lparr>tcp_stream := asio_shutdown a (tcp_stream s)\<rparr>);
     invoke Close_stream;
     store M_stream (\<lambda>s. s\<lparr>tcp_stream := asio_close a (tcp_stream s)\<rparr>) }"

text \<open>The idle and the handshake timer run the same handler.\<close>

definition on_idle_timer_t :: "'x asio \<Rightarrow> bool \<Rightarrow> ('h, 'x, unit) program" where
  "on_idle_timer_t a ec = (if \<not> ec then close_lowest_layer_t a else skip)"

definition on_heartbeat_timer_t ::
  "('u send_closure \<Rightarrow> 'h) \<Rightarrow> 'x asio \<Rightarrow> platform \<Rightarrow> ('b, 'o) fb_lib \<Rightarrow> bool \<Rightarrow> ('h, 'x, unit) program" where
  "on_heartbeat_timer_t wrap a p fb ec =
     (if ec then skip
      else do {
        sent \<leftarrow> fetch M_heartbeat_sent heartbeat_sent;
        if sent then close_lowest_layer_t a
        else do {
          let m = make_msg p fb (CreateHbPingRequest fb) True MessageId_HbPing ();
          async_write2_t (msg_header m) (msg_body m) (Some (wrap (Release_message m)));
          store M_heartbeat_sent (\<lambda>s. s\<lparr>heartbeat_sent := True\<rparr>);
          arm_heartbeat_t } })"

definition async_read_t :: "nat \<Rightarrow> 'h \<Rightarrow> ('h, 'x, unit) program" where
  "async_read_t n handler = invoke (Async_read_start n handler)"

definition on_read_done_t :: "bool \<Rightarrow> 'h \<Rightarrow> ('h, 'x, unit) program" where
  "on_read_done_t error handler = do {
     (if \<not> error then do { reset_idle_timer_t; reset_heartbeat_timer_t } else skip);
     invoke (Call handler (\<not> error)) }"

section \<open>The functions of the session\<close>

text \<open>What the session's own code does with its socket; \<open>managed\<close> says whether it has a manager, and the
  program's \<^verbatim>\<open>handle_message\<close> is again an argument.\<close>

type_synonym ('u, 'm, 'x) recorded_handler = "u8 \<Rightarrow> byte list \<Rightarrow> (('u, 'm) callback, 'x, unit) program"

definition on_error_t :: "'x asio \<Rightarrow> bool \<Rightarrow> (('u, 'm) callback, 'x, unit) program" where
  "on_error_t a managed = (if managed then skip else close_socket_t a)"

definition checked_read_t ::
  "'x asio \<Rightarrow> size_t \<Rightarrow> bool \<Rightarrow> size_t \<Rightarrow> session_cont \<Rightarrow> (('u, 'm) callback, 'x, unit) program" where
  "checked_read_t a lim managed n k = do {
     max_size \<leftarrow> fetch M_max_message_size max_message_size;
     if max_size \<noteq> 0 \<and> n > max_size then on_error_t a managed
     else if n > lim then skip
     else async_read_t n (Read_done k) }"

definition handle_sys_message_t :: "platform \<Rightarrow> ('b, 'o) fb_lib \<Rightarrow> u8 \<Rightarrow> (('u, 'm) callback, 'x, unit) program" where
  "handle_sys_message_t p fb mid =
     (if mid = MessageId_HbPing
      then (let m = make_msg p fb (CreateHbPongRequest fb) True MessageId_HbPong ()
            in async_write2_t (msg_header m) (msg_body m) (Some (Sent (Release_message m))))
      else skip)"

fun run_cont_t ::
  "('u, 'm, 'x) recorded_handler \<Rightarrow> 'x asio \<Rightarrow> platform \<Rightarrow> ('b, 'o) fb_lib \<Rightarrow> size_t \<Rightarrow> bool \<Rightarrow> session_cont \<Rightarrow> bool \<Rightarrow>
   byte list \<Rightarrow> (('u, 'm) callback, 'x, unit) program" where
  "run_cont_t hm a p fb lim managed After_frame_size valid data =
     (if valid
      then checked_read_t a lim managed (unat (from_little p (object_value (native_order p) data))) After_header
      else on_error_t a managed)"
| "run_cont_t hm a p fb lim managed After_header valid data =
     (if \<not> valid then on_error_t a managed
      else case parse_header fb data of
             None \<Rightarrow> on_error_t a managed
           | Some (mid, body_size, is_system) \<Rightarrow> checked_read_t a lim managed body_size (After_body mid is_system))"
| "run_cont_t hm a p fb lim managed (After_body mid is_system) valid data =
     (if \<not> valid then on_error_t a managed
      else do {
        (if is_system then handle_sys_message_t p fb mid else hm mid data);
        async_read_t 8 (Read_done After_frame_size) })"

definition session_read_done_t ::
  "('u, 'm, 'x) recorded_handler \<Rightarrow> 'x asio \<Rightarrow> platform \<Rightarrow> ('b, 'o) fb_lib \<Rightarrow> size_t \<Rightarrow> bool \<Rightarrow> session_cont \<Rightarrow> bool \<Rightarrow>
   byte list \<Rightarrow> (('u, 'm) callback, 'x, unit) program" where
  "session_read_done_t hm a p fb lim managed k error data = do {
     on_read_done_t error (Read_done k);
     run_cont_t hm a p fb lim managed k (\<not> error) data }"

section \<open>The record and the model\<close>

text \<open>A program behaves like an operation of the model: from a state in which the thread does not hold the
  mutex it changes the socket and makes the calls as the operation does, without holding the mutex at
  any call; it ends without the mutex and never locks it twice; it touches the queue only under the
  mutex, and what it calls, it touches.\<close>

definition extends ::
  "('h, 'x) traced \<Rightarrow> ('h, 'x) tcp_socket \<times> 'h asio_call list \<Rightarrow> ('h, 'x) traced \<Rightarrow> bool" where
  "extends t res t' \<longleftrightarrow> (\<exists>acc.
     t' = t\<lparr>tr_socket := fst res, tr_accesses := tr_accesses t @ acc,
            tr_calls := tr_calls t @ map (\<lambda>c. (c, False)) (snd res)\<rparr> \<and>
     (\<forall>x \<in> set acc. acc_member x = M_write_queue \<longrightarrow> acc_locked x) \<and>
     (\<forall>c \<in> set (snd res). \<forall>m. called_member c = Some m \<longrightarrow>
        \<lparr>acc_member = m, acc_written = True, acc_locked = False\<rparr> \<in> set acc))"

definition behaves ::
  "('h, 'x, 'a) program \<Rightarrow> (('h, 'x) tcp_socket \<Rightarrow> ('h, 'x) tcp_socket \<times> 'h asio_call list) \<Rightarrow> bool" where
  "behaves prog f \<longleftrightarrow> (\<forall>t. \<not> tr_held t \<longrightarrow> extends t (f (tr_socket t)) (snd (run_state prog t)))"

definition untraced ::
  "('h, 'x, unit) program \<Rightarrow> ('h, 'x) tcp_socket \<Rightarrow> ('h, 'x) tcp_socket \<times> 'h asio_call list" where
  "untraced prog s = (let t = snd (run_state prog (begin_trace s)) in (tr_socket t, map fst (tr_calls t)))"

definition then_op ::
  "('s \<Rightarrow> 's \<times> 'c list) \<Rightarrow> ('s \<Rightarrow> 's \<times> 'c list) \<Rightarrow> 's \<Rightarrow> 's \<times> 'c list" where
  "then_op f g s = (let (s1, calls1) = f s; (s2, calls2) = g s1 in (s2, calls1 @ calls2))"

lemmas program_simps = fetch_def store_def touch_def invoke_def lock_guard_def skip_def State_Monad.update_def

lemma behavesI: "(\<And>t. \<not> tr_held t \<Longrightarrow> extends t (f (tr_socket t)) (snd (run_state prog t))) \<Longrightarrow> behaves prog f"
  by (simp add: behaves_def)

lemma behavesD: "behaves prog f \<Longrightarrow> \<not> tr_held t \<Longrightarrow> tr_socket t = s \<Longrightarrow> extends t (f s) (snd (run_state prog t))"
  by (auto simp: behaves_def)

lemma behaves_cong: "behaves prog f \<Longrightarrow> (\<And>s. f s = g s) \<Longrightarrow> behaves prog g"
  by (simp add: behaves_def)

lemma extends_untraced: "extends (begin_trace s) res (snd (run_state prog (begin_trace s))) \<Longrightarrow> untraced prog s = res"
  by (auto simp: extends_def begin_trace_def untraced_def Let_def comp_def)

lemma begin_trace_simps [simp]: "tr_held (begin_trace s) = False" "tr_socket (begin_trace s) = s"
  by (simp_all add: begin_trace_def)

lemma behaves_untraced: "behaves prog f \<Longrightarrow> untraced prog = f"
  by (intro ext extends_untraced) (rule behavesD; simp)

lemma extends_trans:
  assumes "extends t (s, calls) t1" and "extends t1 (s', calls') t2"
  shows "extends t (s', calls @ calls') t2"
proof -
  from assms(1) obtain acc where acc: "t1 = t\<lparr>tr_socket := s, tr_accesses := tr_accesses t @ acc,
      tr_calls := tr_calls t @ map (\<lambda>c. (c, False)) calls\<rparr>"
    "\<forall>x \<in> set acc. acc_member x = M_write_queue \<longrightarrow> acc_locked x"
    "\<forall>c \<in> set calls. \<forall>m. called_member c = Some m \<longrightarrow> \<lparr>acc_member = m, acc_written = True, acc_locked = False\<rparr> \<in> set acc"
    by (auto simp: extends_def)
  from assms(2) obtain acc' where acc': "t2 = t1\<lparr>tr_socket := s', tr_accesses := tr_accesses t1 @ acc',
      tr_calls := tr_calls t1 @ map (\<lambda>c. (c, False)) calls'\<rparr>"
    "\<forall>x \<in> set acc'. acc_member x = M_write_queue \<longrightarrow> acc_locked x"
    "\<forall>c \<in> set calls'. \<forall>m. called_member c = Some m \<longrightarrow> \<lparr>acc_member = m, acc_written = True, acc_locked = False\<rparr> \<in> set acc'"
    by (auto simp: extends_def)
  show ?thesis
    unfolding extends_def using acc acc' by (intro exI [of _ "acc @ acc'"]) auto
qed

lemma extends_refl: "extends t (tr_socket t, []) t"
  by (cases t) (simp add: extends_def)

lemma extends_held: "extends t res t' \<Longrightarrow> tr_held t' = tr_held t \<and> tr_socket t' = fst res"
  by (auto simp: extends_def)

text \<open>The programs are put together from programs that behave.\<close>

lemma behaves_skip: "behaves skip (\<lambda>s. (s, []))"
  by (simp add: behaves_def skip_def extends_refl)

lemma behaves_seq:
  assumes "behaves prog f" and "behaves prog' g"
  shows "behaves (do { prog; prog' }) (then_op f g)"
proof (rule behavesI)
  fix t :: "('a, 'b) traced"
  assume t: "\<not> tr_held t"
  let ?t1 = "snd (run_state prog t)"
  have 1: "extends t (f (tr_socket t)) ?t1" by (rule behavesD [OF assms(1) t refl])
  have 2: "extends ?t1 (g (fst (f (tr_socket t)))) (snd (run_state prog' ?t1))"
    by (rule behavesD [OF assms(2)]) (simp_all add: extends_held [OF 1] t)
  from extends_trans [of t "fst (f (tr_socket t))" "snd (f (tr_socket t))" ?t1] 1 2
  show "extends t (then_op f g (tr_socket t)) (snd (run_state (do { prog; prog' }) t))"
    by (simp add: then_op_def Let_def case_prod_beta)
qed

text \<open>A block that computes a value and changes the socket, but makes no call.\<close>

definition computes ::
  "('h, 'x, 'a) program \<Rightarrow> (('h, 'x) tcp_socket \<Rightarrow> 'a \<times> ('h, 'x) tcp_socket) \<Rightarrow> bool" where
  "computes block f \<longleftrightarrow> (\<forall>t. \<not> tr_held t \<longrightarrow> fst (run_state block t) = fst (f (tr_socket t)) \<and>
     extends t (snd (f (tr_socket t)), []) (snd (run_state block t)))"

lemma behaves_block:
  assumes "computes block f" and "\<And>v. behaves (prog v) (g v)"
  shows "behaves (do { v \<leftarrow> block; prog v }) (\<lambda>s. g (fst (f s)) (snd (f s)))"
proof (rule behavesI)
  fix t :: "('a, 'b) traced"
  assume t: "\<not> tr_held t"
  let ?t1 = "snd (run_state block t)"
  let ?v = "fst (f (tr_socket t))"
  let ?s1 = "snd (f (tr_socket t))"
  have 1: "extends t (?s1, []) ?t1" and v: "fst (run_state block t) = ?v"
    using assms(1) t by (simp_all add: computes_def)
  have 2: "extends ?t1 (g ?v ?s1) (snd (run_state (prog ?v) ?t1))"
    by (rule behavesD [OF assms(2)]) (simp_all add: extends_held [OF 1] t)
  from extends_trans [OF 1, of "fst (g ?v ?s1)" "snd (g ?v ?s1)"] 2 v
  show "extends t (g ?v ?s1) (snd (run_state (do { v \<leftarrow> block; prog v }) t))"
    by (simp add: case_prod_beta)
qed

text \<open>A member other than the queue may be read without the mutex.\<close>

lemma computes_fetch: "m \<noteq> M_write_queue \<Longrightarrow> computes (fetch m f) (\<lambda>s. (f s, s))"
  unfolding computes_def by (intro allI impI; case_tac t) (simp add: extends_def program_simps)

lemma behaves_fetch:
  "m \<noteq> M_write_queue \<Longrightarrow> (\<And>v. behaves (prog v) (g v)) \<Longrightarrow> behaves (do { v \<leftarrow> fetch m f; prog v }) (\<lambda>s. g (f s) s)"
  using behaves_block [OF computes_fetch, of m prog g f] by simp

lemma behaves_store: "m \<noteq> M_write_queue \<Longrightarrow> behaves (store m f) (\<lambda>s. (f s, []))"
proof (rule behavesI)
  fix t :: "('a, 'b) traced"
  assume "m \<noteq> M_write_queue" and "\<not> tr_held t"
  then show "extends t (f (tr_socket t), []) (snd (run_state (store m f) t))"
    by (cases t) (simp add: extends_def program_simps)
qed

lemma behaves_invoke: "behaves (invoke c) (\<lambda>s. (s, [c]))"
proof (rule behavesI)
  fix t :: "('a, 'b) traced"
  assume "\<not> tr_held t"
  then show "extends t (tr_socket t, [c]) (snd (run_state (invoke c) t))"
    by (cases t; cases c; (cases "called_member c")?) (auto simp: extends_def program_simps split: option.split)
qed

lemma behaves_if: "behaves prog f \<Longrightarrow> behaves prog' g \<Longrightarrow> behaves (if c then prog else prog') (\<lambda>s. if c then f s else g s)"
  by simp

section \<open>The functions of the socket behave\<close>

text \<open>The three critical sections.\<close>

lemma computes_front:
  "computes (lock_guard (fetch M_write_queue (\<lambda>s. case write_queue s of [] \<Rightarrow> None | w # _ \<Rightarrow> Some (pw_head w, pw_body w))))
     (\<lambda>s. (case write_queue s of [] \<Rightarrow> None | w # _ \<Rightarrow> Some (pw_head w, pw_body w), s))"
  unfolding computes_def by (intro allI impI; case_tac t) (simp add: extends_def program_simps)

lemma behaves_write_next: "behaves write_next_t write_next"
  unfolding write_next_t_def
  by (rule behaves_cong [OF behaves_block [OF computes_front, where g = "\<lambda>front s. case front of
          None \<Rightarrow> (s, [UB_empty_front]) | Some (head, body) \<Rightarrow> (s, [Async_write_start head body])"]])
     (auto simp: write_next_def behaves_invoke split: option.split list.split)

lemma computes_async_write:
  "computes (async_write_locked_t head body handler)
     (\<lambda>s. let (rejected, idle, s') = async_write_locked s head body handler in ((rejected, idle), s'))"
  unfolding computes_def async_write_locked_t_def
  by (intro allI impI; case_tac t) (simp add: extends_def async_write_locked_def program_simps)

lemma computes_write_done:
  "computes write_done_locked_t
     (\<lambda>s. case write_done_locked s of None \<Rightarrow> (None, s) | Some (handler, more_left, s') \<Rightarrow> (Some (handler, more_left), s'))"
  unfolding computes_def write_done_locked_t_def
  by (intro allI impI; case_tac t; case_tac "write_queue tr_socket") (simp_all add: extends_def write_done_locked_def program_simps)

lemma behaves_call: "behaves (case handler of None \<Rightarrow> skip | Some h \<Rightarrow> invoke (Call h ok)) (\<lambda>s. (s, call_handler handler ok))"
  by (cases handler) (simp_all add: call_handler_def behaves_skip behaves_invoke)

lemma behaves_async_write2: "behaves (async_write2_t head body handler) (\<lambda>s. async_write2 s head body handler)"
  unfolding async_write2_t_def
  by (rule behaves_cong [OF behaves_block [OF computes_async_write, where g = "\<lambda>(rejected, idle) s.
          if rejected then (s, call_handler handler False) else if idle then write_next s else (s, [])"]])
     (auto simp: async_write2_def Let_def behaves_call behaves_write_next behaves_skip split: prod.split)

lemma behaves_on_write_done:
  "behaves (on_write_done_t error) (\<lambda>s. on_write_done (\<lambda>h ok s. (s, [Call h ok])) s error)"
  unfolding on_write_done_t_def
  by (rule behaves_cong [OF behaves_block [OF computes_write_done, where g = "\<lambda>popped. case popped of
          None \<Rightarrow> \<lambda>s. (s, [UB_empty_front])
        | Some (handler, more_left) \<Rightarrow> then_op (\<lambda>s. (s, call_handler handler (\<not> error)))
            (\<lambda>s. if more_left then write_next s else (s, []))"]])
     (auto simp: on_write_done_def call_handler_def then_op_def Let_def case_prod_beta behaves_invoke
        intro!: behaves_seq behaves_call behaves_if behaves_write_next behaves_skip split: option.split prod.split)

section \<open>The timers and the completion of a read\<close>

lemma behaves_through_timer:
  "behaves (through_timer_t timer d) (\<lambda>s. (s, through_timer timer s [Expires_after timer d, Async_wait timer]))"
  unfolding through_timer_t_def
  by (rule behaves_cong [OF behaves_fetch [where g = "\<lambda>created. if created
          then then_op (\<lambda>s. (s, [Expires_after timer d])) (\<lambda>s. (s, [Async_wait timer])) else (\<lambda>s. (s, [UB_null_timer]))"]])
     (auto simp: through_timer_def then_op_def intro!: behaves_seq behaves_invoke)

lemma behaves_ensure_timer: "behaves (ensure_timer_t timer) (\<lambda>s. (ensure_timer timer s, []))"
  unfolding ensure_timer_t_def
  by (rule behaves_cong [OF behaves_fetch [where g = "\<lambda>created s. (if \<not> created then make_timer timer s else s, [])"]])
     (auto simp: ensure_timer_def intro: behaves_skip behaves_store)

lemma behaves_reset_idle: "behaves reset_idle_timer_t reset_idle_timer"
  unfolding reset_idle_timer_t_def
  by (rule behaves_cong [OF behaves_fetch [where g = "\<lambda>timeout. if timeout = 0 then (\<lambda>s. (s, []))
          else then_op (\<lambda>s. (ensure_timer Idle_timer s, []))
            (\<lambda>s. (s, through_timer Idle_timer s [Expires_after Idle_timer (idle_timeout s), Async_wait Idle_timer]))"]])
     (auto simp: reset_idle_timer_def then_op_def Let_def simp del: ensure_timer_eq
        intro!: behaves_skip behaves_seq behaves_ensure_timer behaves_fetch behaves_through_timer)

lemma behaves_arm_heartbeat: "behaves arm_heartbeat_t arm_heartbeat"
  unfolding arm_heartbeat_t_def
  by (rule behaves_cong [OF behaves_fetch]) (auto simp: arm_heartbeat_def intro!: behaves_through_timer)

lemma behaves_reset_heartbeat: "behaves reset_heartbeat_timer_t reset_heartbeat_timer"
  unfolding reset_heartbeat_timer_t_def
  by (rule behaves_cong [OF behaves_fetch [where g = "\<lambda>timeout. if timeout = 0 then (\<lambda>s. (s, []))
          else then_op (\<lambda>s. (ensure_timer Heartbeat_timer s, []))
            (then_op (\<lambda>s. (s\<lparr>heartbeat_sent := False\<rparr>, [])) arm_heartbeat)"]])
     (auto simp: reset_heartbeat_timer_def then_op_def Let_def case_prod_beta simp del: ensure_timer_eq
        intro!: behaves_skip behaves_seq behaves_ensure_timer behaves_store behaves_arm_heartbeat)

lemma behaves_close_lowest: "behaves (close_lowest_layer_t a) (close_lowest_layer a)"
  unfolding close_lowest_layer_t_def
  by (rule behaves_cong [OF behaves_fetch [where g = "\<lambda>x. then_op (\<lambda>s. (s, [Close_stream]))
          (then_op (\<lambda>s. (s\<lparr>tcp_stream := asio_close a x\<rparr>, [])) (\<lambda>s. (s, if asio_close_error a x then [Raise System_error] else [])))"]])
     (auto simp: close_lowest_layer_def then_op_def Let_def intro!: behaves_seq behaves_store behaves_invoke behaves_skip)

lemma behaves_close: "behaves (close_socket_t a) (close_socket a)"
  unfolding close_socket_t_def
  by (rule behaves_cong [OF behaves_seq [OF behaves_invoke behaves_seq [OF behaves_store behaves_seq [OF behaves_invoke behaves_store]]]])
     (auto simp: close_socket_def then_op_def Let_def)

lemma behaves_on_idle: "behaves (on_idle_timer_t a ec) (\<lambda>s. on_idle_timer a s ec)"
  unfolding on_idle_timer_t_def on_idle_timer_def by (intro behaves_if behaves_close_lowest behaves_skip)

lemma send_as_write:
  "async_send_forget (erased_write wrap) p fb create_fn is_system s mid args =
     (let m = make_msg p fb create_fn is_system mid args
      in async_write2 s (msg_header m) (msg_body m) (Some (wrap (Release_message m))))"
  by (simp add: async_send_forget_def async_send_buffer_def erased_write_def Let_def)

text \<open>The handler of the heartbeat, once it has read \<^verbatim>\<open>heartbeat_sent_\<close>.\<close>

lemma behaves_heartbeat_continuation:
  assumes "m = make_msg p fb (CreateHbPingRequest fb) True MessageId_HbPing ()"
  shows "behaves (if sent then close_lowest_layer_t a
      else do {
        async_write2_t (msg_header m) (msg_body m) (Some (wrap (Release_message m)));
        store M_heartbeat_sent (\<lambda>s. s\<lparr>heartbeat_sent := True\<rparr>);
        arm_heartbeat_t })
    (if sent then close_lowest_layer a
     else then_op (\<lambda>s. async_write2 s (msg_header m) (msg_body m) (Some (wrap (Release_message m))))
       (then_op (\<lambda>s. (s\<lparr>heartbeat_sent := True\<rparr>, [])) arm_heartbeat))"
  by (auto intro!: behaves_seq behaves_close_lowest behaves_async_write2 behaves_store behaves_arm_heartbeat)

lemma behaves_on_heartbeat: "behaves (on_heartbeat_timer_t wrap a p fb ec) (\<lambda>s. on_heartbeat_timer wrap a p fb s ec)"
proof (cases ec)
  case False
  show ?thesis
    unfolding on_heartbeat_timer_t_def Let_def
    by (rule behaves_cong, simp only: False if_False, rule behaves_fetch [OF _ behaves_heartbeat_continuation])
       (auto simp: False on_heartbeat_timer_def send_as_write then_op_def Let_def case_prod_beta)
qed (simp add: on_heartbeat_timer_t_def on_heartbeat_timer_def behaves_skip)

lemma behaves_on_read_done: "behaves (on_read_done_t error handler) (\<lambda>s. on_read_done s error handler)"
  unfolding on_read_done_t_def
  by (rule behaves_cong [OF behaves_seq [OF behaves_if [OF behaves_seq [OF behaves_reset_idle behaves_reset_heartbeat] behaves_skip]
          behaves_invoke]])
     (auto simp: on_read_done_def reset_activity_timers_def then_op_def Let_def case_prod_beta)

lemma behaves_async_read: "behaves (async_read_t n handler) (\<lambda>s. async_read s n handler)"
  unfolding async_read_t_def async_read_def by (rule behaves_invoke)

section \<open>The functions of the session behave\<close>

text \<open>What an operation of the session does to its socket, and the calls of the socket among its effects. The
  program's \<^verbatim>\<open>handle_message\<close> is given as a recorded program; the model runs it without its record.\<close>

fun socket_calls :: "('u, 'm) session_effect list \<Rightarrow> ('u, 'm) callback asio_call list" where
  "socket_calls [] = []"
| "socket_calls (Socket_call c # effs) = c # socket_calls effs"
| "socket_calls (_ # effs) = socket_calls effs"

definition socket_view ::
  "bool \<Rightarrow> (('u, 'm, 'x) session \<Rightarrow> ('u, 'm, 'x) session_result) \<Rightarrow>
   (('u, 'm) callback, 'x) tcp_socket \<Rightarrow> (('u, 'm) callback, 'x) tcp_socket \<times> ('u, 'm) callback asio_call list" where
  "socket_view managed f sock =
     (let (s, effs) = f (new_session sock managed) in (session_socket s, socket_calls effs))"

definition handler_of :: "('u, 'm, 'x) recorded_handler \<Rightarrow> ('u, 'm, 'x) message_handler" where
  "handler_of hm mid data s = on_socket (untraced (hm mid data)) s"

definition handler_disciplined :: "('u, 'm, 'x) recorded_handler \<Rightarrow> bool" where
  "handler_disciplined hm \<longleftrightarrow> (\<forall>mid data. behaves (hm mid data) (untraced (hm mid data)))"

lemma socket_calls_append [simp]: "socket_calls (effs @ effs') = socket_calls effs @ socket_calls effs'"
  by (induction effs rule: socket_calls.induct) simp_all

lemma socket_calls_map [simp]: "socket_calls (map Socket_call calls) = calls"
  by (induction calls) simp_all

lemma on_socket_new_session:
  "on_socket f (new_session sock managed) = (new_session (fst (f sock)) managed, map Socket_call (snd (f sock)))"
  by (simp add: on_socket_def new_session_def case_prod_beta)

lemma new_session_simps [simp]:
  "session_socket (new_session sock managed) = sock" "session_managed (new_session sock managed) = managed"
  by (simp_all add: new_session_def)

lemma socket_view_on_socket: "socket_view managed (on_socket f) sock = f sock"
  by (simp add: socket_view_def on_socket_new_session)

lemma behaves_on_error: "behaves (on_error_t a managed) (socket_view managed (on_error a))"
  unfolding on_error_t_def
  by (rule behaves_cong [OF behaves_if [OF behaves_skip behaves_close]])
     (simp add: socket_view_def on_error_def session_stop_def on_socket_new_session)

lemma behaves_checked_read:
  "behaves (checked_read_t a lim managed n After_header) (socket_view managed (\<lambda>s. read_header a lim s n))"
  "behaves (checked_read_t a lim managed n (After_body mid is_system)) (socket_view managed (\<lambda>s. read_body a lim s mid n is_system))"
proof -
  have checked: "behaves (checked_read_t a lim managed n k)
      (\<lambda>sock. if max_message_size sock \<noteq> 0 \<and> n > max_message_size sock then socket_view managed (on_error a) sock
         else if n > lim then (sock, []) else async_read sock n (Read_done k))" for k
    unfolding checked_read_t_def
    by (rule behaves_cong [OF behaves_fetch [where g = "\<lambda>max_size sock. if max_size \<noteq> 0 \<and> n > max_size
            then socket_view managed (on_error a) sock else if n > lim then (sock, []) else async_read sock n (Read_done k)"]])
       (auto intro!: behaves_on_error behaves_skip behaves_async_read)
  show "behaves (checked_read_t a lim managed n After_header) (socket_view managed (\<lambda>s. read_header a lim s n))"
    by (rule behaves_cong [OF checked]) (simp add: socket_view_def read_header_def Let_def on_socket_new_session async_read_def)
  show "behaves (checked_read_t a lim managed n (After_body mid is_system)) (socket_view managed (\<lambda>s. read_body a lim s mid n is_system))"
    by (rule behaves_cong [OF checked]) (simp add: socket_view_def read_body_def Let_def on_socket_new_session async_read_def)
qed

lemma behaves_handle_sys: "behaves (handle_sys_message_t p fb mid) (socket_view managed (\<lambda>s. handle_sys_message p fb s mid data))"
  unfolding handle_sys_message_t_def Let_def
  by (rule behaves_cong [OF behaves_if [OF behaves_async_write2 behaves_skip]])
     (simp add: socket_view_def handle_sys_message_def on_socket_new_session send_as_write Let_def)

lemma behaves_handle_body:
  assumes "handler_disciplined hm"
  shows "behaves (if is_system then handle_sys_message_t p fb mid else hm mid data)
    (socket_view managed (\<lambda>s. if is_system then handle_sys_message p fb s mid data else handler_of hm mid data s))"
proof (cases is_system)
  case False
  have "behaves (hm mid data) (socket_view managed (handler_of hm mid data))"
  proof (rule behaves_cong)
    show "behaves (hm mid data) (untraced (hm mid data))"
      using assms by (simp only: handler_disciplined_def)
  qed (simp add: handler_of_def socket_view_def on_socket_new_session)
  with False show ?thesis by simp
qed (simp add: behaves_handle_sys)

lemma run_cont_eqs:
  "run_cont hm a p fb lim After_frame_size valid data =
     (if valid then (\<lambda>s. read_header a lim s (unat (from_little p (object_value (native_order p) data)))) else on_error a)"
  "run_cont hm a p fb lim After_header valid data =
     (if \<not> valid then on_error a
      else case parse_header fb data of
             None \<Rightarrow> on_error a
           | Some (mid, body_size, is_system) \<Rightarrow> (\<lambda>s. read_body a lim s mid body_size is_system))"
  by (auto simp: fun_eq_iff run_cont.simps split: option.split)

lemma behaves_run_cont:
  assumes "handler_disciplined hm"
  shows "behaves (run_cont_t hm a p fb lim managed k valid data)
    (socket_view managed (run_cont (handler_of hm) a p fb lim k valid data))"
proof (cases k)
  case After_frame_size
  then show ?thesis
    by (cases valid) (simp_all add: run_cont_eqs behaves_on_error behaves_checked_read)
next
  case After_header
  then show ?thesis
    by (cases valid; cases "parse_header fb data")
       (auto simp: run_cont_eqs behaves_on_error behaves_checked_read)
next
  case (After_body mid is_system)
  show ?thesis
  proof (cases valid)
    case True
    show ?thesis
      unfolding After_body run_cont_t.simps
      by (simp only: True not_True_eq_False if_False,
          rule behaves_cong [OF behaves_seq [OF behaves_handle_body [OF assms, where managed = managed] behaves_async_read]])
         (simp add: socket_view_def then_op_def Let_def case_prod_beta True run_cont.simps read_frame_size_def
            handle_sys_message_def handler_of_def on_socket_new_session)
  next
    case False
    have "run_cont (handler_of hm) a p fb lim k valid data = on_error a"
      by (simp add: fun_eq_iff After_body False run_cont.simps)
    then show ?thesis by (simp add: After_body False behaves_on_error)
  qed
qed

lemma behaves_session_read_done:
  assumes "handler_disciplined hm"
  shows "behaves (session_read_done_t hm a p fb lim managed k error data)
    (socket_view managed (session_read_done (handler_of hm) a p fb lim k error data))"
  unfolding session_read_done_t_def
  by (rule behaves_cong [OF behaves_seq [OF behaves_on_read_done behaves_run_cont [OF assms]]])
     (simp add: socket_view_def then_op_def session_read_done_def Let_def case_prod_beta on_socket_new_session)

section \<open>Races\<close>

text \<open>What may run at the same time: the completion handlers of a read, of the write in flight and of an expired
  timer, and a write requested by an owner of the session.\<close>

datatype 'h activity =
    Read_completion nat session_cont bool "byte list"
  | Write_completion bool
  | Timer_completion timer_id
  | Write_request "byte list" "byte list" "'h option"

fun ready :: "('u, 'm, 'x) life \<Rightarrow> ('u, 'm) callback activity \<Rightarrow> bool" where
  "ready l (Read_completion n k error data) \<longleftrightarrow> (n, k) \<in> set (life_reads l) \<and> length data = n"
| "ready l (Write_completion error) \<longleftrightarrow> life_writes l \<noteq> 0"
| "ready l (Timer_completion t) \<longleftrightarrow> (t, Expired) \<in> set (life_waits l)"
| "ready l (Write_request head body handler) \<longleftrightarrow> life_registered l \<or> life_users l \<noteq> 0"

text \<open>What it does in the model of the session's life, and as a recorded program.\<close>

fun activity_model ::
  "('u, 'm, 'x) message_handler \<Rightarrow> 'x asio \<Rightarrow> platform \<Rightarrow> ('b, 'o) fb_lib \<Rightarrow> size_t \<Rightarrow> ('u, 'm) callback activity \<Rightarrow>
   ('u, 'm, 'x) session \<Rightarrow> ('u, 'm, 'x) session_result" where
  "activity_model hm a p fb lim (Read_completion n k error data) s = session_read_done hm a p fb lim k error data s"
| "activity_model hm a p fb lim (Write_completion error) s =
     on_socket (\<lambda>s. on_write_done (\<lambda>h ok s. (s, [Call h ok])) s error) s"
| "activity_model hm a p fb lim (Timer_completion t) s = timer_handler a p fb t False s"
| "activity_model hm a p fb lim (Write_request head body handler) s = on_socket (\<lambda>s. async_write2 s head body handler) s"

fun activity_program ::
  "('u, 'm, 'x) recorded_handler \<Rightarrow> 'x asio \<Rightarrow> platform \<Rightarrow> ('b, 'o) fb_lib \<Rightarrow> size_t \<Rightarrow> bool \<Rightarrow> ('u, 'm) callback activity \<Rightarrow>
   (('u, 'm) callback, 'x, unit) program" where
  "activity_program hm a p fb lim managed (Read_completion n k error data) =
     session_read_done_t hm a p fb lim managed k error data"
| "activity_program hm a p fb lim managed (Write_completion error) = on_write_done_t error"
| "activity_program hm a p fb lim managed (Timer_completion Idle_timer) = on_idle_timer_t a False"
| "activity_program hm a p fb lim managed (Timer_completion Heartbeat_timer) = on_heartbeat_timer_t Sent a p fb False"
| "activity_program hm a p fb lim managed (Timer_completion Handshake_timer) = on_idle_timer_t a False"
| "activity_program hm a p fb lim managed (Write_request head body handler) = async_write2_t head body handler"

lemma behaves_activity:
  assumes "handler_disciplined hm"
  shows "behaves (activity_program hm a p fb lim managed h) (socket_view managed (activity_model (handler_of hm) a p fb lim h))"
proof (cases h)
  case (Read_completion n k error data)
  have "activity_model (handler_of hm) a p fb lim h = session_read_done (handler_of hm) a p fb lim k error data"
    by (simp add: fun_eq_iff Read_completion)
  then show ?thesis using behaves_session_read_done [OF assms] by (simp add: Read_completion)
next
  case (Write_completion error)
  show ?thesis
    unfolding Write_completion activity_program.simps
    by (rule behaves_cong [OF behaves_on_write_done]) (simp add: socket_view_def on_socket_new_session)
next
  case (Timer_completion t)
  show ?thesis
    unfolding Timer_completion
    by (cases t; simp only: activity_program.simps; rule behaves_cong [OF behaves_on_idle] behaves_cong [OF behaves_on_heartbeat])
       (simp_all add: socket_view_def on_socket_new_session on_handshake_timer_eq)
next
  case (Write_request head body handler)
  show ?thesis
    unfolding Write_request activity_program.simps
    by (rule behaves_cong [OF behaves_async_write2]) (simp add: socket_view_def on_socket_new_session)
qed

text \<open>The record of an activity that runs from the state \<open>l\<close>. Two activities that are ready in the same state race
  on a member when both touch it, one of them writes it, and they do not both hold the mutex.\<close>

definition activity_trace ::
  "('u, 'm, 'x) recorded_handler \<Rightarrow> 'x asio \<Rightarrow> platform \<Rightarrow> ('b, 'o) fb_lib \<Rightarrow> size_t \<Rightarrow> ('u, 'm, 'x) life \<Rightarrow>
   ('u, 'm) callback activity \<Rightarrow> (('u, 'm) callback, 'x) traced" where
  "activity_trace hm a p fb lim l h =
     snd (run_state (activity_program hm a p fb lim (session_managed (life_session l)) h)
       (begin_trace (session_socket (life_session l))))"

definition conflict :: "access \<Rightarrow> access \<Rightarrow> bool" where
  "conflict x y \<longleftrightarrow> acc_member x = acc_member y \<and> (acc_written x \<or> acc_written y) \<and> \<not> (acc_locked x \<and> acc_locked y)"

definition race_on ::
  "('u, 'm, 'x) recorded_handler \<Rightarrow> 'x asio \<Rightarrow> platform \<Rightarrow> ('b, 'o) fb_lib \<Rightarrow> size_t \<Rightarrow> ('u, 'm, 'x) life \<Rightarrow> member \<Rightarrow>
   ('u, 'm) callback activity \<Rightarrow> ('u, 'm) callback activity \<Rightarrow> bool" where
  "race_on hm a p fb lim l m h h' \<longleftrightarrow> ready l h \<and> ready l h' \<and>
     (\<exists>x \<in> set (tr_accesses (activity_trace hm a p fb lim l h)). \<exists>y \<in> set (tr_accesses (activity_trace hm a p fb lim l h')).
        acc_member x = m \<and> conflict x y)"

lemma activity_extends:
  assumes "handler_disciplined hm"
  shows "extends (begin_trace (session_socket (life_session l)))
    (socket_view (session_managed (life_session l)) (activity_model (handler_of hm) a p fb lim h) (session_socket (life_session l)))
    (activity_trace hm a p fb lim l h)"
  unfolding activity_trace_def by (rule behavesD [OF behaves_activity [OF assms]]) simp_all

lemma called_is_touched:
  assumes "extends t res t'" and "c \<in> set (snd res)" and "called_member c = Some m"
  shows "\<lparr>acc_member = m, acc_written = True, acc_locked = False\<rparr> \<in> set (tr_accesses t')"
  using assms by (auto simp: extends_def)

lemma seq_keeps:
  assumes "behaves prog' g" and "\<not> tr_held (snd (run_state prog t))" and "x \<in> set (tr_accesses (snd (run_state prog t)))"
  shows "x \<in> set (tr_accesses (snd (run_state (do { prog; prog' }) t)))"
  using behavesD [OF assms(1,2) refl] assms(3) by (auto simp: extends_def case_prod_beta)

lemma reset_heartbeat_touches:
  assumes "\<not> tr_held t" and "heartbeat_timeout (tr_socket t) \<noteq> 0"
  shows "\<lparr>acc_member = M_heartbeat_sent, acc_written = True, acc_locked = False\<rparr>
    \<in> set (tr_accesses (snd (run_state reset_heartbeat_timer_t t)))"
  using assms by (cases t) (simp add: reset_heartbeat_timer_t_def ensure_timer_t_def arm_heartbeat_t_def through_timer_t_def program_simps)

lemma read_touches_heartbeat:
  assumes "handler_disciplined hm" and "\<not> tr_held t" and "heartbeat_timeout (tr_socket t) \<noteq> 0"
  shows "\<lparr>acc_member = M_heartbeat_sent, acc_written = True, acc_locked = False\<rparr>
    \<in> set (tr_accesses (snd (run_state (session_read_done_t hm a p fb lim managed k False data) t)))"
proof -
  let ?t1 = "snd (run_state reset_idle_timer_t t)"
  have 1: "extends t (reset_idle_timer (tr_socket t)) ?t1" by (rule behavesD [OF behaves_reset_idle assms(2) refl])
  have "heartbeat_timeout (tr_socket ?t1) = heartbeat_timeout (tr_socket t)" "\<not> tr_held ?t1"
    using extends_held [OF 1] assms(2) by (simp_all add: reset_timer_eqs)
  with reset_heartbeat_touches [of ?t1] assms(3)
  have "\<lparr>acc_member = M_heartbeat_sent, acc_written = True, acc_locked = False\<rparr>
      \<in> set (tr_accesses (snd (run_state (do { reset_idle_timer_t; reset_heartbeat_timer_t }) t)))"
    by (simp add: case_prod_beta)
  moreover have held: "\<not> tr_held (snd (run_state (do { reset_idle_timer_t; reset_heartbeat_timer_t }) t))"
    using extends_held [OF behavesD [OF behaves_seq [OF behaves_reset_idle behaves_reset_heartbeat] assms(2) refl]] assms(2) by blast
  ultimately have "\<lparr>acc_member = M_heartbeat_sent, acc_written = True, acc_locked = False\<rparr>
      \<in> set (tr_accesses (snd (run_state (on_read_done_t False (Read_done k)) t)))"
    unfolding on_read_done_t_def by (simp only: not_False_eq_True if_True) (rule seq_keeps [OF behaves_invoke])
  then show ?thesis
    unfolding session_read_done_t_def using extends_held [OF behavesD [OF behaves_on_read_done assms(2) refl]] assms(2)
    by (intro seq_keeps [OF behaves_run_cont [OF assms(1)]]) blast+
qed

lemma fetch_touches:
  assumes "\<And>v. behaves (prog v) (g v)" and "\<not> tr_held t"
  shows "\<lparr>acc_member = m, acc_written = False, acc_locked = False\<rparr>
    \<in> set (tr_accesses (snd (run_state (do { v \<leftarrow> fetch m f; prog v }) t)))"
proof -
  let ?t1 = "snd (run_state (fetch m f) t)"
  have "\<lparr>acc_member = m, acc_written = False, acc_locked = False\<rparr> \<in> set (tr_accesses ?t1)" "\<not> tr_held ?t1"
    using assms(2) by (simp_all add: program_simps)
  with behavesD [OF assms(1) this(2) refl, of "fst (run_state (fetch m f) t)"] show ?thesis
    by (auto simp: extends_def case_prod_beta)
qed

lemma heartbeat_touches:
  "\<not> tr_held t \<Longrightarrow> \<lparr>acc_member = M_heartbeat_sent, acc_written = False, acc_locked = False\<rparr>
    \<in> set (tr_accesses (snd (run_state (on_heartbeat_timer_t wrap a p fb False) t)))"
  unfolding on_heartbeat_timer_t_def Let_def
  by (simp only: if_False, rule fetch_touches [OF behaves_heartbeat_continuation [OF refl]])

lemma raceI:
  assumes "ready l h" and "ready l h'"
    and "\<lparr>acc_member = m, acc_written = True, acc_locked = False\<rparr> \<in> set (tr_accesses (activity_trace hm a p fb lim l h))"
    and "\<lparr>acc_member = m, acc_written = w, acc_locked = False\<rparr> \<in> set (tr_accesses (activity_trace hm a p fb lim l h'))"
  shows "race_on hm a p fb lim l m h h'"
  unfolding race_on_def
  by (intro conjI assms(1,2) bexI [OF _ assms(3)] bexI [OF _ assms(4)]) (simp_all add: conflict_def)

text \<open>Two activities that call Asio on the same object race.\<close>

lemma calls_race:
  assumes "handler_disciplined hm" and "ready l h" and "ready l h'"
    and "c \<in> set (socket_calls (snd (activity_model (handler_of hm) a p fb lim h (life_session l))))"
    and "c' \<in> set (socket_calls (snd (activity_model (handler_of hm) a p fb lim h' (life_session l))))"
    and "called_member c = Some m" and "called_member c' = Some m"
  shows "race_on hm a p fb lim l m h h'"
proof (rule raceI [OF assms(2,3)])
  have eq: "new_session (session_socket (life_session l)) (session_managed (life_session l)) = life_session l"
    by (simp add: new_session_def)
  have "\<lparr>acc_member = m, acc_written = True, acc_locked = False\<rparr> \<in> set (tr_accesses (activity_trace hm a p fb lim l g))"
    if "d \<in> set (socket_calls (snd (activity_model (handler_of hm) a p fb lim g (life_session l))))" "called_member d = Some m"
    for g d
    by (rule called_is_touched [OF activity_extends [OF assms(1)] _ that(2)])
       (use that(1) in \<open>simp add: socket_view_def Let_def case_prod_beta eq\<close>)
  then show "\<lparr>acc_member = m, acc_written = True, acc_locked = False\<rparr> \<in> set (tr_accesses (activity_trace hm a p fb lim l h))"
    "\<lparr>acc_member = m, acc_written = True, acc_locked = False\<rparr> \<in> set (tr_accesses (activity_trace hm a p fb lim l h'))"
    using assms(4-7) by blast+
qed

text \<open>The calls that the handlers make.\<close>

lemma read_rearms_heartbeat:
  assumes "heartbeat_timeout (session_socket s) \<noteq> 0"
  shows "Expires_after Heartbeat_timer (heartbeat_timeout (session_socket s))
    \<in> set (socket_calls (snd (activity_model hm a p fb lim (Read_completion n k False data) s)))"
  using assms
  by (simp add: session_read_done_def on_socket_def on_read_done_def reset_activity_timers_def reset_timer_eqs Let_def case_prod_beta)

lemma async_write2_keeps_timers:
  "heartbeat_timer (fst (async_write2 s head body handler)) = heartbeat_timer s"
  "heartbeat_timeout (fst (async_write2 s head body handler)) = heartbeat_timeout s"
  by (simp_all add: async_write2_def async_write_locked_def write_next_def split: list.split)

lemma heartbeat_rearms:
  assumes "\<not> heartbeat_sent (session_socket s)" and "heartbeat_timer (session_socket s)"
  shows "Expires_after Heartbeat_timer (heartbeat_timeout (session_socket s))
    \<in> set (socket_calls (snd (activity_model hm a p fb lim (Timer_completion Heartbeat_timer) s)))"
  using assms
  by (simp add: on_socket_def on_heartbeat_timer_def send_as_write arm_heartbeat_def through_timer_def
      async_write2_keeps_timers Let_def case_prod_beta)

lemma write_completion_writes:
  assumes "write_queue (session_socket s) = w # w' # ws"
  shows "Async_write_start (pw_head w') (pw_body w')
    \<in> set (socket_calls (snd (activity_model hm a p fb lim (Write_completion error) s)))"
  using assms
  by (cases "pw_handler w") (simp_all add: on_socket_def on_write_done_def write_done_locked_def write_next_def)

section \<open>Properties\<close>

text \<open>C27: the write queue is never raced for. Whatever the message handler of the program does under the same
  discipline, each of the handlers of a session and each write that an owner requests, recorded
  statement by statement, changes the socket and makes the calls that the model says; it never locks
  \<^verbatim>\<open>write_mutex_\<close> twice, has released it at the end and at every call of Asio or of a handler, and
  touches the queue only while it holds it. So no two of them race on the queue.\<close>

theorem write_queue_never_raced:
  assumes "handler_disciplined hm" and "t = activity_trace hm a p fb lim l h"
  shows "(tr_socket t, map fst (tr_calls t)) =
      (let (s, effs) = activity_model (handler_of hm) a p fb lim h (life_session l) in (session_socket s, socket_calls effs)) \<and>
    \<not> tr_held t \<and> \<not> tr_relocked t \<and> (\<forall>c \<in> set (tr_calls t). \<not> snd c) \<and>
    (\<forall>x \<in> set (tr_accesses t). acc_member x = M_write_queue \<longrightarrow> acc_locked x) \<and>
    (\<forall>h'. \<not> race_on hm a p fb lim l M_write_queue h h')"
proof -
  have eq: "new_session (session_socket (life_session l)) (session_managed (life_session l)) = life_session l"
    by (simp add: new_session_def)
  have locked: "acc_locked x" if "x \<in> set (tr_accesses (activity_trace hm a p fb lim l g))" "acc_member x = M_write_queue" for x g
    using activity_extends [OF assms(1), of l a p fb lim g] that by (auto simp: extends_def begin_trace_def)
  have "\<not> race_on hm a p fb lim l M_write_queue h h'" for h'
    using locked by (auto simp: race_on_def conflict_def)
  with locked activity_extends [OF assms(1), of l a p fb lim h] show ?thesis
    unfolding assms(2) by (auto simp: extends_def begin_trace_def socket_view_def eq case_prod_beta comp_def)
qed

text \<open>A session with a heartbeat, whose timer has expired while the read of a frame size is pending.\<close>

definition heartbeat_session :: "(unit, unit, byte list \<times> byte list) session" where
  "heartbeat_session = new_session ((set_heartbeat_timeout 2 (set_max_message_size 64 (new_tcp_socket ([], []))))
     \<lparr>heartbeat_timer := True, write_queue := [\<lparr>pw_head = [1], pw_body = [], pw_handler = None\<rparr>, \<lparr>pw_head = [2], pw_body = [], pw_handler = None\<rparr>]\<rparr>) True"

definition heartbeat_due :: "(unit, unit, byte list \<times> byte list) life" where
  "heartbeat_due = life_start heartbeat_session [(Heartbeat_timer, Expired)]"

definition silent_program :: "(unit, unit, byte list \<times> byte list) recorded_handler" where
  "silent_program mid data = skip"

lemma silent_program_disciplined: "handler_disciplined silent_program"
  using behaves_skip by (simp add: handler_disciplined_def silent_program_def behaves_untraced [OF behaves_skip])

lemma heartbeat_session_simps:
  "heartbeat_timeout (session_socket heartbeat_session) = 2" "heartbeat_timer (session_socket heartbeat_session)"
  "\<not> heartbeat_sent (session_socket heartbeat_session)" "length (write_queue (session_socket heartbeat_session)) = 2"
  "write_queue (session_socket heartbeat_session) \<noteq> []" "max_message_size (session_socket heartbeat_session) = 64"
  "idle_timeout (session_socket heartbeat_session) = 0"
  by (simp_all add: heartbeat_session_def set_heartbeat_timeout_def set_max_message_size_def new_tcp_socket_def)

lemma heartbeat_due_simps:
  "life_reads heartbeat_due = [(8, After_frame_size)]" "life_waits heartbeat_due = [(Heartbeat_timer, Expired)]"
  "life_writes heartbeat_due = 1" "session_socket (life_session heartbeat_due) = session_socket heartbeat_session"
  by (simp_all add: heartbeat_due_def life_start_def heartbeat_session_simps run_start_def session_start_def read_frame_size_def
      on_socket_def async_read_def advance_def)

theorem write_queue_never_raced_witness:
  "\<not> race_on silent_program pipe_asio little_platform flat_fb 100 heartbeat_due M_write_queue
     (Write_completion False) (Timer_completion Heartbeat_timer)"
  using write_queue_never_raced [OF silent_program_disciplined refl] by blast

text \<open>C23: nothing but the write queue is protected, and the handlers run on several threads without a strand.
  When a read completes while the heartbeat timer has expired, the two handlers race on
  \<^verbatim>\<open>heartbeat_sent_\<close>, and when no ping is outstanding also on the timer object, which both re-arm; and
  when that read goes on to the next one while a write completes with another behind it, or an owner
  writes to the idle socket, both start an operation on the stream.\<close>

theorem handlers_race_without_strand:
  assumes "handler_disciplined hm" and "(n, k) \<in> set (life_reads l)" and "length data = n"
    and "sock = session_socket (life_session l)" and "reads = Read_completion n k False data"
    and "next_read \<longleftrightarrow> (\<exists>n' k'. Async_read_start n' (Read_done k') \<in>
      set (socket_calls (snd (session_read_done (handler_of hm) a p fb lim k False data (life_session l)))))"
  shows "((Heartbeat_timer, Expired) \<in> set (life_waits l) \<and> heartbeat_timeout sock \<noteq> 0 \<longrightarrow>
      race_on hm a p fb lim l M_heartbeat_sent reads (Timer_completion Heartbeat_timer) \<and>
      (\<not> heartbeat_sent sock \<and> heartbeat_timer sock \<longrightarrow>
        race_on hm a p fb lim l M_heartbeat_timer reads (Timer_completion Heartbeat_timer))) \<and>
    (next_read \<and> life_writes l \<noteq> 0 \<and> length (write_queue sock) > 1 \<longrightarrow>
      race_on hm a p fb lim l M_stream reads (Write_completion error)) \<and>
    (next_read \<and> life_registered l \<and> write_queue sock = [] \<longrightarrow>
      race_on hm a p fb lim l M_stream reads (Write_request head body handler))"
proof (intro conjI impI)
  have reads: "ready l reads" using assms(2,3,5) by simp
  have stream: "race_on hm a p fb lim l M_stream reads h'"
    if "next_read" "ready l h'" "Async_write_start head' body' \<in>
      set (socket_calls (snd (activity_model (handler_of hm) a p fb lim h' (life_session l))))" for h' head' body'
  proof -
    obtain n' k' where "Async_read_start n' (Read_done k') \<in>
        set (socket_calls (snd (activity_model (handler_of hm) a p fb lim reads (life_session l))))"
      using \<open>next_read\<close> assms(5,6) by auto
    from calls_race [OF assms(1) reads that(2) this that(3)] show ?thesis by simp
  qed
  {
    assume due: "(Heartbeat_timer, Expired) \<in> set (life_waits l) \<and> heartbeat_timeout sock \<noteq> 0"
    then have timer: "ready l (Timer_completion Heartbeat_timer)" by simp
    show "race_on hm a p fb lim l M_heartbeat_sent reads (Timer_completion Heartbeat_timer)"
      by (rule raceI [OF reads timer, where w = False])
         (use assms(1,4,5) due in \<open>simp_all add: activity_trace_def read_touches_heartbeat heartbeat_touches\<close>)
    assume "\<not> heartbeat_sent sock \<and> heartbeat_timer sock"
    with due show "race_on hm a p fb lim l M_heartbeat_timer reads (Timer_completion Heartbeat_timer)"
      unfolding assms(4,5) by (intro calls_race [OF assms(1) reads [unfolded assms(5)] timer read_rearms_heartbeat heartbeat_rearms]) simp_all
  }
  {
    assume w: "next_read \<and> life_writes l \<noteq> 0 \<and> length (write_queue sock) > 1"
    then obtain u v ws where "write_queue sock = u # v # ws" by (cases "write_queue sock" rule: remdups_adj.cases) auto
    with w assms(4) show "race_on hm a p fb lim l M_stream reads (Write_completion error)"
      by (intro stream [OF _ _ write_completion_writes]) simp_all
  }
  assume w: "next_read \<and> life_registered l \<and> write_queue sock = []"
  then have "Async_write_start head body \<in>
      set (socket_calls (snd (activity_model (handler_of hm) a p fb lim (Write_request head body handler) (life_session l))))"
    using assms(4) by (auto simp: on_socket_def async_write2_def async_write_locked_def write_next_def)
  with w show "race_on hm a p fb lim l M_stream reads (Write_request head body handler)"
    by (intro stream) simp_all
qed

theorem handlers_race_without_strand_witness:
  "race_on silent_program pipe_asio little_platform flat_fb 100 heartbeat_due M_heartbeat_sent
     (Read_completion 8 After_frame_size False (replicate 8 0)) (Timer_completion Heartbeat_timer) \<and>
   race_on silent_program pipe_asio little_platform flat_fb 100 heartbeat_due M_stream
     (Read_completion 8 After_frame_size False (replicate 8 0)) (Write_completion False)"
proof -
  have read: "(8, After_frame_size) \<in> set (life_reads heartbeat_due)" by (simp add: heartbeat_due_simps)
  have data: "length (replicate 8 (0 :: byte)) = 8" by simp
  have size: "unat (from_little little_platform (object_value (native_order little_platform) (replicate 8 0))) = 0"
    by code_simp
  show ?thesis
    using handlers_race_without_strand [OF silent_program_disciplined read data refl refl refl,
        where a = pipe_asio and p = little_platform and fb = flat_fb and lim = 100 and error = False]
    by (auto simp: heartbeat_due_simps heartbeat_session_simps size session_read_done_def on_socket_def on_read_done_def
        reset_activity_timers_def reset_timer_eqs run_cont.simps read_header_def async_read_def Let_def case_prod_beta)
qed

end
