(* ===== verification/Session_Manager.thy ===== *)
theory Session_Manager
  imports Session
begin

text \<open>
  \<^verbatim>\<open>sl::session_manager\<close> of \<^verbatim>\<open>src/connection/session_manager.hpp\<close> and \<^verbatim>\<open>session_manager.cpp\<close>: the
  registry of live sessions, the per-address connection counts, admission control and the hooks on
  connect and disconnect. Sessions are objects on a heap, named by their address (\<open>sid\<close>); the manager
  reaches them only through the operations of \<open>session_ops\<close>, as the code does through the abstract
  classes.
\<close>

section \<open>The sessions that a manager owns\<close>

type_synonym sid = nat

text \<open>The lambdas that the manager passes to its sessions, with what they captured: the session, and for
  \<^verbatim>\<open>boost_session_manager::do_connect\<close> the reconnect state.\<close>

datatype 'r manager_callback =
    Server_handshaken sid
  | Client_connected sid
  | Client_handshaken sid
  | Dial_connected sid 'r
  | Dial_handshaken sid 'r

record ('s, 'k, 'c) session_ops =
  so_socket :: "'s socket_ops"
  so_async_handshake :: "'s \<Rightarrow> handshake_type \<Rightarrow> 'k \<Rightarrow> 's \<times> 'c list"
  so_async_connect :: "'s \<Rightarrow> string \<Rightarrow> string \<Rightarrow> 'k \<Rightarrow> 's \<times> 'c list"
  so_start :: "'s \<Rightarrow> 's \<times> 'c list"

text \<open>The users' \<^verbatim>\<open>std::function\<close> callbacks are named by values of type \<open>'f\<close>.\<close>

record ('s, 'f) manager =
  mgr_idle_timeout :: duration
  mgr_heartbeat_timeout :: duration
  mgr_handshake_timeout :: duration
  mgr_max_message_size :: size_t
  mgr_max_pending_writes :: size_t
  mgr_max_sessions :: size_t
  mgr_max_connections_per_ip :: size_t
  mgr_on_connect :: "'f option"
  mgr_on_disconnect :: "'f option"
  mgr_sessions :: "sid list"
  mgr_connections_per_ip :: "u32 \<rightharpoonup> size_t"
  objects :: "sid \<Rightarrow> 's"

datatype ('f, 'c) manager_effect =
    Session_call sid 'c
  | Close_session sid
  | Run_callback 'f sid
  | Timer_started duration
  | Accept_started
  | Acceptor_closed

definition new_manager :: "(sid \<Rightarrow> 's) \<Rightarrow> ('s, 'f) manager" where
  "new_manager objs =
     \<lparr>mgr_idle_timeout = 0, mgr_heartbeat_timeout = 0, mgr_handshake_timeout = 0, mgr_max_message_size = 0,
      mgr_max_pending_writes = 0, mgr_max_sessions = 0, mgr_max_connections_per_ip = 0,
      mgr_on_connect = None, mgr_on_disconnect = None, mgr_sessions = [], mgr_connections_per_ip = Map.empty,
      objects = objs\<rparr>"

section \<open>Configuration\<close>

definition manager_set_idle_timeout :: "duration \<Rightarrow> ('s, 'f, 'z) manager_scheme \<Rightarrow> ('s, 'f, 'z) manager_scheme" where
  "manager_set_idle_timeout timeout m = m\<lparr>mgr_idle_timeout := timeout\<rparr>"

definition manager_set_heartbeat_timeout :: "duration \<Rightarrow> ('s, 'f, 'z) manager_scheme \<Rightarrow> ('s, 'f, 'z) manager_scheme" where
  "manager_set_heartbeat_timeout timeout m = m\<lparr>mgr_heartbeat_timeout := timeout\<rparr>"

definition manager_set_handshake_timeout :: "duration \<Rightarrow> ('s, 'f, 'z) manager_scheme \<Rightarrow> ('s, 'f, 'z) manager_scheme" where
  "manager_set_handshake_timeout timeout m = m\<lparr>mgr_handshake_timeout := timeout\<rparr>"

definition set_max_sessions :: "size_t \<Rightarrow> ('s, 'f, 'z) manager_scheme \<Rightarrow> ('s, 'f, 'z) manager_scheme" where
  "set_max_sessions max_n m = m\<lparr>mgr_max_sessions := max_n\<rparr>"

definition set_max_connections_per_ip :: "size_t \<Rightarrow> ('s, 'f, 'z) manager_scheme \<Rightarrow> ('s, 'f, 'z) manager_scheme" where
  "set_max_connections_per_ip max_n m = m\<lparr>mgr_max_connections_per_ip := max_n\<rparr>"

definition manager_set_max_message_size :: "size_t \<Rightarrow> ('s, 'f, 'z) manager_scheme \<Rightarrow> ('s, 'f, 'z) manager_scheme" where
  "manager_set_max_message_size max_size m = m\<lparr>mgr_max_message_size := max_size\<rparr>"

definition manager_set_max_pending_writes :: "size_t \<Rightarrow> ('s, 'f, 'z) manager_scheme \<Rightarrow> ('s, 'f, 'z) manager_scheme" where
  "manager_set_max_pending_writes max_pending m = m\<lparr>mgr_max_pending_writes := max_pending\<rparr>"

definition on_connect :: "'f option \<Rightarrow> ('s, 'f, 'z) manager_scheme \<Rightarrow> ('s, 'f, 'z) manager_scheme" where
  "on_connect callback m = m\<lparr>mgr_on_connect := callback\<rparr>"

definition on_disconnect :: "'f option \<Rightarrow> ('s, 'f, 'z) manager_scheme \<Rightarrow> ('s, 'f, 'z) manager_scheme" where
  "on_disconnect callback m = m\<lparr>mgr_on_disconnect := callback\<rparr>"

definition apply_caps :: "'s socket_ops \<Rightarrow> ('s, 'f, 'z) manager_scheme \<Rightarrow> 's \<Rightarrow> 's" where
  "apply_caps ops m sess =
     (let sess = (if mgr_idle_timeout m \<noteq> 0 then op_set_idle_timeout ops (mgr_idle_timeout m) sess else sess);
          sess = (if mgr_heartbeat_timeout m \<noteq> 0 then op_set_heartbeat_timeout ops (mgr_heartbeat_timeout m) sess else sess);
          sess = (if mgr_handshake_timeout m \<noteq> 0 then op_set_handshake_timeout ops (mgr_handshake_timeout m) sess else sess);
          sess = (if mgr_max_message_size m \<noteq> 0 then op_set_max_message_size ops (mgr_max_message_size m) sess else sess);
          sess = (if mgr_max_pending_writes m \<noteq> 0 then op_set_max_pending_writes ops (mgr_max_pending_writes m) sess else sess)
      in sess)"

section \<open>Operations on sessions\<close>

definition update_object :: "sid \<Rightarrow> 's \<Rightarrow> ('s, 'f, 'z) manager_scheme \<Rightarrow> ('s, 'f, 'z) manager_scheme" where
  "update_object i s m = m\<lparr>objects := (objects m)(i := s)\<rparr>"

text \<open>A call on a session, and a user's callback when there is one. \<open>run\<close> is what the user's callbacks
  do to the program.\<close>

definition call_session ::
  "sid \<Rightarrow> ('s \<Rightarrow> 's \<times> 'c list) \<Rightarrow> ('s, 'f, 'z) manager_scheme \<Rightarrow>
   ('s, 'f, 'z) manager_scheme \<times> ('f, 'c) manager_effect list" where
  "call_session i f m = (let (s, calls) = f (objects m i) in (update_object i s m, map (Session_call i) calls))"

type_synonym ('s, 'f, 'c, 'z) manager_result =
  "unit outcome \<times> ('s, 'f, 'z) manager_scheme \<times> ('f, 'c) manager_effect list"

type_synonym ('s, 'f, 'c, 'z) user_callbacks =
  "'f \<Rightarrow> sid \<Rightarrow> ('s, 'f, 'z) manager_scheme \<Rightarrow> ('s, 'f, 'z) manager_scheme \<times> ('f, 'c) manager_effect list"

definition run_callback ::
  "('s, 'f, 'c, 'z) user_callbacks \<Rightarrow> 'f option \<Rightarrow> sid \<Rightarrow> ('s, 'f, 'z) manager_scheme \<Rightarrow>
   ('s, 'f, 'z) manager_scheme \<times> ('f, 'c) manager_effect list" where
  "run_callback run callback i m =
     (case callback of
        None \<Rightarrow> (m, [])
      | Some f \<Rightarrow> (let (m, effs) = run f i m in (m, Run_callback f i # effs)))"

definition register_and_start ::
  "('s, 'k, 'c) session_ops \<Rightarrow> ('s, 'f, 'c, 'z) user_callbacks \<Rightarrow> ('s, 'f, 'z) manager_scheme \<Rightarrow> sid \<Rightarrow>
   ('s, 'f, 'c, 'z) manager_result" where
  "register_and_start ops run m i =
     (let m = m\<lparr>mgr_sessions := mgr_sessions m @ [i]\<rparr> in
      case op_ipv4_address (so_socket ops) (objects m i) of
        Throw e \<Rightarrow> (Throw e, m, [])
      | Return ip \<Rightarrow>
          (let count = (case mgr_connections_per_ip m ip of None \<Rightarrow> 0 | Some n \<Rightarrow> n);
               m = m\<lparr>mgr_connections_per_ip := (mgr_connections_per_ip m)(ip \<mapsto> count + 1)\<rparr>;
               (m, effs) = run_callback run (mgr_on_connect m) i m;
               (m, effs') = call_session i (so_start ops) m
           in (Return (), m, effs @ effs')))"

definition can_ip_connect :: "('s, 'f, 'z) manager_scheme \<Rightarrow> u32 \<Rightarrow> bool" where
  "can_ip_connect m ip =
     (if mgr_max_sessions m \<noteq> 0 \<and> length (mgr_sessions m) \<ge> mgr_max_sessions m then False
      else if mgr_max_connections_per_ip m \<noteq> 0
      then (case mgr_connections_per_ip m ip of
              None \<Rightarrow> True
            | Some n \<Rightarrow> \<not> n \<ge> mgr_max_connections_per_ip m)
      else True)"

definition add_session ::
  "('s, 'r manager_callback, 'c) session_ops \<Rightarrow> ('s, 'f, 'z) manager_scheme \<Rightarrow> sid \<Rightarrow> ('s, 'f, 'c, 'z) manager_result" where
  "add_session ops m i =
     (case op_ipv4_address (so_socket ops) (objects m i) of
        Throw e \<Rightarrow> (Throw e, m, [])
      | Return ip \<Rightarrow>
          if \<not> can_ip_connect m ip
          then (Return (), update_object i (op_close (so_socket ops) (objects m i)) m, [Close_session i])
          else
            let m = update_object i (apply_caps (so_socket ops) m (objects m i)) m;
                (m, effs) = call_session i (\<lambda>s. so_async_handshake ops s Server_handshake (Server_handshaken i)) m
            in (Return (), m, effs))"

definition on_server_handshaken ::
  "('s, 'k, 'c) session_ops \<Rightarrow> ('s, 'f, 'c, 'z) user_callbacks \<Rightarrow> ('s, 'f, 'z) manager_scheme \<Rightarrow> sid \<Rightarrow> bool \<Rightarrow>
   ('s, 'f, 'c, 'z) manager_result" where
  "on_server_handshaken ops run m i valid = (if valid then register_and_start ops run m i else (Return (), m, []))"

definition manager_connect ::
  "('s, 'r manager_callback, 'c) session_ops \<Rightarrow> ('s, 'f, 'z) manager_scheme \<Rightarrow> sid \<Rightarrow> string \<Rightarrow> string \<Rightarrow>
   ('s, 'f, 'c, 'z) manager_result" where
  "manager_connect ops m i host service =
     (let m = update_object i (apply_caps (so_socket ops) m (objects m i)) m;
          (m, effs) = call_session i (\<lambda>s. so_async_connect ops s host service (Client_connected i)) m
      in (Return (), m, effs))"

definition on_client_connected ::
  "('s, 'r manager_callback, 'c) session_ops \<Rightarrow> ('s, 'f, 'z) manager_scheme \<Rightarrow> sid \<Rightarrow> bool \<Rightarrow> ('s, 'f, 'c, 'z) manager_result" where
  "on_client_connected ops m i connected =
     (if \<not> connected then (Return (), m, [])
      else
        let (m, effs) = call_session i (\<lambda>s. so_async_handshake ops s Client_handshake (Client_handshaken i)) m
        in (Return (), m, effs))"

definition on_client_handshaken ::
  "('s, 'k, 'c) session_ops \<Rightarrow> ('s, 'f, 'c, 'z) user_callbacks \<Rightarrow> ('s, 'f, 'z) manager_scheme \<Rightarrow> sid \<Rightarrow> bool \<Rightarrow>
   ('s, 'f, 'c, 'z) manager_result" where
  "on_client_handshaken ops run m i valid = (if valid then register_and_start ops run m i else (Return (), m, []))"

text \<open>\<^verbatim>\<open>on_session_removed\<close> is virtual: the argument \<open>removed_hook\<close>. The count is a \<^verbatim>\<open>std::size_t\<close>, so a
  decrement below zero would wrap.\<close>

definition remove_session ::
  "('s, 'k, 'c) session_ops \<Rightarrow> ('s, 'f, 'c, 'z) user_callbacks \<Rightarrow>
   (sid \<Rightarrow> ('s, 'f, 'z) manager_scheme \<Rightarrow> ('s, 'f, 'z) manager_scheme \<times> ('f, 'c) manager_effect list) \<Rightarrow>
   ('s, 'f, 'z) manager_scheme \<Rightarrow> sid \<Rightarrow> ('s, 'f, 'c, 'z) manager_result" where
  "remove_session ops run removed_hook m i =
     (if i \<notin> set (mgr_sessions m) then (Return (), m, [])
      else
        let m = m\<lparr>mgr_sessions := remove1 i (mgr_sessions m)\<rparr> in
        case op_ipv4_address (so_socket ops) (objects m i) of
          Throw e \<Rightarrow> (Throw e, m, [])
        | Return ip \<Rightarrow>
            (let m = (case mgr_connections_per_ip m ip of
                        None \<Rightarrow> m
                      | Some n \<Rightarrow>
                          (let n' = (if n = 0 then 2 ^ 64 - 1 else n - 1)
                           in m\<lparr>mgr_connections_per_ip :=
                                  (mgr_connections_per_ip m)(ip := if n' = 0 then None else Some n')\<rparr>));
                 (m, effs) = run_callback run (mgr_on_disconnect m) i m;
                 (m, effs') = removed_hook i m
             in (Return (), m, effs @ effs')))"

definition on_session_removed :: "sid \<Rightarrow> ('s, 'f, 'z) manager_scheme \<Rightarrow> ('s, 'f, 'z) manager_scheme \<times> ('f, 'c) manager_effect list" where
  "on_session_removed i m = (m, [])"

fun for_each_session ::
  "(sid \<Rightarrow> ('s, 'f, 'z) manager_scheme \<Rightarrow> ('s, 'f, 'z) manager_scheme \<times> ('f, 'c) manager_effect list) \<Rightarrow> sid list \<Rightarrow>
   ('s, 'f, 'z) manager_scheme \<Rightarrow> ('s, 'f, 'z) manager_scheme \<times> ('f, 'c) manager_effect list" where
  "for_each_session fn [] m = (m, [])"
| "for_each_session fn (i # is) m =
     (let (m, effs) = fn i m; (m, effs') = for_each_session fn is m in (m, effs @ effs'))"

definition session_count :: "('s, 'f, 'z) manager_scheme \<Rightarrow> size_t" where
  "session_count m = length (mgr_sessions m)"

definition manager_stop ::
  "('s, 'k, 'c) session_ops \<Rightarrow> ('s, 'f, 'z) manager_scheme \<Rightarrow> ('s, 'f, 'z) manager_scheme \<times> ('f, 'c) manager_effect list" where
  "manager_stop ops m =
     (let (m, effs) = for_each_session
            (\<lambda>i m. (update_object i (op_close (so_socket ops) (objects m i)) m, [Close_session i])) (mgr_sessions m) m
      in (m\<lparr>mgr_sessions := [], mgr_connections_per_ip := Map.empty\<rparr>, effs))"

section \<open>The contract of a managed session\<close>

locale managed_session = managed_socket "so_socket ops" for ops :: "('s, 'r manager_callback, 'c) session_ops" +
  assumes ip_handshake:
      "op_ipv4_address (so_socket ops) (fst (so_async_handshake ops s t k)) = op_ipv4_address (so_socket ops) s"
    and ip_connect:
      "op_ipv4_address (so_socket ops) (fst (so_async_connect ops s host service k)) = op_ipv4_address (so_socket ops) s"
    and ip_start: "op_ipv4_address (so_socket ops) (fst (so_start ops s)) = op_ipv4_address (so_socket ops) s"

text \<open>Sessions over \<^verbatim>\<open>boost_tcp_socket\<close>.\<close>

definition on_session_socket ::
  "((('u, 'm) callback, 'x) tcp_socket \<Rightarrow> (('u, 'm) callback, 'x) tcp_socket) \<Rightarrow> ('u, 'm, 'x) session \<Rightarrow> ('u, 'm, 'x) session" where
  "on_session_socket f s = s\<lparr>session_socket := f (session_socket s)\<rparr>"

definition session_socket_ops :: "'x asio \<Rightarrow> ('u, 'm, 'x) session socket_ops" where
  "session_socket_ops a =
     \<lparr>op_set_idle_timeout = (\<lambda>t. on_session_socket (set_idle_timeout t)),
      op_set_heartbeat_timeout = (\<lambda>t. on_session_socket (set_heartbeat_timeout t)),
      op_set_handshake_timeout = (\<lambda>t. on_session_socket (set_handshake_timeout t)),
      op_set_max_message_size = (\<lambda>n. on_session_socket (set_max_message_size n)),
      op_max_message_size = (\<lambda>s. max_message_size (session_socket s)),
      op_set_max_pending_writes = (\<lambda>n. on_session_socket (set_max_pending_writes n)),
      op_max_pending_writes = (\<lambda>s. max_pending_writes (session_socket s)),
      op_read = (\<lambda>s buffer. let (ok, buffer', sock) = tcp_read a (session_socket s) buffer
                            in (ok, buffer', s\<lparr>session_socket := sock\<rparr>)),
      op_write = (\<lambda>s buffer. let (ok, sock) = tcp_write a (session_socket s) buffer in (ok, s\<lparr>session_socket := sock\<rparr>)),
      op_close = (\<lambda>s. fst (session_stop a s)),
      op_ipv4_address = (\<lambda>s. ipv4_address (session_socket s))\<rparr>"

definition tcp_session_ops :: "'x asio \<Rightarrow> (('u, 'm, 'x) session, 'm, ('u, 'm) session_effect) session_ops" where
  "tcp_session_ops a =
     \<lparr>so_socket = session_socket_ops a,
      so_async_handshake = (\<lambda>s t k. session_async_handshake s t (Owner_callback k)),
      so_async_connect = (\<lambda>s host service k. session_async_connect s host service (Owner_callback k)),
      so_start = session_start\<rparr>"

lemma ip_activity [simp]: "ipv4_address (fst (reset_activity_timers s)) = ipv4_address s"
  by (auto simp: tcp_timer_defs Let_def ipv4_address_def)

interpretation tcp_session: managed_session
  "tcp_session_ops a :: (('u, 'r manager_callback, 'x) session, 'r manager_callback, ('u, 'r manager_callback) session_effect) session_ops"
  for a
proof (unfold_locales, goal_cases)
  case (9 s t k)
  show ?case
    by (simp add: tcp_session_ops_def session_socket_ops_def session_async_handshake_def on_socket_def async_handshake_def
        reset_handshake_timer_def ipv4_address_def Let_def)
next
  case (10 s host service k)
  show ?case
    using ip_activity [of "session_socket s"]
    by (simp add: tcp_session_ops_def session_socket_ops_def session_async_connect_def on_socket_def async_connect_def
        ipv4_address_def Let_def case_prod_beta)
next
  case (11 s)
  show ?case
    by (simp add: tcp_session_ops_def session_socket_ops_def session_start_def read_frame_size_def on_socket_def
        async_read_def)
qed (simp_all add: tcp_session_ops_def session_socket_ops_def on_session_socket_def session_stop_def on_socket_def
    set_idle_timeout_def set_heartbeat_timeout_def set_handshake_timeout_def set_max_message_size_def
    set_max_pending_writes_def close_socket_def ipv4_address_def)

section \<open>The registry invariant\<close>

text \<open>The registered sessions whose peer has a given address.\<close>

definition counted :: "('s, 'k, 'c) session_ops \<Rightarrow> ('s, 'f, 'z) manager_scheme \<Rightarrow> u32 \<Rightarrow> nat" where
  "counted ops m ip =
     length (filter (\<lambda>i. op_ipv4_address (so_socket ops) (objects m i) = Return ip) (mgr_sessions m))"

text \<open>The table of counts is exactly the number of registered sessions per address, without zero entries.\<close>

definition manager_inv :: "('s, 'k, 'c) session_ops \<Rightarrow> ('s, 'f, 'z) manager_scheme \<Rightarrow> bool" where
  "manager_inv ops m \<longleftrightarrow>
     (\<forall>ip. mgr_connections_per_ip m ip = (if counted ops m ip = 0 then None else Some (counted ops m ip)))"

text \<open>What the registry relies on in users' callbacks: they leave the registry and the peers' addresses
  alone.\<close>

definition same_registry ::
  "('s, 'k, 'c) session_ops \<Rightarrow> ('s, 'f, 'z) manager_scheme \<Rightarrow> ('s, 'f, 'z) manager_scheme \<Rightarrow> bool" where
  "same_registry ops m m' \<longleftrightarrow>
     mgr_sessions m' = mgr_sessions m \<and> mgr_connections_per_ip m' = mgr_connections_per_ip m \<and>
     (\<forall>i \<in> set (mgr_sessions m). op_ipv4_address (so_socket ops) (objects m' i) = op_ipv4_address (so_socket ops) (objects m i))"

definition callbacks_ok :: "('s, 'k, 'c) session_ops \<Rightarrow> ('s, 'f, 'c, 'z) user_callbacks \<Rightarrow> bool" where
  "callbacks_ok ops run \<longleftrightarrow> (\<forall>f i m. same_registry ops m (fst (run f i m)))"

definition hook_ok ::
  "('s, 'k, 'c) session_ops \<Rightarrow>
   (sid \<Rightarrow> ('s, 'f, 'z) manager_scheme \<Rightarrow> ('s, 'f, 'z) manager_scheme \<times> ('f, 'c) manager_effect list) \<Rightarrow> bool" where
  "hook_ok ops removed_hook \<longleftrightarrow> (\<forall>i m. same_registry ops m (fst (removed_hook i m)))"

lemma same_registry_refl [simp]: "same_registry ops m m"
  by (simp add: same_registry_def)

lemma same_registry_trans:
  "same_registry ops m m' \<Longrightarrow> same_registry ops m' m'' \<Longrightarrow> same_registry ops m m''"
  by (simp add: same_registry_def)

lemma same_registry_counted: "same_registry ops m m' \<Longrightarrow> counted ops m' ip = counted ops m ip"
  by (auto simp: same_registry_def counted_def intro!: arg_cong [where f = length] filter_cong)

lemma same_registry_inv: "same_registry ops m m' \<Longrightarrow> manager_inv ops m \<Longrightarrow> manager_inv ops m'"
  using same_registry_counted [of ops m m'] by (simp add: manager_inv_def same_registry_def)

lemma same_registry_update:
  "i \<in> set (mgr_sessions m) \<longrightarrow> op_ipv4_address (so_socket ops) s = op_ipv4_address (so_socket ops) (objects m i) \<Longrightarrow>
     same_registry ops m (update_object i s m)"
  by (auto simp: same_registry_def update_object_def)

lemma same_registry_call:
  "op_ipv4_address (so_socket ops) (fst (f (objects m i))) = op_ipv4_address (so_socket ops) (objects m i) \<Longrightarrow>
     same_registry ops m (fst (call_session i f m))"
  by (simp add: call_session_def Let_def case_prod_beta same_registry_update)

lemma same_registry_callback: "callbacks_ok ops run \<Longrightarrow> same_registry ops m (fst (run_callback run cb i m))"
  by (auto simp: run_callback_def callbacks_ok_def Let_def case_prod_beta split: option.splits)

lemma same_registry_hook: "hook_ok ops removed_hook \<Longrightarrow> same_registry ops m (fst (removed_hook i m))"
  by (simp add: hook_ok_def)

lemma same_registry_chain:
  assumes "call_session i f m' = (m'', effs)" and "same_registry ops m m'"
    and "op_ipv4_address (so_socket ops) (fst (f (objects m' i))) = op_ipv4_address (so_socket ops) (objects m' i)"
  shows "same_registry ops m m''"
  using same_registry_trans [OF assms(2) same_registry_call [of ops f m' i]] assms(1,3) by simp

lemma counted_connections [simp]: "counted ops (m\<lparr>mgr_connections_per_ip := c\<rparr>) ip = counted ops m ip"
  by (simp add: counted_def)

lemma enrol_inv:
  assumes "manager_inv ops m" and "op_ipv4_address (so_socket ops) (objects m i) = Return ip"
    and "count = (case mgr_connections_per_ip m ip of None \<Rightarrow> 0 | Some n \<Rightarrow> n)"
  shows "manager_inv ops (m\<lparr>mgr_sessions := mgr_sessions m @ [i],
                           mgr_connections_per_ip := (mgr_connections_per_ip m)(ip \<mapsto> count + 1)\<rparr>)"
  using assms by (auto simp: manager_inv_def counted_def)

lemma enrol_unknown_inv:
  assumes "manager_inv ops m" and "op_ipv4_address (so_socket ops) (objects m i) = Throw e"
  shows "manager_inv ops (m\<lparr>mgr_sessions := mgr_sessions m @ [i]\<rparr>)"
  using assms by (simp add: manager_inv_def counted_def)

lemma delist_counted:
  assumes "i \<in> set (mgr_sessions m)"
  shows "counted ops (m\<lparr>mgr_sessions := remove1 i (mgr_sessions m)\<rparr>) ip =
    counted ops m ip - of_bool (op_ipv4_address (so_socket ops) (objects m i) = Return ip)"
  using assms by (simp add: counted_def length_filter_remove1)

lemma delist_inv:
  assumes inv: "manager_inv ops m" and i: "i \<in> set (mgr_sessions m)"
    and ip: "op_ipv4_address (so_socket ops) (objects m i) = Return ip"
    and n: "mgr_connections_per_ip m ip = Some n"
  shows "0 < n" and "manager_inv ops (m\<lparr>mgr_sessions := remove1 i (mgr_sessions m),
      mgr_connections_per_ip := (mgr_connections_per_ip m)(ip := if n - 1 = 0 then None else Some (n - 1))\<rparr>)"
proof -
  have "n = counted ops m ip" "0 < n"
    using inv n by (auto simp: manager_inv_def split: if_splits)
  then show "0 < n" and "manager_inv ops (m\<lparr>mgr_sessions := remove1 i (mgr_sessions m),
      mgr_connections_per_ip := (mgr_connections_per_ip m)(ip := if n - 1 = 0 then None else Some (n - 1))\<rparr>)"
    using inv by (auto simp: manager_inv_def delist_counted [OF i] ip)
qed

lemma registered_counted:
  assumes "manager_inv ops m" and "i \<in> set (mgr_sessions m)"
    and "op_ipv4_address (so_socket ops) (objects m i) = Return ip"
  shows "mgr_connections_per_ip m ip \<noteq> None"
proof -
  have "0 < counted ops m ip"
    unfolding counted_def by (rule filter_mem_length_pos) (use assms in auto)
  with assms(1) show ?thesis by (simp add: manager_inv_def)
qed

context managed_session
begin

lemma ip_apply_caps [simp]:
  "op_ipv4_address (so_socket ops) (apply_caps (so_socket ops) m s) = op_ipv4_address (so_socket ops) s"
  by (simp add: apply_caps_def Let_def ip_simps)

lemma register_inv:
  assumes "manager_inv ops m" and "callbacks_ok ops run" and "register_and_start ops run m i = (out, m', effs)"
  shows "manager_inv ops m'"
proof (cases "op_ipv4_address (so_socket ops) (objects m i)")
  case (Throw e)
  with assms enrol_unknown_inv [OF assms(1) Throw] show ?thesis
    by (simp add: register_and_start_def)
next
  case (Return ip)
  let ?m1 = "m\<lparr>mgr_sessions := mgr_sessions m @ [i], mgr_connections_per_ip := (mgr_connections_per_ip m)
      (ip \<mapsto> (case mgr_connections_per_ip m ip of None \<Rightarrow> 0 | Some n \<Rightarrow> n) + 1)\<rparr>"
  let ?m2 = "fst (run_callback run (mgr_on_connect m) i ?m1)"
  have "m' = fst (call_session i (so_start ops) ?m2)"
    using assms(3) Return by (auto simp: register_and_start_def Let_def case_prod_beta)
  moreover have "same_registry ops ?m1 (fst (call_session i (so_start ops) ?m2))"
    by (rule same_registry_trans [OF same_registry_callback [OF assms(2)] same_registry_call]) (simp add: ip_start)
  ultimately show ?thesis
    using same_registry_inv [OF _ enrol_inv [OF assms(1) Return refl]] by simp
qed

lemma remove_inv:
  assumes "manager_inv ops m" and "callbacks_ok ops run" and "hook_ok ops removed_hook"
    and "remove_session ops run removed_hook m i = (out, m', effs)"
  shows "manager_inv ops m'"
proof (cases "i \<in> set (mgr_sessions m)")
  case False
  with assms show ?thesis by (simp add: remove_session_def)
next
  case i: True
  show ?thesis
  proof (cases "op_ipv4_address (so_socket ops) (objects m i)")
    case (Throw e)
    with i assms(1,4) delist_counted [OF i, of ops] show ?thesis
      by (auto simp: remove_session_def manager_inv_def counted_def)
  next
    case (Return ip)
    obtain n where n: "mgr_connections_per_ip m ip = Some n"
      using registered_counted [OF assms(1) i Return] by auto
    note delist = delist_inv [OF assms(1) i Return n]
    let ?m1 = "m\<lparr>mgr_sessions := remove1 i (mgr_sessions m),
      mgr_connections_per_ip := (mgr_connections_per_ip m)(ip := if n - 1 = 0 then None else Some (n - 1))\<rparr>"
    let ?m2 = "fst (run_callback run (mgr_on_disconnect m) i ?m1)"
    have "m' = fst (removed_hook i ?m2)"
      using assms(4) i Return n delist(1) by (auto simp: remove_session_def Let_def case_prod_beta)
    moreover have "same_registry ops ?m1 (fst (removed_hook i ?m2))"
      by (rule same_registry_trans [OF same_registry_callback [OF assms(2)] same_registry_hook [OF assms(3)]])
    ultimately show ?thesis
      using same_registry_inv [OF _ delist(2)] by simp
  qed
qed

lemma add_session_registry: "add_session ops m i = (out, m', effs) \<Longrightarrow> same_registry ops m m'"
  by (auto simp: add_session_def Let_def case_prod_beta ip_close ip_handshake
      intro!: same_registry_update elim!: same_registry_chain split: outcome.splits if_splits)

lemma manager_connect_registry: "manager_connect ops m i host service = (out, m', effs) \<Longrightarrow> same_registry ops m m'"
  by (auto simp: manager_connect_def Let_def case_prod_beta ip_connect
      intro!: same_registry_update elim!: same_registry_chain)

lemma on_client_connected_registry: "on_client_connected ops m i ok = (out, m', effs) \<Longrightarrow> same_registry ops m m'"
  by (auto simp: on_client_connected_def Let_def case_prod_beta ip_handshake
      elim!: same_registry_chain split: if_splits)

end

lemma stop_inv: "manager_inv ops (fst (manager_stop ops m))"
  by (simp add: manager_stop_def Let_def case_prod_beta manager_inv_def counted_def)

section \<open>The manager as a state machine\<close>

text \<open>
  Each step is one call into the manager or one of its completion handlers. The critical sections
  under \<^verbatim>\<open>sessions_mutex_\<close> are the only places that change the registry, so calls from several
  threads change it one after the other. \<open>session_active\<close> is everything a session does on its own; a
  registered session keeps its peer.
\<close>

inductive manager_step ::
  "('s, 'r manager_callback, 'c) session_ops \<Rightarrow> ('s, 'f, 'c, 'z) user_callbacks \<Rightarrow>
   (sid \<Rightarrow> ('s, 'f, 'z) manager_scheme \<Rightarrow> ('s, 'f, 'z) manager_scheme \<times> ('f, 'c) manager_effect list) \<Rightarrow>
   ('s, 'f, 'z) manager_scheme \<Rightarrow> ('s, 'f, 'z) manager_scheme \<Rightarrow> bool"
  for ops run removed_hook where
  added: "add_session ops m i = (out, m', effs) \<Longrightarrow> manager_step ops run removed_hook m m'"
| server_handshaken: "on_server_handshaken ops run m i ok = (out, m', effs) \<Longrightarrow> manager_step ops run removed_hook m m'"
| connecting: "manager_connect ops m i host service = (out, m', effs) \<Longrightarrow> manager_step ops run removed_hook m m'"
| connected: "on_client_connected ops m i ok = (out, m', effs) \<Longrightarrow> manager_step ops run removed_hook m m'"
| client_handshaken: "on_client_handshaken ops run m i ok = (out, m', effs) \<Longrightarrow> manager_step ops run removed_hook m m'"
| removed: "remove_session ops run removed_hook m i = (out, m', effs) \<Longrightarrow> manager_step ops run removed_hook m m'"
| stopped: "manager_stop ops m = (m', effs) \<Longrightarrow> manager_step ops run removed_hook m m'"
| session_active:
    "i \<in> set (mgr_sessions m) \<longrightarrow> op_ipv4_address (so_socket ops) s = op_ipv4_address (so_socket ops) (objects m i) \<Longrightarrow>
     manager_step ops run removed_hook m (update_object i s m)"
| max_sessions: "manager_step ops run removed_hook m (set_max_sessions n m)"
| max_per_ip: "manager_step ops run removed_hook m (set_max_connections_per_ip n m)"

lemma configure_registry:
  "same_registry ops m (set_max_sessions n m)" "same_registry ops m (set_max_connections_per_ip n m)"
  by (simp_all add: same_registry_def set_max_sessions_def set_max_connections_per_ip_def)

lemma on_session_removed_ok: "hook_ok ops on_session_removed"
  by (simp add: hook_ok_def on_session_removed_def)

context managed_session
begin

lemma manager_step_inv:
  assumes "manager_step ops run removed_hook m m'"
    and "manager_inv ops m" and "callbacks_ok ops run" and "hook_ok ops removed_hook"
  shows "manager_inv ops m'"
  using assms(1)
proof cases
  case (server_handshaken i ok out effs)
  with assms(2,3) register_inv show ?thesis by (auto simp: on_server_handshaken_def split: if_splits)
next
  case (client_handshaken i ok out effs)
  with assms(2,3) register_inv show ?thesis by (auto simp: on_client_handshaken_def split: if_splits)
next
  case (removed i out effs)
  with assms remove_inv show ?thesis by blast
next
  case (stopped effs)
  then show ?thesis using stop_inv [of ops m] by simp
qed (use assms(2) in \<open>auto intro: same_registry_inv add_session_registry manager_connect_registry
      on_client_connected_registry same_registry_update configure_registry\<close>)

end

interpretation tcp_manager: step_invariant
  "manager_step (tcp_session_ops a :: (('u, 'r manager_callback, 'x) session, 'r manager_callback, ('u, 'r manager_callback) session_effect) session_ops) run removed_hook"
  "\<lambda>m. callbacks_ok (tcp_session_ops a) run \<and> hook_ok (tcp_session_ops a) removed_hook \<and> manager_inv (tcp_session_ops a) m"
  for a run removed_hook
  by unfold_locales (blast intro: tcp_session.manager_step_inv)

lemma new_manager_inv: "manager_inv ops (new_manager objs)"
  by (simp add: manager_inv_def counted_def new_manager_def)

end
