(* ===== verification/Admission.thy ===== *)
theory Admission
  imports Session_Manager
begin

text \<open>
  What the session manager promises: exact per-address counts over every history of calls,
  deregistration exactly once, the limits on inbound sessions, and where these promises end
  (handshakes that overlap, and peers with an IPv6 address).
\<close>

section \<open>Lemmas\<close>

abbreviation peer_ip :: "('s, 'k, 'c) session_ops \<Rightarrow> ('s, 'f, 'z) manager_scheme \<Rightarrow> sid \<Rightarrow> u32 outcome" where
  "peer_ip ops m i \<equiv> op_ipv4_address (so_socket ops) (objects m i)"

lemma ip_of_tcp_session: "peer_ip (tcp_session_ops a) m i = ipv4_address (session_socket (objects m i))"
  by (simp add: tcp_session_ops_def session_socket_ops_def)

text \<open>The registry right after the critical section of \<^verbatim>\<open>register_and_start\<close>.\<close>

definition enrolled :: "sid \<Rightarrow> u32 \<Rightarrow> ('s, 'f, 'z) manager_scheme \<Rightarrow> ('s, 'f, 'z) manager_scheme" where
  "enrolled i ip m =
     m\<lparr>mgr_sessions := mgr_sessions m @ [i],
       mgr_connections_per_ip := (mgr_connections_per_ip m)
         (ip \<mapsto> (case mgr_connections_per_ip m ip of None \<Rightarrow> 0 | Some n \<Rightarrow> n) + 1)\<rparr>"

lemma counted_enrolled:
  "peer_ip ops m i = Return ip \<Longrightarrow> counted ops (enrolled i ip m) ip' = counted ops m ip' + of_bool (ip' = ip)"
  by (auto simp: counted_def enrolled_def)

lemma manager_inv_count:
  "manager_inv ops m \<Longrightarrow> (case mgr_connections_per_ip m ip of None \<Rightarrow> 0 | Some n \<Rightarrow> n) = counted ops m ip"
  by (simp add: manager_inv_def)

context managed_session
begin

lemma register_registry:
  assumes "callbacks_ok ops run" and "peer_ip ops m i = Return ip" and "register_and_start ops run m i = (out, m', effs)"
  shows "out = Return ()" and "same_registry ops (enrolled i ip m) m'"
proof -
  let ?m2 = "fst (run_callback run (mgr_on_connect m) i (enrolled i ip m))"
  have "out = Return () \<and> m' = fst (call_session i (so_start ops) ?m2)"
    using assms(2,3) by (auto simp: register_and_start_def enrolled_def Let_def case_prod_beta)
  moreover have "same_registry ops (enrolled i ip m) (fst (call_session i (so_start ops) ?m2))"
    by (rule same_registry_trans [OF same_registry_callback [OF assms(1)] same_registry_call]) (simp add: ip_start)
  ultimately show "out = Return ()" and "same_registry ops (enrolled i ip m) m'" by auto
qed

lemma remove_registry:
  assumes "callbacks_ok ops run" and "hook_ok ops removed_hook" and "manager_inv ops m"
    and "i \<in> set (mgr_sessions m)" and "peer_ip ops m i = Return ip"
    and "remove_session ops run removed_hook m i = (out, m', effs)"
  obtains n effs' where "mgr_connections_per_ip m ip = Some n" and "0 < n" and "out = Return ()"
    and "mgr_sessions m' = remove1 i (mgr_sessions m)"
    and "mgr_connections_per_ip m' = (mgr_connections_per_ip m)(ip := if n - 1 = 0 then None else Some (n - 1))"
    and "effs = (case mgr_on_disconnect m of None \<Rightarrow> [] | Some f \<Rightarrow> [Run_callback f i]) @ effs'"
proof -
  obtain n where n: "mgr_connections_per_ip m ip = Some n"
    using registered_counted [OF assms(3-5)] by auto
  note pos = delist_inv(1) [OF assms(3-5) n]
  let ?m1 = "m\<lparr>mgr_sessions := remove1 i (mgr_sessions m),
      mgr_connections_per_ip := (mgr_connections_per_ip m)(ip := if n - 1 = 0 then None else Some (n - 1))\<rparr>"
  let ?m2 = "fst (run_callback run (mgr_on_disconnect m) i ?m1)"
  have eq: "out = Return () \<and> m' = fst (removed_hook i ?m2) \<and>
      effs = snd (run_callback run (mgr_on_disconnect m) i ?m1) @ snd (removed_hook i ?m2)"
    using assms(4-6) n pos by (auto simp: remove_session_def Let_def case_prod_beta)
  moreover have "same_registry ops ?m1 (fst (removed_hook i ?m2))"
    by (rule same_registry_trans [OF same_registry_callback [OF assms(1)] same_registry_hook [OF assms(2)]])
  moreover have "\<exists>es. snd (run_callback run (mgr_on_disconnect m) i ?m1) =
      (case mgr_on_disconnect m of None \<Rightarrow> [] | Some f \<Rightarrow> [Run_callback f i]) @ es"
    by (auto simp: run_callback_def Let_def case_prod_beta split: option.split)
  ultimately show thesis
    using that [OF n pos] by (auto simp: same_registry_def)
qed

text \<open>Any number of sessions pass admission before the first of their handshakes completes.\<close>

lemma add_admitted:
  assumes "peer_ip ops m i = Return ip" and "can_ip_connect m ip" and "add_session ops m i = (out, m', effs)"
  shows "out = Return ()" and "same_registry ops m m'"
    and "mgr_max_sessions m' = mgr_max_sessions m \<and> mgr_max_connections_per_ip m' = mgr_max_connections_per_ip m"
    and "\<forall>j. op_ipv4_address (so_socket ops) (objects m' j) = op_ipv4_address (so_socket ops) (objects m j)"
    and "effs = map (Session_call i) (snd (so_async_handshake ops (apply_caps (so_socket ops) m (objects m i))
                  Server_handshake (Server_handshaken i)))"
proof -
  show "same_registry ops m m'" by (rule add_session_registry [OF assms(3)])
  show "out = Return ()"
    and "mgr_max_sessions m' = mgr_max_sessions m \<and> mgr_max_connections_per_ip m' = mgr_max_connections_per_ip m"
    and "\<forall>j. op_ipv4_address (so_socket ops) (objects m' j) = op_ipv4_address (so_socket ops) (objects m j)"
    and "effs = map (Session_call i) (snd (so_async_handshake ops (apply_caps (so_socket ops) m (objects m i))
                  Server_handshake (Server_handshaken i)))"
    using assms
    by (auto simp: add_session_def call_session_def update_object_def Let_def case_prod_beta ip_handshake)
qed

end

fun add_all ::
  "('s, 'r manager_callback, 'c) session_ops \<Rightarrow> sid list \<Rightarrow> ('s, 'f, 'z) manager_scheme \<Rightarrow>
   ('s, 'f, 'z) manager_scheme \<times> ('f, 'c) manager_effect list" where
  "add_all ops [] m = (m, [])"
| "add_all ops (i # is) m =
     (let (_, m, effs) = add_session ops m i; (m, effs') = add_all ops is m in (m, effs @ effs'))"

fun handshake_all ::
  "('s, 'r manager_callback, 'c) session_ops \<Rightarrow> ('s, 'f, 'c, 'z) user_callbacks \<Rightarrow> sid list \<Rightarrow>
   ('s, 'f, 'z) manager_scheme \<Rightarrow> ('s, 'f, 'z) manager_scheme" where
  "handshake_all ops run [] m = m"
| "handshake_all ops run (i # is) m =
     (let (_, m, _) = on_server_handshaken ops run m i True in handshake_all ops run is m)"

context managed_session
begin

lemma can_connect_empty: "mgr_sessions m = [] \<Longrightarrow> mgr_connections_per_ip m ip = None \<Longrightarrow> can_ip_connect m ip"
  by (auto simp: can_ip_connect_def)

lemma add_all_admitted:
  assumes "mgr_sessions m = []" and "mgr_connections_per_ip m = Map.empty"
    and "\<forall>i \<in> set is. peer_ip ops m i = Return ip" and "add_all ops is m = (m', effs)"
  shows "mgr_sessions m' = [] \<and> mgr_connections_per_ip m' = Map.empty \<and>
    mgr_max_sessions m' = mgr_max_sessions m \<and> mgr_max_connections_per_ip m' = mgr_max_connections_per_ip m \<and>
    (\<forall>j. peer_ip ops m' j = peer_ip ops m j) \<and> (\<forall>j. Close_session j \<notin> set effs)"
  using assms
proof (induction "is" arbitrary: m effs)
  case Nil
  then show ?case by simp
next
  case (Cons i "is")
  obtain out m1 effs1 where add: "add_session ops m i = (out, m1, effs1)" by (cases "add_session ops m i")
  obtain m2 effs2 where all2: "add_all ops is m1 = (m2, effs2)" by fastforce
  with Cons.prems(4) add have all: "add_all ops is m1 = (m', effs2)" and effs: "effs = effs1 @ effs2" by simp_all
  have "peer_ip ops m i = Return ip" using Cons.prems(3) by simp
  note add1 = add_admitted [OF this can_connect_empty [OF Cons.prems(1)] add]
  have "mgr_sessions m1 = []" "mgr_connections_per_ip m1 = Map.empty" "\<forall>i\<in>set is. peer_ip ops m1 i = Return ip"
    using add1(2,4) Cons.prems(1-3) by (simp_all add: same_registry_def)
  from Cons.IH [OF this all] add1 Cons.prems(1,2) effs show ?case by auto
qed

lemma handshake_all_sessions:
  assumes "callbacks_ok ops run" and "\<forall>f i m j. peer_ip ops (fst (run f i m)) j = peer_ip ops m j"
    and "\<forall>i \<in> set is. peer_ip ops m i = Return ip"
  shows "mgr_sessions (handshake_all ops run is m) = mgr_sessions m @ is"
  using assms(3)
proof (induction "is" arbitrary: m)
  case Nil
  then show ?case by simp
next
  case (Cons i "is")
  obtain out m1 effs1 where reg: "register_and_start ops run m i = (out, m1, effs1)"
    by (cases "register_and_start ops run m i")
  have ip: "peer_ip ops m i = Return ip" using Cons.prems by simp
  note reg1 = register_registry [OF assms(1) ip reg]
  have "peer_ip ops m1 j = peer_ip ops m j" for j
    using reg ip assms(2)
    by (auto simp: register_and_start_def call_session_def update_object_def run_callback_def Let_def case_prod_beta ip_start
        split: option.splits)
  with Cons.prems Cons.IH [of m1] reg1(2) reg show ?case
    by (simp add: on_server_handshaken_def same_registry_def enrolled_def)
qed

end

section \<open>Inbound connections one after the other\<close>

text \<open>
  Each inbound connection is either refused by \<^verbatim>\<open>add_session\<close>, or its handshake completes before the
  next connection arrives; sessions are active, removed, and the manager is stopped in between.
\<close>

inductive inbound_step ::
  "('s, 'r manager_callback, 'c) session_ops \<Rightarrow> ('s, 'f, 'c, 'z) user_callbacks \<Rightarrow>
   (sid \<Rightarrow> ('s, 'f, 'z) manager_scheme \<Rightarrow> ('s, 'f, 'z) manager_scheme \<times> ('f, 'c) manager_effect list) \<Rightarrow>
   ('s, 'f, 'z) manager_scheme \<Rightarrow> ('s, 'f, 'z) manager_scheme \<Rightarrow> bool"
  for ops run removed_hook where
  refused: "add_session ops m i = (out, m', effs) \<Longrightarrow> \<not> returns out \<or> Close_session i \<in> set effs \<Longrightarrow>
    inbound_step ops run removed_hook m m'"
| served: "add_session ops m i = (out1, m1, effs1) \<Longrightarrow> returns out1 \<Longrightarrow> Close_session i \<notin> set effs1 \<Longrightarrow>
    on_server_handshaken ops run m1 i ok = (out, m', effs) \<Longrightarrow> inbound_step ops run removed_hook m m'"
| removed: "remove_session ops run removed_hook m i = (out, m', effs) \<Longrightarrow> inbound_step ops run removed_hook m m'"
| stopped: "manager_stop ops m = (m', effs) \<Longrightarrow> inbound_step ops run removed_hook m m'"
| active: "i \<in> set (mgr_sessions m) \<longrightarrow> op_ipv4_address (so_socket ops) s = op_ipv4_address (so_socket ops) (objects m i) \<Longrightarrow>
    inbound_step ops run removed_hook m (update_object i s m)"

definition limits :: "('s, 'f, 'z) manager_scheme \<Rightarrow> size_t \<times> size_t" where
  "limits m = (mgr_max_sessions m, mgr_max_connections_per_ip m)"

text \<open>The callbacks do not reconfigure the manager.\<close>

definition limits_kept ::
  "('s, 'f, 'c, 'z) user_callbacks \<Rightarrow>
   (sid \<Rightarrow> ('s, 'f, 'z) manager_scheme \<Rightarrow> ('s, 'f, 'z) manager_scheme \<times> ('f, 'c) manager_effect list) \<Rightarrow> bool" where
  "limits_kept run removed_hook \<longleftrightarrow>
     (\<forall>f i m. limits (fst (run f i m)) = limits m) \<and> (\<forall>i m. limits (fst (removed_hook i m)) = limits m)"

lemma limits_simps [simp]:
  "limits (update_object i s m) = limits m" "limits (m\<lparr>mgr_sessions := x\<rparr>) = limits m"
  "limits (m\<lparr>mgr_connections_per_ip := y\<rparr>) = limits m" "limits (fst (call_session i f m)) = limits m"
  by (simp_all add: limits_def update_object_def call_session_def Let_def case_prod_beta)

lemma limits_callback: "limits_kept run removed_hook \<Longrightarrow> limits (fst (run_callback run cb i m)) = limits m"
  by (simp add: run_callback_def limits_kept_def Let_def case_prod_beta split: option.split)

lemma limits_operations:
  assumes "limits_kept run removed_hook"
  shows "limits (fst (snd (register_and_start ops run m i))) = limits m"
    and "limits (fst (snd (add_session ops m i))) = limits m"
    and "limits (fst (snd (remove_session ops run removed_hook m i))) = limits m"
  using assms
  by (simp_all add: register_and_start_def add_session_def remove_session_def limits_callback [OF assms] Let_def case_prod_beta
      split: outcome.split option.split) (simp_all add: limits_kept_def limits_callback [OF assms] split: option.split)

lemma limits_close_all:
  "limits (fst (for_each_session (\<lambda>i m. (update_object i (f (objects m i)) m, g i)) is m)) = limits m"
  by (induction "is" arbitrary: m) (simp_all add: Let_def case_prod_beta)

definition within_limits :: "('s, 'k, 'c) session_ops \<Rightarrow> ('s, 'f, 'z) manager_scheme \<Rightarrow> bool" where
  "within_limits ops m \<longleftrightarrow> manager_inv ops m \<and>
     (mgr_max_sessions m \<noteq> 0 \<longrightarrow> session_count m \<le> mgr_max_sessions m) \<and>
     (mgr_max_connections_per_ip m \<noteq> 0 \<longrightarrow> (\<forall>ip. counted ops m ip \<le> mgr_max_connections_per_ip m))"

lemma within_limits_mono:
  assumes "within_limits ops m" and "manager_inv ops m'" and "limits m' = limits m"
    and "session_count m' \<le> session_count m" and "\<And>ip. counted ops m' ip \<le> counted ops m ip"
  shows "within_limits ops m'"
  using assms by (auto simp: within_limits_def limits_def intro: order_trans)

lemma same_registry_limits:
  assumes "within_limits ops m" and "same_registry ops m m'" and "limits m' = limits m"
  shows "within_limits ops m'"
proof (rule within_limits_mono [OF assms(1) same_registry_inv [OF assms(2)] assms(3)])
  show "manager_inv ops m" using assms(1) by (simp add: within_limits_def)
qed (use assms(2) same_registry_counted [OF assms(2)] in \<open>simp_all add: same_registry_def session_count_def\<close>)

context managed_session
begin

lemma remove_shrinks:
  assumes "callbacks_ok ops run" and "hook_ok ops removed_hook"
    and "remove_session ops run removed_hook m i = (out, m', effs)"
  shows "session_count m' \<le> session_count m" and "counted ops m' ip \<le> counted ops m ip"
proof -
  have "\<exists>c. same_registry ops (m\<lparr>mgr_sessions := remove1 i (mgr_sessions m), mgr_connections_per_ip := c\<rparr>) m'"
    if i: "i \<in> set (mgr_sessions m)"
  proof (cases "peer_ip ops m i")
    case (Throw e)
    with i assms(3) show ?thesis
      by (intro exI [of _ "mgr_connections_per_ip m"]) (auto simp: remove_session_def same_registry_def)
  next
    case (Return x)
    let ?m0 = "m\<lparr>mgr_sessions := remove1 i (mgr_sessions m)\<rparr>"
    let ?m1 = "case mgr_connections_per_ip m x of None \<Rightarrow> ?m0
      | Some n \<Rightarrow> (let n' = (if n = 0 then 2 ^ 64 - 1 else n - 1)
                   in ?m0\<lparr>mgr_connections_per_ip := (mgr_connections_per_ip m)(x := if n' = 0 then None else Some n')\<rparr>)"
    let ?m2 = "fst (run_callback run (mgr_on_disconnect ?m1) i ?m1)"
    have "m' = fst (removed_hook i ?m2)"
      using i Return assms(3) by (cases "mgr_connections_per_ip m x") (auto simp: remove_session_def Let_def case_prod_beta)
    moreover have "same_registry ops ?m1 (fst (removed_hook i ?m2))"
      by (rule same_registry_trans [OF same_registry_callback [OF assms(1)] same_registry_hook [OF assms(2)]])
    moreover have "\<exists>c. ?m1 = ?m0\<lparr>mgr_connections_per_ip := c\<rparr>"
      by (cases "mgr_connections_per_ip m x") (auto simp: Let_def intro: exI [of _ "mgr_connections_per_ip m"])
    ultimately show ?thesis by auto
  qed
  then have "session_count m' \<le> session_count m \<and> counted ops m' ip \<le> counted ops m ip"
  proof (cases "i \<in> set (mgr_sessions m)")
    case True
    then obtain c where same: "same_registry ops (m\<lparr>mgr_sessions := remove1 i (mgr_sessions m), mgr_connections_per_ip := c\<rparr>) m'"
      using \<open>i \<in> set (mgr_sessions m) \<Longrightarrow> _\<close> by blast
    have "counted ops m' ip \<le> counted ops m ip"
      using same_registry_counted [OF same, of ip] delist_counted [OF True, of ops ip] by simp
    with same show ?thesis by (simp add: same_registry_def session_count_def length_remove1)
  next
    case False
    with assms(3) show ?thesis by (simp add: remove_session_def)
  qed
  then show "session_count m' \<le> session_count m" and "counted ops m' ip \<le> counted ops m ip" by simp_all
qed

text \<open>A connection that passed the check of \<^verbatim>\<open>add_session\<close> leaves room for itself.\<close>

lemma add_not_closed:
  assumes "add_session ops m i = (out, m', effs)" and "returns out" and "Close_session i \<notin> set effs"
  obtains ip where "peer_ip ops m i = Return ip" and "can_ip_connect m ip"
  using assms by (auto simp: add_session_def split: outcome.splits if_splits)

lemma served_within_limits:
  assumes "within_limits ops m" and "callbacks_ok ops run" and "limits_kept run removed_hook"
    and "add_session ops m i = (out1, m1, effs1)" "returns out1" "Close_session i \<notin> set effs1"
    and "register_and_start ops run m1 i = (out, m', effs)"
  shows "within_limits ops m'"
proof -
  obtain ip where ip: "peer_ip ops m i = Return ip" and room: "can_ip_connect m ip"
    by (rule add_not_closed [OF assms(4-6)])
  note add = add_admitted [OF ip room assms(4)]
  have inv: "manager_inv ops m" using assms(1) by (simp add: within_limits_def)
  have inv1: "manager_inv ops m1" by (rule same_registry_inv [OF add(2) inv])
  have ip1: "peer_ip ops m1 i = Return ip" using add(4) ip by simp
  note reg = register_registry [OF assms(2) ip1 assms(7)]
  have count: "counted ops m' j = counted ops m j + of_bool (j = ip)" for j
    using same_registry_counted [OF reg(2)] counted_enrolled [OF ip1] same_registry_counted [OF add(2)] by simp
  have "session_count m' = session_count m + 1"
    using reg(2) add(2) by (simp add: same_registry_def enrolled_def session_count_def)
  moreover have "limits m' = limits m"
    using limits_operations(1) [OF assms(3), of ops m1 i] limits_operations(2) [OF assms(3), of ops m i] assms(4,7) by simp
  moreover have "mgr_max_sessions m \<noteq> 0 \<longrightarrow> session_count m < mgr_max_sessions m"
    "mgr_max_connections_per_ip m \<noteq> 0 \<longrightarrow> counted ops m ip < mgr_max_connections_per_ip m"
    using room manager_inv_count [OF inv, of ip] by (auto simp: can_ip_connect_def session_count_def split: if_splits option.splits)
  ultimately show ?thesis
    using assms(1) register_inv [OF inv1 assms(2,7)] count by (auto simp: within_limits_def limits_def)
qed

lemma inbound_step_limits:
  assumes "inbound_step ops run removed_hook m m'" and "callbacks_ok ops run" and "hook_ok ops removed_hook"
    and "limits_kept run removed_hook" and "within_limits ops m"
  shows "within_limits ops m' \<and> limits m' = limits m"
  using assms(1)
proof cases
  case (refused i out effs)
  with limits_operations(2) [OF assms(4), of ops m i] same_registry_limits [OF assms(5) add_session_registry [OF refused(1)]]
  show ?thesis by simp
next
  case (served i out1 m1 effs1 ok out effs)
  note lim1 = limits_operations(2) [OF assms(4), of ops m i]
  show ?thesis
  proof (cases ok)
    case True
    with served have "register_and_start ops run m1 i = (out, m', effs)" by (simp add: on_server_handshaken_def)
    with served_within_limits [OF assms(5,2,4) served(1-3) this] limits_operations(1) [OF assms(4), of ops m1 i] lim1 served(1)
    show ?thesis by simp
  next
    case False
    with served lim1 same_registry_limits [OF assms(5) add_session_registry [OF served(1)]] show ?thesis
      by (simp add: on_server_handshaken_def)
  qed
next
  case (removed i out effs)
  have "manager_inv ops m" using assms(5) by (simp add: within_limits_def)
  with within_limits_mono [OF assms(5) remove_inv [OF _ assms(2,3) removed] _ remove_shrinks [OF assms(2,3) removed]]
    limits_operations(3) [OF assms(4), of ops m i] removed show ?thesis by simp
next
  case (stopped effs)
  then have m': "m' = fst (manager_stop ops m)" by simp
  have "limits m' = limits m" unfolding m' using limits_close_all by (simp add: manager_stop_def Let_def case_prod_beta)
  moreover have "within_limits ops m'"
    by (rule within_limits_mono [OF assms(5) _ \<open>limits m' = limits m\<close>])
       (use stop_inv [of ops m] in \<open>simp_all add: m' manager_stop_def Let_def case_prod_beta session_count_def counted_def\<close>)
  ultimately show ?thesis by simp
next
  case (active i s)
  with same_registry_limits [OF assms(5) same_registry_update] show ?thesis by simp
qed

end

interpretation tcp_inbound: step_invariant
  "inbound_step (tcp_session_ops a :: (('u, 'r manager_callback, 'x) session, 'r manager_callback, ('u, 'r manager_callback) session_effect) session_ops) run removed_hook"
  "\<lambda>m. callbacks_ok (tcp_session_ops a) run \<and> hook_ok (tcp_session_ops a) removed_hook \<and> limits_kept run removed_hook \<and>
     within_limits (tcp_session_ops a) m \<and> limits m = l"
  for a run removed_hook l
proof (unfold_locales, goal_cases)
  case (1 m m')
  from tcp_session.inbound_step_limits [OF 1(1)] 1(2) show ?case by simp
qed

text \<open>A manager that admits one session, with sessions of one peer, for concrete instances.\<close>

definition demo_peer :: "ip_address \<Rightarrow> (unit, unit manager_callback, byte list \<times> byte list) session" where
  "demo_peer addr = new_session ((new_tcp_socket ([], []))\<lparr>remote_endpoint := \<lparr>ep_address = addr, ep_port = 1\<rparr>\<rparr>) True"

definition demo_manager :: "((unit, unit manager_callback, byte list \<times> byte list) session, nat) manager" where
  "demo_manager = set_max_sessions 1 (set_max_connections_per_ip 1 (on_disconnect (Some 3) (new_manager (\<lambda>_. demo_peer (V4 7)))))"

definition no_callbacks :: "('s, 'f, 'c, 'z) user_callbacks" where
  "no_callbacks = (\<lambda>_ _ m. (m, []))"

lemma no_callbacks_ok [simp]: "callbacks_ok ops no_callbacks"
  by (simp add: callbacks_ok_def no_callbacks_def)

lemma no_callbacks_limits [simp]: "limits_kept no_callbacks on_session_removed"
  by (simp add: limits_kept_def no_callbacks_def on_session_removed_def)

lemmas demo_defs = demo_manager_def demo_peer_def new_session_def set_max_sessions_def set_max_connections_per_ip_def
  on_disconnect_def new_manager_def new_tcp_socket_def

lemma demo_manager_simps [simp]:
  "mgr_sessions demo_manager = []" "mgr_connections_per_ip demo_manager = Map.empty"
  "mgr_max_sessions demo_manager = 1" "mgr_max_connections_per_ip demo_manager = 1"
  "mgr_on_disconnect demo_manager = Some 3" "objects demo_manager i = demo_peer (V4 7)"
  by (simp_all add: demo_defs)

lemma demo_peer_ip [simp]: "ipv4_address (session_socket (demo_peer (V4 w))) = Return w"
  by (simp add: demo_defs ipv4_address_def)

lemma demo_manager_inv: "manager_inv ops demo_manager"
  by (simp add: manager_inv_def counted_def)

lemma demo_can_connect: "can_ip_connect demo_manager 7"
  by (simp add: can_ip_connect_def)

lemma demo_register:
  assumes "objects m0 4 = demo_peer (V4 7)"
  obtains m effs where "register_and_start (tcp_session_ops pipe_asio) no_callbacks m0 4 = (Return (), m, effs)"
    and "mgr_sessions m = mgr_sessions m0 @ [4]" and "ipv4_address (session_socket (objects m 4)) = Return 7"
    and "mgr_on_disconnect m = mgr_on_disconnect m0" and "mgr_max_sessions m = mgr_max_sessions m0"
    and "manager_inv (tcp_session_ops pipe_asio) m0 \<Longrightarrow> manager_inv (tcp_session_ops pipe_asio) m"
proof -
  obtain out m effs where r: "register_and_start (tcp_session_ops pipe_asio) no_callbacks m0 4 = (out, m, effs)"
    by (cases "register_and_start (tcp_session_ops pipe_asio) no_callbacks m0 4")
  have ip: "peer_ip (tcp_session_ops pipe_asio) m0 4 = Return 7"
    unfolding ip_of_tcp_session by (simp add: assms)
  note reg = tcp_session.register_registry [OF no_callbacks_ok ip r]
  have "peer_ip (tcp_session_ops pipe_asio) m 4 = Return 7"
    using reg(2) ip by (simp add: same_registry_def enrolled_def)
  then have "ipv4_address (session_socket (objects m 4)) = Return 7"
    unfolding ip_of_tcp_session .
  moreover have "mgr_on_disconnect m = mgr_on_disconnect m0" "mgr_max_sessions m = mgr_max_sessions m0"
    using r ip by (auto simp: register_and_start_def run_callback_def no_callbacks_def call_session_def update_object_def
        Let_def case_prod_beta split: option.splits)
  moreover have "mgr_sessions m = mgr_sessions m0 @ [4]"
    using reg(2) by (simp add: same_registry_def enrolled_def)
  ultimately show thesis
    using that [of m effs] r reg(1) tcp_session.register_inv [OF _ no_callbacks_ok r] by blast
qed

section \<open>Properties\<close>

text \<open>After any history of inbound and outbound connections, handshakes, removals, session activity,
  reconfiguration and stops, the manager's count for every address is exactly the number of its
  registered sessions with that peer, and addresses without sessions have no entry.\<close>

theorem registry_counts_exact:
  assumes "callbacks_ok (tcp_session_ops a) run" and "hook_ok (tcp_session_ops a) removed_hook"
    and "(manager_step (tcp_session_ops a) run removed_hook)\<^sup>*\<^sup>* (new_manager objs) m"
  shows "mgr_connections_per_ip m ip =
    (let n = length (filter (\<lambda>i. ipv4_address (session_socket (objects m i)) = Return ip) (mgr_sessions m))
     in if n = 0 then None else Some n)"
proof -
  have "manager_inv (tcp_session_ops a) m"
    using tcp_manager.run_inv [OF assms(3)] assms(1,2) new_manager_inv by blast
  then show ?thesis by (simp add: manager_inv_def counted_def ip_of_tcp_session Let_def)
qed

theorem registry_counts_exact_witness:
  "\<exists>m. (manager_step (tcp_session_ops pipe_asio) no_callbacks on_session_removed)\<^sup>*\<^sup>*
       (new_manager (\<lambda>_. demo_peer (V4 7)) :: (_, nat) manager) m \<and>
     mgr_sessions m = [4] \<and> mgr_connections_per_ip m 7 = Some 1"
proof (rule demo_register [of "new_manager (\<lambda>_. demo_peer (V4 7))"])
  fix m :: "((unit, unit manager_callback, byte list \<times> byte list) session, nat) manager" and effs
  let ?m0 = "new_manager (\<lambda>_. demo_peer (V4 7)) :: (_, nat) manager"
  assume r: "register_and_start (tcp_session_ops pipe_asio) no_callbacks ?m0 4 = (Return (), m, effs)"
    "mgr_sessions m = mgr_sessions ?m0 @ [4]" "ipv4_address (session_socket (objects m 4)) = Return 7"
  then have "manager_step (tcp_session_ops pipe_asio) no_callbacks on_session_removed ?m0 m"
    by (intro server_handshaken [where i = 4 and ok = True]) (simp add: on_server_handshaken_def)
  then have run: "(manager_step (tcp_session_ops pipe_asio) no_callbacks on_session_removed)\<^sup>*\<^sup>* ?m0 m" by blast
  from registry_counts_exact [OF no_callbacks_ok on_session_removed_ok run, of 7] run r(2,3) show ?thesis
    by (intro exI [of _ m]) (simp add: new_manager_def)
qed (simp_all add: new_manager_def)

text \<open>A registered session is removed exactly once: the first call takes it out of the registry, gives
  its address back and calls the disconnect callback first; a second call does nothing.\<close>

theorem remove_session_once:
  fixes m :: "(('u, 'r manager_callback, 'x) session, 'f, 'z) manager_scheme"
  assumes "callbacks_ok (tcp_session_ops a) run" and "hook_ok (tcp_session_ops a) removed_hook"
    and "manager_inv (tcp_session_ops a) m" and "distinct (mgr_sessions m)" and "i \<in> set (mgr_sessions m)"
    and "ipv4_address (session_socket (objects m i)) = Return ip"
    and "remove_session (tcp_session_ops a) run removed_hook m i = (out, m', effs)"
  shows "out = Return () \<and> session_count m' + 1 = session_count m \<and>
    counted (tcp_session_ops a) m ip = Suc (case mgr_connections_per_ip m' ip of None \<Rightarrow> 0 | Some n \<Rightarrow> n) \<and>
    (mgr_on_disconnect m = Some f \<longrightarrow> effs \<noteq> [] \<and> hd effs = Run_callback f i) \<and>
    remove_session (tcp_session_ops a) run removed_hook m' i = (Return (), m', [])"
proof -
  have ip: "peer_ip (tcp_session_ops a) m i = Return ip" by (simp add: ip_of_tcp_session assms(6))
  obtain n effs' where r: "mgr_connections_per_ip m ip = Some n" "0 < n" "out = Return ()"
    "mgr_sessions m' = remove1 i (mgr_sessions m)"
    "mgr_connections_per_ip m' = (mgr_connections_per_ip m)(ip := if n - 1 = 0 then None else Some (n - 1))"
    "effs = (case mgr_on_disconnect m of None \<Rightarrow> [] | Some f \<Rightarrow> [Run_callback f i]) @ effs'"
    by (rule tcp_session.remove_registry [OF assms(1-3,5) ip assms(7)])
  have "counted (tcp_session_ops a) m ip = n"
    using assms(3) r(1,2) by (auto simp: manager_inv_def split: if_splits)
  moreover have "i \<notin> set (mgr_sessions m')" using r(4) assms(4) by simp
  moreover have "length (mgr_sessions m') + 1 = length (mgr_sessions m)"
    using r(4) assms(5) length_pos_if_in_set [OF assms(5)] by (simp add: length_remove1)
  ultimately show ?thesis
    using r by (auto simp: session_count_def remove_session_def)
qed

theorem remove_session_once_witness:
  "\<exists>m. mgr_sessions m = [4] \<and>
     (let r = remove_session (tcp_session_ops pipe_asio) no_callbacks on_session_removed
                (m :: ((unit, unit manager_callback, byte list \<times> byte list) session, nat) manager) 4
      in session_count (fst (snd r)) = 0 \<and> hd (snd (snd r)) = Run_callback 3 4)"
proof (rule demo_register [of demo_manager])
  fix m :: "((unit, unit manager_callback, byte list \<times> byte list) session, nat) manager"
  assume m: "mgr_sessions m = mgr_sessions demo_manager @ [4]" "ipv4_address (session_socket (objects m 4)) = Return 7"
    "mgr_on_disconnect m = mgr_on_disconnect demo_manager"
    "manager_inv (tcp_session_ops pipe_asio) demo_manager \<Longrightarrow> manager_inv (tcp_session_ops pipe_asio) m"
  have "distinct (mgr_sessions m)" "4 \<in> set (mgr_sessions m)" using m(1) by simp_all
  let ?r = "remove_session (tcp_session_ops pipe_asio) no_callbacks on_session_removed m 4"
  from remove_session_once [OF no_callbacks_ok on_session_removed_ok m(4) [OF demo_manager_inv]
      \<open>distinct (mgr_sessions m)\<close> \<open>4 \<in> set (mgr_sessions m)\<close> m(2), of "fst ?r" "fst (snd ?r)" "snd (snd ?r)" 3] m
  show ?thesis by (intro exI [of _ m]) (simp add: Let_def session_count_def)
qed simp

text \<open>Registering a new session and removing it again restores the registry.\<close>

theorem register_remove_roundtrip:
  fixes m :: "(('u, 'r manager_callback, 'x) session, 'f, 'z) manager_scheme"
  assumes "callbacks_ok (tcp_session_ops a) run" and "hook_ok (tcp_session_ops a) removed_hook"
    and "manager_inv (tcp_session_ops a) m" and "i \<notin> set (mgr_sessions m)"
    and "ipv4_address (session_socket (objects m i)) = Return ip"
    and "register_and_start (tcp_session_ops a) run m i = (out1, m1, effs1)"
    and "remove_session (tcp_session_ops a) run removed_hook m1 i = (out2, m2, effs2)"
  shows "out1 = Return () \<and> out2 = Return () \<and> mgr_sessions m2 = mgr_sessions m \<and>
    mgr_connections_per_ip m2 = mgr_connections_per_ip m"
proof -
  have ip: "peer_ip (tcp_session_ops a) m i = Return ip" by (simp add: ip_of_tcp_session assms(5))
  note reg = tcp_session.register_registry [OF assms(1) ip assms(6)]
  have m1: "mgr_sessions m1 = mgr_sessions m @ [i]" "i \<in> set (mgr_sessions m1)"
    "peer_ip (tcp_session_ops a) m1 i = Return ip"
    using reg(2) ip by (simp_all add: same_registry_def enrolled_def)
  have inv: "manager_inv (tcp_session_ops a) m1"
    by (rule tcp_session.register_inv [OF assms(3,1,6)])
  obtain n effs' where r: "mgr_connections_per_ip m1 ip = Some n" "0 < n" "out2 = Return ()"
    "mgr_sessions m2 = remove1 i (mgr_sessions m1)"
    "mgr_connections_per_ip m2 = (mgr_connections_per_ip m1)(ip := if n - 1 = 0 then None else Some (n - 1))"
    by (rule tcp_session.remove_registry [OF assms(1,2) inv m1(2,3) assms(7)])
  have "n = Suc (counted (tcp_session_ops a) m ip)"
    using r(1) reg(2) manager_inv_count [OF assms(3), of ip] by (simp add: same_registry_def enrolled_def)
  then have "(if n - 1 = 0 then None else Some (n - 1)) = mgr_connections_per_ip m ip"
    using assms(3) by (simp add: manager_inv_def)
  with r reg m1(1) assms(4) show ?thesis
    by (auto simp: same_registry_def enrolled_def remove1_append fun_upd_idem)
qed

theorem register_remove_roundtrip_witness:
  "let r1 = register_and_start (tcp_session_ops pipe_asio) no_callbacks demo_manager 4;
       r2 = remove_session (tcp_session_ops pipe_asio) no_callbacks on_session_removed (fst (snd r1)) 4
   in mgr_sessions (fst (snd r2)) = [] \<and> mgr_connections_per_ip (fst (snd r2)) = Map.empty"
proof -
  let ?r1 = "register_and_start (tcp_session_ops pipe_asio) no_callbacks demo_manager 4"
  let ?r2 = "remove_session (tcp_session_ops pipe_asio) no_callbacks on_session_removed (fst (snd ?r1)) 4"
  have "4 \<notin> set (mgr_sessions demo_manager)" "ipv4_address (session_socket (objects demo_manager 4)) = Return 7"
    by simp_all
  from register_remove_roundtrip [OF no_callbacks_ok on_session_removed_ok demo_manager_inv this,
      where a = pipe_asio and ?out1.0 = "fst ?r1" and ?m1.0 = "fst (snd ?r1)" and ?effs1.0 = "snd (snd ?r1)" and
        ?out2.0 = "fst ?r2" and ?m2.0 = "fst (snd ?r2)" and ?effs2.0 = "snd (snd ?r2)"]
  show ?thesis by (simp add: Let_def)
qed

text \<open>C26: if handshakes do not overlap, the limits hold over every history of inbound connections: whatever
  connections arrive, handshakes succeed or fail, sessions are active or removed and stops happen,
  a manager without dialled sessions never has more sessions registered than the configured number,
  in all and per address.\<close>

theorem sequential_admission_respects_limits:
  fixes m0 :: "(('u, 'r manager_callback, 'x) session, 'f, 'z) manager_scheme"
  assumes "callbacks_ok (tcp_session_ops a) run" and "hook_ok (tcp_session_ops a) removed_hook"
    and "limits_kept run removed_hook" and "mgr_sessions m0 = []" and "mgr_connections_per_ip m0 = Map.empty"
    and "(inbound_step (tcp_session_ops a) run removed_hook)\<^sup>*\<^sup>* m0 m"
  shows "(mgr_max_sessions m0 \<noteq> 0 \<longrightarrow> session_count m \<le> mgr_max_sessions m0) \<and>
    (mgr_max_connections_per_ip m0 \<noteq> 0 \<longrightarrow>
       length (filter (\<lambda>i. ipv4_address (session_socket (objects m i)) = Return ip) (mgr_sessions m)) \<le>
       mgr_max_connections_per_ip m0)"
proof -
  have "within_limits (tcp_session_ops a) m0"
    using assms(4,5) by (simp add: within_limits_def manager_inv_def counted_def session_count_def)
  from tcp_inbound.run_inv [OF assms(6), of "limits m0"] this assms(1-3)
  have "within_limits (tcp_session_ops a) m" "limits m = limits m0" by blast+
  then show ?thesis by (simp add: within_limits_def limits_def counted_def ip_of_tcp_session)
qed

theorem sequential_admission_respects_limits_witness:
  "\<exists>m. (inbound_step (tcp_session_ops pipe_asio) no_callbacks on_session_removed)\<^sup>*\<^sup>* demo_manager m \<and>
     mgr_sessions m \<noteq> [] \<and> session_count m \<le> 1"
proof -
  obtain out1 m1 effs1 where r1: "add_session (tcp_session_ops pipe_asio) demo_manager 4 = (out1, m1, effs1)"
    by (rule prod_cases3)
  obtain out m effs where r2: "register_and_start (tcp_session_ops pipe_asio) no_callbacks m1 4 = (out, m, effs)"
    by (rule prod_cases3)
  have ip: "peer_ip (tcp_session_ops pipe_asio) demo_manager 4 = Return 7"
    unfolding ip_of_tcp_session by simp
  note add = tcp_session.add_admitted [OF ip demo_can_connect r1]
  have "peer_ip (tcp_session_ops pipe_asio) m1 4 = Return 7" using add(4) ip by simp
  from tcp_session.register_registry [OF no_callbacks_ok this r2] have m: "mgr_sessions m = mgr_sessions m1 @ [4]"
    by (simp add: same_registry_def enrolled_def)
  have "inbound_step (tcp_session_ops pipe_asio) no_callbacks on_session_removed demo_manager m"
    by (rule inbound_step.served [OF r1, where ok = True]) (use add(1,5) r2 in \<open>auto simp: on_server_handshaken_def\<close>)
  then have run: "(inbound_step (tcp_session_ops pipe_asio) no_callbacks on_session_removed)\<^sup>*\<^sup>* demo_manager m" by blast
  from sequential_admission_respects_limits [OF no_callbacks_ok on_session_removed_ok no_callbacks_limits
      demo_manager_simps(1,2) run] run m show ?thesis by (intro exI [of _ m]) simp
qed

text \<open>An inbound connection past a limit is rejected before the handshake: its socket is closed, no
  handshake is started and the registry is unchanged.\<close>

theorem rejected_before_handshake:
  fixes m :: "(('u, 'r manager_callback, 'x) session, 'f, 'z) manager_scheme"
  assumes "ipv4_address (session_socket (objects m i)) = Return ip"
    and "mgr_max_sessions m \<noteq> 0 \<and> mgr_max_sessions m \<le> session_count m \<or>
         mgr_max_connections_per_ip m \<noteq> 0 \<and> mgr_max_connections_per_ip m \<le> counted (tcp_session_ops a) m ip"
    and "manager_inv (tcp_session_ops a) m"
  shows "\<exists>m'. add_session (tcp_session_ops a) m i = (Return (), m', [Close_session i]) \<and>
    same_registry (tcp_session_ops a) m m' \<and>
    objects m' i = fst (session_stop a (objects m i))"
proof -
  have ip: "peer_ip (tcp_session_ops a) m i = Return ip" by (simp add: ip_of_tcp_session assms(1))
  have "\<not> can_ip_connect m ip"
    using assms(2) manager_inv_count [OF assms(3), of ip]
    by (auto simp: can_ip_connect_def session_count_def split: option.splits)
  then have add: "add_session (tcp_session_ops a) m i =
      (Return (), update_object i (fst (session_stop a (objects m i))) m, [Close_session i])"
    using ip by (simp add: add_session_def tcp_session_ops_def session_socket_ops_def)
  then show ?thesis
    using tcp_session.add_session_registry [OF add] by (simp add: update_object_def)
qed

theorem rejected_before_handshake_witness:
  "\<exists>m m'. mgr_sessions m = [4] \<and>
     add_session (tcp_session_ops pipe_asio)
       (m :: ((unit, unit manager_callback, byte list \<times> byte list) session, nat) manager) 4 =
       (Return (), m', [Close_session 4])"
proof (rule demo_register [of demo_manager])
  fix m :: "((unit, unit manager_callback, byte list \<times> byte list) session, nat) manager"
  assume m: "mgr_sessions m = mgr_sessions demo_manager @ [4]" "ipv4_address (session_socket (objects m 4)) = Return 7"
    "mgr_max_sessions m = mgr_max_sessions demo_manager"
    "manager_inv (tcp_session_ops pipe_asio) demo_manager \<Longrightarrow> manager_inv (tcp_session_ops pipe_asio) m"
  have "mgr_max_sessions m \<noteq> 0 \<and> mgr_max_sessions m \<le> session_count m" using m by (simp add: session_count_def)
  from rejected_before_handshake [OF m(2) disjI1 [OF this] m(4) [OF demo_manager_inv]] m(1) show ?thesis
    by auto
qed simp

text \<open>C36: the limits do not bound overlapping handshakes: whatever the limits, any number of connections from
  one address pass admission while none of their handshakes has completed, and all of them are
  registered when the handshakes do complete.\<close>

theorem overlapping_handshakes_exceed_limits:
  fixes m :: "(('u, 'r manager_callback, 'x) session, 'f, 'z) manager_scheme"
  assumes "callbacks_ok (tcp_session_ops a) run"
    and "\<forall>f i m j. ipv4_address (session_socket (objects (fst (run f i m)) j)) = ipv4_address (session_socket (objects m j))"
    and "mgr_sessions m = []" and "mgr_connections_per_ip m = Map.empty"
    and "\<forall>i \<in> set is. ipv4_address (session_socket (objects m i)) = Return ip"
    and "add_all (tcp_session_ops a) is m = (m1, effs)"
  shows "(\<forall>i. Close_session i \<notin> set effs) \<and>
    session_count (handshake_all (tcp_session_ops a) run is m1) = length is"
proof -
  have ips: "\<forall>i \<in> set is. peer_ip (tcp_session_ops a) m i = Return ip"
    using assms(5) by (simp add: ip_of_tcp_session)
  note add = tcp_session.add_all_admitted [OF assms(3,4) ips assms(6)]
  have "mgr_sessions (handshake_all (tcp_session_ops a) run is m1) = mgr_sessions m1 @ is"
    using add ips assms(2) by (intro tcp_session.handshake_all_sessions [OF assms(1), where ip = ip]) (simp_all add: ip_of_tcp_session)
  with add show ?thesis by (simp add: session_count_def)
qed

theorem overlapping_handshakes_exceed_limits_witness:
  "mgr_max_sessions demo_manager = 1 \<and>
   session_count (handshake_all (tcp_session_ops pipe_asio) no_callbacks [0, 1, 2]
     (fst (add_all (tcp_session_ops pipe_asio) [0, 1, 2] demo_manager))) = 3"
  using overlapping_handshakes_exceed_limits [of pipe_asio no_callbacks demo_manager "[0, 1, 2]" 7
      "fst (add_all (tcp_session_ops pipe_asio) [0, 1, 2] demo_manager)"
      "snd (add_all (tcp_session_ops pipe_asio) [0, 1, 2] demo_manager)"]
  by (simp add: no_callbacks_def [symmetric]) (simp add: no_callbacks_def)

text \<open>C37: a peer with an IPv6 address breaks registration: the session is entered into the registry but not
  counted and never started, the exception leaves the handshake's completion handler, and removing
  the session raises it again before the disconnect callback.\<close>

theorem ipv6_registration_throws:
  fixes m :: "(('u, 'r manager_callback, 'x) session, 'f, 'z) manager_scheme"
  assumes "ep_address (remote_endpoint (session_socket (objects m i))) = V6 addr"
    and "i \<notin> set (mgr_sessions m)"
    and "on_client_handshaken (tcp_session_ops a) run m i True = (out, m', effs)"
  shows "out = Throw Bad_address_cast \<and> effs = [] \<and> mgr_sessions m' = mgr_sessions m @ [i] \<and>
    mgr_connections_per_ip m' = mgr_connections_per_ip m \<and>
    remove_session (tcp_session_ops a) run removed_hook m' i = (Throw Bad_address_cast, m, [])"
proof -
  have ip: "peer_ip (tcp_session_ops a) m i = Throw Bad_address_cast"
    using assms(1) by (simp add: ip_of_tcp_session ipv4_address_def)
  with assms(2,3) show ?thesis
    by (auto simp: on_client_handshaken_def register_and_start_def remove_session_def remove1_append)
qed

theorem ipv6_registration_throws_witness:
  "let m = new_manager (\<lambda>_. demo_peer (V6 1)) :: (_, nat) manager;
       r = on_client_handshaken (tcp_session_ops pipe_asio) no_callbacks m 4 True
   in fst r = Throw Bad_address_cast \<and> mgr_sessions (fst (snd r)) = [4]"
proof -
  let ?m = "new_manager (\<lambda>_. demo_peer (V6 1)) :: (_, nat) manager"
  let ?r = "on_client_handshaken (tcp_session_ops pipe_asio) no_callbacks ?m 4 True"
  from ipv6_registration_throws [of ?m 4 1 pipe_asio no_callbacks "fst ?r" "fst (snd ?r)" "snd (snd ?r)"]
  show ?thesis by (simp add: Let_def demo_peer_def new_session_def new_manager_def)
qed

end
