(* ===== verification/Manager_Threads.thy ===== *)
theory Manager_Threads
  imports Admission "HOL-Library.Multiset" "HOL-Library.Sublist"
begin

text \<open>
  The session manager under a pool of threads. \<^verbatim>\<open>register_and_start\<close> and \<^verbatim>\<open>remove_session\<close> hold
  \<^verbatim>\<open>sessions_mutex_\<close> only while they change the registry; the callbacks of the program, \<^verbatim>\<open>start\<close> and the
  hook of the derived class run after the lock is released, so calls of several threads interleave
  there. Each call is split at these points, and a thread that is inside a call is a program counter.
  A session is registered when its handshake completes; \<^verbatim>\<open>remove_session\<close> is public and may be called
  for any session at any time.
  The log of what happened gives the order of the callbacks of each session, and the registry is
  shown to be that of the calls executed one after the other.
\<close>

section \<open>The calls, split where the lock is released\<close>

definition register_locked ::
  "('s, 'k, 'c) session_ops \<Rightarrow> ('s, 'f, 'z) manager_scheme \<Rightarrow> sid \<Rightarrow> unit outcome \<times> ('s, 'f, 'z) manager_scheme" where
  "register_locked ops m i =
     (let m = m\<lparr>mgr_sessions := mgr_sessions m @ [i]\<rparr> in
      case op_ipv4_address (so_socket ops) (objects m i) of
        Throw e \<Rightarrow> (Throw e, m)
      | Return ip \<Rightarrow>
          (let count = (case mgr_connections_per_ip m ip of None \<Rightarrow> 0 | Some n \<Rightarrow> n)
           in (Return (), m\<lparr>mgr_connections_per_ip := (mgr_connections_per_ip m)(ip \<mapsto> count + 1)\<rparr>)))"

definition remove_locked ::
  "('s, 'k, 'c) session_ops \<Rightarrow> ('s, 'f, 'z) manager_scheme \<Rightarrow> sid \<Rightarrow> unit outcome \<times> ('s, 'f, 'z) manager_scheme" where
  "remove_locked ops m i =
     (let m = m\<lparr>mgr_sessions := remove1 i (mgr_sessions m)\<rparr> in
      case op_ipv4_address (so_socket ops) (objects m i) of
        Throw e \<Rightarrow> (Throw e, m)
      | Return ip \<Rightarrow>
          (Return (),
           case mgr_connections_per_ip m ip of
             None \<Rightarrow> m
           | Some n \<Rightarrow>
               (let n' = (if n = 0 then 2 ^ 64 - 1 else n - 1)
                in m\<lparr>mgr_connections_per_ip :=
                       (mgr_connections_per_ip m)(ip := if n' = 0 then None else Some n')\<rparr>)))"

text \<open>The pieces make up the calls.\<close>

lemma register_and_start_split:
  "register_and_start ops run m i =
     (case register_locked ops m i of
        (Throw e, m) \<Rightarrow> (Throw e, m, [])
      | (Return _, m) \<Rightarrow>
          (let (m, effs) = run_callback run (mgr_on_connect m) i m;
               (m, effs') = call_session i (so_start ops) m
           in (Return (), m, effs @ effs')))"
  by (simp add: register_and_start_def register_locked_def Let_def split: outcome.splits)

lemma remove_session_split:
  "remove_session ops run removed_hook m i =
     (if i \<notin> set (mgr_sessions m) then (Return (), m, [])
      else case remove_locked ops m i of
        (Throw e, m) \<Rightarrow> (Throw e, m, [])
      | (Return _, m) \<Rightarrow>
          (let (m, effs) = run_callback run (mgr_on_disconnect m) i m;
               (m, effs') = removed_hook i m
           in (Return (), m, effs @ effs')))"
  by (simp add: remove_session_def remove_locked_def Let_def split: outcome.splits)

section \<open>The pool\<close>

datatype manager_pc = At_on_connect sid | At_start sid | At_on_disconnect sid | At_removed_hook sid

datatype manager_event =
    Registered sid
  | Connect_run sid
  | Started sid
  | Removed sid
  | Disconnect_run sid
  | Hook_run sid
  | Manager_stopped "sid list"

text \<open>\<open>pool_created\<close> are the sessions made so far, \<open>pool_handshakes\<close> those whose handshake is pending.\<close>

record ('s, 'f, 'z) pool =
  pool_manager :: "('s, 'f, 'z) manager_scheme"
  pool_created :: "sid set"
  pool_handshakes :: "sid multiset"
  pool_pcs :: "manager_pc multiset"
  pool_log :: "manager_event list"

definition new_pool :: "('s, 'f, 'z) manager_scheme \<Rightarrow> ('s, 'f, 'z) pool" where
  "new_pool m = \<lparr>pool_manager = m, pool_created = set (mgr_sessions m), pool_handshakes = {#}, pool_pcs = {#}, pool_log = []\<rparr>"

definition log_event :: "manager_event \<Rightarrow> ('s, 'f, 'z) manager_scheme \<Rightarrow> manager_pc multiset \<Rightarrow> ('s, 'f, 'z) pool \<Rightarrow> ('s, 'f, 'z) pool" where
  "log_event e m pcs q = q\<lparr>pool_manager := m, pool_pcs := pcs, pool_log := pool_log q @ [e]\<rparr>"

lemma log_event_simps [simp]:
  "pool_manager (log_event e m pcs q) = m" "pool_pcs (log_event e m pcs q) = pcs"
  "pool_log (log_event e m pcs q) = pool_log q @ [e]" "pool_created (log_event e m pcs q) = pool_created q"
  "pool_handshakes (log_event e m pcs q) = pool_handshakes q"
  by (simp_all add: log_event_def)

fun subject :: "manager_event \<Rightarrow> sid option" where
  "subject (Registered i) = Some i"
| "subject (Connect_run i) = Some i"
| "subject (Started i) = Some i"
| "subject (Removed i) = Some i"
| "subject (Disconnect_run i) = Some i"
| "subject (Hook_run i) = Some i"
| "subject (Manager_stopped _) = None"

definition events_of :: "manager_event list \<Rightarrow> sid \<Rightarrow> manager_event list" where
  "events_of log i = filter (\<lambda>e. subject e = Some i) log"

text \<open>The life of a session in the manager, in order.\<close>

definition phases :: "sid \<Rightarrow> manager_event list" where
  "phases i = [Registered i, Connect_run i, Started i, Removed i, Disconnect_run i, Hook_run i]"

text \<open>A thread goes on with the call it is in.\<close>

inductive thread_step ::
  "('s, 'k, 'c) session_ops \<Rightarrow> ('s, 'f, 'c, 'z) user_callbacks \<Rightarrow>
   (sid \<Rightarrow> ('s, 'f, 'z) manager_scheme \<Rightarrow> ('s, 'f, 'z) manager_scheme \<times> ('f, 'c) manager_effect list) \<Rightarrow>
   ('s, 'f, 'z) pool \<Rightarrow> ('s, 'f, 'z) pool \<Rightarrow> bool"
  for ops run removed_hook where
  connect: "At_on_connect i \<in># pool_pcs q \<Longrightarrow>
    thread_step ops run removed_hook q
      (log_event (Connect_run i) (fst (run_callback run (mgr_on_connect (pool_manager q)) i (pool_manager q)))
        (pool_pcs q - {#At_on_connect i#} + {#At_start i#}) q)"
| start: "At_start i \<in># pool_pcs q \<Longrightarrow>
    thread_step ops run removed_hook q
      (log_event (Started i) (fst (call_session i (so_start ops) (pool_manager q) :: _ \<times> ('f, 'c) manager_effect list))
        (pool_pcs q - {#At_start i#}) q)"
| disconnect: "At_on_disconnect i \<in># pool_pcs q \<Longrightarrow>
    thread_step ops run removed_hook q
      (log_event (Disconnect_run i) (fst (run_callback run (mgr_on_disconnect (pool_manager q)) i (pool_manager q)))
        (pool_pcs q - {#At_on_disconnect i#} + {#At_removed_hook i#}) q)"
| hook: "At_removed_hook i \<in># pool_pcs q \<Longrightarrow>
    thread_step ops run removed_hook q
      (log_event (Hook_run i) (fst (removed_hook i (pool_manager q))) (pool_pcs q - {#At_removed_hook i#}) q)"

text \<open>
  What other threads may begin: an accepted connection or a dial makes a new session and starts its
  handshake, which fails or completes once; a call enters its critical section, when a handshake
  completed, when someone calls \<^verbatim>\<open>remove_session\<close> for a session that is in the registry, or in \<^verbatim>\<open>stop\<close>,
  which holds the lock throughout; or a session is active and keeps its peer. A call that throws
  under the lock ends there, and \<^verbatim>\<open>remove_session\<close> returns at once for a session that is not there.
\<close>

inductive call_step :: "('s, 'k, 'c) session_ops \<Rightarrow> ('s, 'f, 'z) pool \<Rightarrow> ('s, 'f, 'z) pool \<Rightarrow> bool"
  for ops where
  creates: "i \<notin> pool_created q \<Longrightarrow>
    call_step ops q (q\<lparr>pool_created := insert i (pool_created q), pool_handshakes := pool_handshakes q + {#i#}\<rparr>)"
| handshake_fails: "i \<in># pool_handshakes q \<Longrightarrow>
    call_step ops q (q\<lparr>pool_handshakes := pool_handshakes q - {#i#}\<rparr>)"
| registers: "i \<in># pool_handshakes q \<Longrightarrow> r = register_locked ops (pool_manager q) i \<Longrightarrow>
    call_step ops q
      (log_event (Registered i) (snd r) (pool_pcs q + (if returns (fst r) then {#At_on_connect i#} else {#}))
        (q\<lparr>pool_handshakes := pool_handshakes q - {#i#}\<rparr>))"
| removes: "i \<in> set (mgr_sessions (pool_manager q)) \<Longrightarrow> r = remove_locked ops (pool_manager q) i \<Longrightarrow>
    call_step ops q
      (log_event (Removed i) (snd r) (pool_pcs q + (if returns (fst r) then {#At_on_disconnect i#} else {#})) q)"
| stops: "call_step ops q
    (log_event (Manager_stopped (mgr_sessions (pool_manager q)))
      (fst (manager_stop ops (pool_manager q))) (pool_pcs q) q)"
| active: "op_ipv4_address (so_socket ops) s = op_ipv4_address (so_socket ops) (objects (pool_manager q) i) \<Longrightarrow>
    call_step ops q (q\<lparr>pool_manager := update_object i s (pool_manager q)\<rparr>)"

definition pool_step where
  "pool_step ops run removed_hook q q' \<longleftrightarrow> thread_step ops run removed_hook q q' \<or> call_step ops q q'"

section \<open>What the code between the critical sections leaves alone\<close>

definition undisturbed ::
  "('s, 'k, 'c) session_ops \<Rightarrow> ('s, 'f, 'z) manager_scheme \<Rightarrow> ('s, 'f, 'z) manager_scheme \<Rightarrow> bool" where
  "undisturbed ops m m' \<longleftrightarrow> mgr_sessions m' = mgr_sessions m \<and> mgr_connections_per_ip m' = mgr_connections_per_ip m \<and>
     (\<forall>i. peer_ip ops m' i = peer_ip ops m i)"

definition callbacks_keep ::
  "('s, 'k, 'c) session_ops \<Rightarrow> ('s, 'f, 'c, 'z) user_callbacks \<Rightarrow>
   (sid \<Rightarrow> ('s, 'f, 'z) manager_scheme \<Rightarrow> ('s, 'f, 'z) manager_scheme \<times> ('f, 'c) manager_effect list) \<Rightarrow> bool" where
  "callbacks_keep ops run removed_hook \<longleftrightarrow>
     (\<forall>f i m. undisturbed ops m (fst (run f i m))) \<and> (\<forall>i m. undisturbed ops m (fst (removed_hook i m)))"

lemma undisturbed_refl [simp]: "undisturbed ops m m"
  by (simp add: undisturbed_def)

lemma undisturbed_trans: "undisturbed ops m m' \<Longrightarrow> undisturbed ops m' m'' \<Longrightarrow> undisturbed ops m m''"
  by (simp add: undisturbed_def)

lemma undisturbed_callback:
  "callbacks_keep ops run removed_hook \<Longrightarrow> undisturbed ops m (fst (run_callback run cb i m))"
  by (auto simp: callbacks_keep_def run_callback_def Let_def case_prod_beta split: option.splits)

lemma undisturbed_hook: "callbacks_keep ops run removed_hook \<Longrightarrow> undisturbed ops m (fst (removed_hook i m))"
  by (simp add: callbacks_keep_def)

lemma undisturbed_update: "op_ipv4_address (so_socket ops) s = peer_ip ops m i \<Longrightarrow> undisturbed ops m (update_object i s m)"
  by (simp add: undisturbed_def update_object_def)

lemma register_locked_simps [simp]:
  "objects (snd (register_locked ops m i)) = objects m"
  "mgr_sessions (snd (register_locked ops m i)) = mgr_sessions m @ [i]"
  "returns (fst (register_locked ops m i)) = returns (peer_ip ops m i)"
  by (cases "peer_ip ops m i"; simp add: register_locked_def Let_def)+

lemma remove_locked_simps [simp]:
  "objects (snd (remove_locked ops m i)) = objects m"
  "mgr_sessions (snd (remove_locked ops m i)) = remove1 i (mgr_sessions m)"
  "returns (fst (remove_locked ops m i)) = returns (peer_ip ops m i)"
  by (cases "peer_ip ops m i"; simp add: remove_locked_def Let_def split: option.split)+

text \<open>The counts depend on the registry and the peers alone.\<close>

lemma locked_counts:
  assumes "undisturbed ops m m'"
  shows "mgr_connections_per_ip (snd (register_locked ops m' i)) = mgr_connections_per_ip (snd (register_locked ops m i))"
    and "mgr_connections_per_ip (snd (remove_locked ops m' i)) = mgr_connections_per_ip (snd (remove_locked ops m i))"
proof -
  have eq: "mgr_connections_per_ip m' = mgr_connections_per_ip m" "peer_ip ops m' i = peer_ip ops m i"
    using assms by (simp_all add: undisturbed_def)
  then show "mgr_connections_per_ip (snd (register_locked ops m' i)) = mgr_connections_per_ip (snd (register_locked ops m i))"
    by (cases "peer_ip ops m i") (simp_all add: register_locked_def Let_def)
  from eq show "mgr_connections_per_ip (snd (remove_locked ops m' i)) = mgr_connections_per_ip (snd (remove_locked ops m i))"
    by (cases "peer_ip ops m i") (simp_all add: remove_locked_def Let_def split: option.split)
qed

lemma locked_cong:
  assumes "undisturbed ops m m'"
  shows "undisturbed ops (snd (register_locked ops m i)) (snd (register_locked ops m' i))"
    and "undisturbed ops (snd (remove_locked ops m i)) (snd (remove_locked ops m' i))"
  using locked_counts [OF assms, of i] assms by (simp_all add: undisturbed_def)

context managed_session
begin

lemma undisturbed_start: "undisturbed ops m (fst (call_session i (so_start ops) m))"
  by (simp add: call_session_def Let_def case_prod_beta ip_start undisturbed_update)

lemma stop_registry:
  "mgr_sessions (fst (manager_stop ops m)) = []" "mgr_connections_per_ip (fst (manager_stop ops m)) = Map.empty"
  by (simp_all add: manager_stop_def Let_def case_prod_beta)

lemma close_all_peers:
  "peer_ip ops (fst (for_each_session
     (\<lambda>i m. (update_object i (op_close (so_socket ops) (objects m i)) m, [Close_session i])) is m)) j = peer_ip ops m j"
  by (induction "is" arbitrary: m) (simp_all add: Let_def case_prod_beta update_object_def ip_close)

lemma stop_peers: "peer_ip ops (fst (manager_stop ops m)) i = peer_ip ops m i"
  by (simp add: manager_stop_def Let_def case_prod_beta close_all_peers)

end

section \<open>The registry is that of some sequential execution\<close>

text \<open>The calls of a log, executed as a whole at the moment of their critical sections.\<close>

fun replay ::
  "('s, 'k, 'c) session_ops \<Rightarrow> ('s, 'f, 'c, 'z) user_callbacks \<Rightarrow>
   (sid \<Rightarrow> ('s, 'f, 'z) manager_scheme \<Rightarrow> ('s, 'f, 'z) manager_scheme \<times> ('f, 'c) manager_effect list) \<Rightarrow>
   manager_event \<Rightarrow> ('s, 'f, 'z) manager_scheme \<Rightarrow> ('s, 'f, 'z) manager_scheme" where
  "replay ops run removed_hook (Registered i) m = fst (snd (register_and_start ops run m i))"
| "replay ops run removed_hook (Removed i) m = fst (snd (remove_session ops run removed_hook m i))"
| "replay ops run removed_hook (Manager_stopped _) m = fst (manager_stop ops m)"
| "replay ops run removed_hook _ m = m"

lemma undisturbed_sym: "undisturbed ops m m' \<Longrightarrow> undisturbed ops m' m"
  by (simp add: undisturbed_def)

context managed_session
begin

lemma register_undisturbed:
  assumes "callbacks_keep ops run removed_hook"
  shows "undisturbed ops (snd (register_locked ops m i)) (fst (snd (register_and_start ops run m i)))"
proof (cases "register_locked ops m i")
  case (Pair out m1)
  show ?thesis
  proof (cases out)
    case (Return u)
    let ?m2 = "fst (run_callback run (mgr_on_connect m1) i m1)"
    have "undisturbed ops m1 (fst (call_session i (so_start ops) ?m2))"
      by (rule undisturbed_trans [OF undisturbed_callback [OF assms] undisturbed_start])
    with Pair Return show ?thesis by (simp add: register_and_start_split Let_def case_prod_beta)
  qed (simp add: Pair register_and_start_split)
qed

lemma remove_undisturbed:
  assumes "callbacks_keep ops run removed_hook" and "i \<in> set (mgr_sessions m)"
  shows "undisturbed ops (snd (remove_locked ops m i)) (fst (snd (remove_session ops run removed_hook m i)))"
proof (cases "remove_locked ops m i")
  case (Pair out m1)
  show ?thesis
  proof (cases out)
    case (Return u)
    let ?m2 = "fst (run_callback run (mgr_on_disconnect m1) i m1)"
    have "undisturbed ops m1 (fst (removed_hook i ?m2))"
      by (rule undisturbed_trans [OF undisturbed_callback [OF assms(1)] undisturbed_hook [OF assms(1)]])
    with Pair Return assms(2) show ?thesis by (simp add: remove_session_split Let_def case_prod_beta)
  qed (simp add: Pair remove_session_split assms(2))
qed

lemma stop_undisturbed: "undisturbed ops m m' \<Longrightarrow> undisturbed ops (fst (manager_stop ops m)) (fst (manager_stop ops m'))"
  by (simp add: undisturbed_def stop_registry stop_peers)

lemma thread_undisturbed:
  assumes "thread_step ops run removed_hook q q'" and "callbacks_keep ops run removed_hook"
  shows "undisturbed ops (pool_manager q) (pool_manager q')"
  using assms(1)
  by cases (simp_all add: undisturbed_callback [OF assms(2)] undisturbed_hook [OF assms(2)] undisturbed_start)

text \<open>One step of the pool, seen from the sequential execution.\<close>

lemma pool_step_linear:
  assumes "pool_step ops run removed_hook q q'" and keep: "callbacks_keep ops run removed_hook"
    and lin: "undisturbed ops (fold (replay ops run removed_hook) (pool_log q) m0) (pool_manager q)"
      (is "undisturbed ops ?m _")
  shows "undisturbed ops (fold (replay ops run removed_hook) (pool_log q') m0) (pool_manager q')"
proof -
  from assms(1) consider "thread_step ops run removed_hook q q'" | "call_step ops q q'"
    by (auto simp: pool_step_def)
  then show ?thesis
  proof cases
    case 1
    then have "fold (replay ops run removed_hook) (pool_log q') m0 = ?m"
      by cases simp_all
    with undisturbed_trans [OF lin thread_undisturbed [OF 1 keep]] show ?thesis by simp
  next
    case 2
    then show ?thesis
    proof cases
      case (registers i)
      with undisturbed_trans [OF undisturbed_sym [OF register_undisturbed [OF keep]] locked_cong(1) [OF lin]]
      show ?thesis by simp
    next
      case (removes i)
      with lin have "i \<in> set (mgr_sessions ?m)" by (simp add: undisturbed_def)
      from undisturbed_trans [OF undisturbed_sym [OF remove_undisturbed [OF keep this]] locked_cong(2) [OF lin]] removes
      show ?thesis by simp
    next
      case stops
      with stop_undisturbed [OF lin] show ?thesis by simp
    next
      case (active s i)
      with undisturbed_trans [OF lin undisturbed_update] show ?thesis by simp
    qed (use lin in simp_all)
  qed
qed

lemma pool_step_peers:
  assumes "pool_step ops run removed_hook q q'" and keep: "callbacks_keep ops run removed_hook"
  shows "peer_ip ops (pool_manager q') j = peer_ip ops (pool_manager q) j"
proof -
  from assms(1) consider "thread_step ops run removed_hook q q'" | "call_step ops q q'"
    by (auto simp: pool_step_def)
  then show ?thesis
  proof cases
    case 1
    then show ?thesis
      using thread_undisturbed [OF _ keep] by (simp add: undisturbed_def)
  next
    case 2
    then show ?thesis
      by cases (simp_all add: update_object_def stop_peers)
  qed
qed

end

section \<open>The order of the callbacks\<close>

text \<open>A call of \<^verbatim>\<open>register_and_start\<close> takes a session through its arrival, one of \<^verbatim>\<open>remove_session\<close> through its
  departure.\<close>

definition arrival :: "sid \<Rightarrow> manager_event list" where
  "arrival i = [Registered i, Connect_run i, Started i]"

definition departure :: "sid \<Rightarrow> manager_event list" where
  "departure i = [Removed i, Disconnect_run i, Hook_run i]"

definition along :: "manager_event list \<Rightarrow> manager_event list \<Rightarrow> manager_event list" where
  "along log es = filter (\<lambda>e. e \<in> set es) log"

abbreviation arrived :: "('s, 'f, 'z) pool \<Rightarrow> sid \<Rightarrow> manager_event list" where
  "arrived q i \<equiv> along (pool_log q) (arrival i)"

abbreviation departed :: "('s, 'f, 'z) pool \<Rightarrow> sid \<Rightarrow> manager_event list" where
  "departed q i \<equiv> along (pool_log q) (departure i)"

text \<open>
  Session \<open>i\<close> has gone through a prefix of its arrival and of its departure, in each a thread is inside
  the call exactly when it stands between two phases of it, and its handshake is pending only before
  the arrival; it is registered between the beginnings of the two, and the arrival begins first.
\<close>

definition arriving :: "('s, 'k, 'c) session_ops \<Rightarrow> ('s, 'f, 'z) pool \<Rightarrow> sid \<Rightarrow> bool" where
  "arriving ops q i \<longleftrightarrow> prefix (arrived q i) (arrival i) \<and>
     (1 < length (arrived q i) \<longrightarrow> returns (peer_ip ops (pool_manager q) i)) \<and>
     count (pool_pcs q) (At_on_connect i) = of_bool (length (arrived q i) = 1 \<and> returns (peer_ip ops (pool_manager q) i)) \<and>
     count (pool_pcs q) (At_start i) = of_bool (length (arrived q i) = 2) \<and>
     count (pool_handshakes q) i \<le> of_bool (i \<in> pool_created q \<and> arrived q i = []) \<and>
     (arrived q i \<noteq> [] \<longrightarrow> i \<in> pool_created q)"

definition departing :: "('s, 'k, 'c) session_ops \<Rightarrow> ('s, 'f, 'z) pool \<Rightarrow> sid \<Rightarrow> bool" where
  "departing ops q i \<longleftrightarrow> prefix (departed q i) (departure i) \<and>
     (1 < length (departed q i) \<longrightarrow> returns (peer_ip ops (pool_manager q) i)) \<and>
     count (pool_pcs q) (At_on_disconnect i) = of_bool (length (departed q i) = 1 \<and> returns (peer_ip ops (pool_manager q) i)) \<and>
     count (pool_pcs q) (At_removed_hook i) = of_bool (length (departed q i) = 2)"

definition placed :: "('s, 'f, 'z) pool \<Rightarrow> sid \<Rightarrow> bool" where
  "placed q i \<longleftrightarrow>
     (i \<in> set (mgr_sessions (pool_manager q)) \<longrightarrow> arrived q i \<noteq> [] \<and> departed q i = []) \<and>
     (departed q i \<noteq> [] \<longrightarrow> arrived q i \<noteq> []) \<and>
     (events_of (pool_log q) i = [] \<or> hd (events_of (pool_log q) i) = Registered i)"

definition in_order :: "('s, 'k, 'c) session_ops \<Rightarrow> ('s, 'f, 'z) pool \<Rightarrow> sid \<Rightarrow> bool" where
  "in_order ops q i \<longleftrightarrow> arriving ops q i \<and> departing ops q i \<and> placed q i"

definition stopped_silent :: "('s, 'f, 'z) pool \<Rightarrow> bool" where
  "stopped_silent q \<longleftrightarrow> (\<forall>is i. Manager_stopped is \<in> set (pool_log q) \<longrightarrow> i \<in> set is \<longrightarrow>
     i \<notin> set (mgr_sessions (pool_manager q)) \<and> arrived q i \<noteq> [] \<and> departed q i = [])"

definition pool_inv :: "('s, 'k, 'c) session_ops \<Rightarrow> ('s, 'f, 'z) pool \<Rightarrow> bool" where
  "pool_inv ops q \<longleftrightarrow> distinct (mgr_sessions (pool_manager q)) \<and> (\<forall>i. in_order ops q i) \<and> stopped_silent q"

lemma along_log [simp]: "along (log @ [e]) es = along log es @ (if e \<in> set es then [e] else [])" "along [] es = []"
  by (simp_all add: along_def)

lemma events_of_log [simp]:
  "events_of (log @ [e]) i = events_of log i @ (if subject e = Some i then [e] else [])" "events_of [] i = []"
  by (simp_all add: events_of_def)

lemma in_phases [simp]:
  "e \<in> set (arrival i) \<longleftrightarrow> e \<in> {Registered i, Connect_run i, Started i}"
  "e \<in> set (departure i) \<longleftrightarrow> e \<in> {Removed i, Disconnect_run i, Hook_run i}"
  by (simp_all add: arrival_def departure_def)

lemma along_empty: "events_of log i = [] \<Longrightarrow> along log (arrival i) = [] \<and> along log (departure i) = []"
  by (auto simp: events_of_def along_def filter_empty_conv)

lemma prefix_phases:
  "prefix xs (arrival i) \<longleftrightarrow> xs \<in> {[], [Registered i], [Registered i, Connect_run i], [Registered i, Connect_run i, Started i]}"
  "prefix xs (departure i) \<longleftrightarrow> xs \<in> {[], [Removed i], [Removed i, Disconnect_run i], [Removed i, Disconnect_run i, Hook_run i]}"
  by (auto simp: arrival_def departure_def prefix_Cons)

fun pc_subject :: "manager_pc \<Rightarrow> sid" where
  "pc_subject (At_on_connect i) = i"
| "pc_subject (At_start i) = i"
| "pc_subject (At_on_disconnect i) = i"
| "pc_subject (At_removed_hook i) = i"

text \<open>A step that does not concern session \<open>j\<close>.\<close>

lemma in_order_other:
  assumes "in_order ops q j" and "arrived q' j = arrived q j" and "departed q' j = departed q j"
    and "events_of (pool_log q') j = events_of (pool_log q) j"
    and "\<And>c. pc_subject c = j \<Longrightarrow> count (pool_pcs q') c = count (pool_pcs q) c"
    and "count (pool_handshakes q') j = count (pool_handshakes q) j" and "j \<in> pool_created q' \<longleftrightarrow> j \<in> pool_created q"
    and "j \<in> set (mgr_sessions (pool_manager q')) \<Longrightarrow> j \<in> set (mgr_sessions (pool_manager q))"
    and "peer_ip ops (pool_manager q') j = peer_ip ops (pool_manager q) j"
  shows "in_order ops q' j"
  using assms by (auto simp: in_order_def arriving_def departing_def placed_def)

lemmas in_order_defs = in_order_def arriving_def departing_def placed_def prefix_phases

text \<open>Where a session stands when a thread is inside a call for it.\<close>

lemma in_order_inside:
  assumes "in_order ops q i"
  shows "At_on_connect i \<in># pool_pcs q \<Longrightarrow> arrived q i = [Registered i] \<and> returns (peer_ip ops (pool_manager q) i)"
    and "At_start i \<in># pool_pcs q \<Longrightarrow> arrived q i = [Registered i, Connect_run i]"
    and "At_on_disconnect i \<in># pool_pcs q \<Longrightarrow> departed q i = [Removed i] \<and> returns (peer_ip ops (pool_manager q) i)"
    and "At_removed_hook i \<in># pool_pcs q \<Longrightarrow> departed q i = [Removed i, Disconnect_run i]"
proof -
  have a: "arriving ops q i" and d: "departing ops q i" using assms by (simp_all add: in_order_def)
  show "At_on_connect i \<in># pool_pcs q \<Longrightarrow> arrived q i = [Registered i] \<and> returns (peer_ip ops (pool_manager q) i)"
    and "At_start i \<in># pool_pcs q \<Longrightarrow> arrived q i = [Registered i, Connect_run i]"
    using a by (auto simp: arriving_def prefix_phases simp flip: count_greater_zero_iff)
  show "At_on_disconnect i \<in># pool_pcs q \<Longrightarrow> departed q i = [Removed i] \<and> returns (peer_ip ops (pool_manager q) i)"
    and "At_removed_hook i \<in># pool_pcs q \<Longrightarrow> departed q i = [Removed i, Disconnect_run i]"
    using d by (auto simp: departing_def prefix_phases simp flip: count_greater_zero_iff)
qed

text \<open>A step of the arrival, and a step of the departure.\<close>

lemma in_order_arrival:
  assumes inv: "\<And>j. in_order ops q j" and nxt: "prefix (arrived q i @ [e]) (arrival i)" and "e \<in> set (arrival i)"
    and "e \<noteq> Registered i \<Longrightarrow> arrived q i \<noteq> [] \<and> returns (peer_ip ops (pool_manager q) i)"
    and "count pcs (At_on_connect i) = of_bool (e = Registered i \<and> returns (peer_ip ops (pool_manager q) i))"
    and "count pcs (At_start i) = of_bool (e = Connect_run i)"
    and "e = Registered i \<Longrightarrow> departed q i = [] \<and> i \<in> pool_created q"
    and pcs: "\<And>c. c \<notin> {At_on_connect i, At_start i} \<Longrightarrow> count pcs c = count (pool_pcs q) c"
    and hs: "\<And>j. count hs j = (if j = i then 0 else count (pool_handshakes q) j)"
    and sessions: "\<And>j. j \<in> set (mgr_sessions m) \<Longrightarrow> j \<in> set (mgr_sessions (pool_manager q)) \<or> j = i \<and> e = Registered i"
    and peers: "\<And>j. peer_ip ops m j = peer_ip ops (pool_manager q) j"
  shows "in_order ops (log_event e m pcs (q\<lparr>pool_handshakes := hs\<rparr>)) j"
proof (cases "j = i")
  case True
  have new: "arrived (log_event e m pcs (q\<lparr>pool_handshakes := hs\<rparr>)) i = arrived q i @ [e]"
    "departed (log_event e m pcs (q\<lparr>pool_handshakes := hs\<rparr>)) i = departed q i"
    "events_of (pool_log (log_event e m pcs (q\<lparr>pool_handshakes := hs\<rparr>))) i = events_of (pool_log q) i @ [e]"
    using assms(3) by auto
  have nth: "length (arrived q i @ [e]) = 1 \<longleftrightarrow> e = Registered i" "length (arrived q i @ [e]) = 2 \<longleftrightarrow> e = Connect_run i"
    "1 < length (arrived q i @ [e]) \<longleftrightarrow> e \<noteq> Registered i"
    using nxt by (auto simp: prefix_phases)
  have "arriving ops (log_event e m pcs (q\<lparr>pool_handshakes := hs\<rparr>)) i"
    unfolding arriving_def new nth
    using nxt assms(4-7) peers hs inv [of i] by (auto simp: in_order_def arriving_def)
  moreover have "departing ops (log_event e m pcs (q\<lparr>pool_handshakes := hs\<rparr>)) i"
    unfolding departing_def new using pcs peers inv [of i] by (simp add: in_order_def departing_def)
  moreover have "placed (log_event e m pcs (q\<lparr>pool_handshakes := hs\<rparr>)) i"
    unfolding placed_def new using sessions [of i] assms(4,7) along_empty [of "pool_log q" i] inv [of i]
    by (auto simp: in_order_def placed_def hd_append)
  ultimately show ?thesis by (simp add: True in_order_def)
next
  case False
  with assms(3) have "arrived (log_event e m pcs (q\<lparr>pool_handshakes := hs\<rparr>)) j = arrived q j"
    "departed (log_event e m pcs (q\<lparr>pool_handshakes := hs\<rparr>)) j = departed q j"
    "events_of (pool_log (log_event e m pcs (q\<lparr>pool_handshakes := hs\<rparr>))) j = events_of (pool_log q) j"
    by auto
  moreover have "count pcs c = count (pool_pcs q) c" if "pc_subject c = j" for c
    using pcs [of c] that False by (cases c) auto
  ultimately show ?thesis
    by (intro in_order_other [OF inv]) (use False hs sessions peers in auto)
qed

lemma in_order_departure:
  assumes inv: "\<And>j. in_order ops q j" and nxt: "prefix (departed q i @ [e]) (departure i)" and "e \<in> set (departure i)"
    and "e \<noteq> Removed i \<Longrightarrow> departed q i \<noteq> [] \<and> returns (peer_ip ops (pool_manager q) i)"
    and "count pcs (At_on_disconnect i) = of_bool (e = Removed i \<and> returns (peer_ip ops (pool_manager q) i))"
    and "count pcs (At_removed_hook i) = of_bool (e = Disconnect_run i)"
    and "e = Removed i \<Longrightarrow> arrived q i \<noteq> []" and "i \<notin> set (mgr_sessions m)"
    and pcs: "\<And>c. c \<notin> {At_on_disconnect i, At_removed_hook i} \<Longrightarrow> count pcs c = count (pool_pcs q) c"
    and sessions: "\<And>j. j \<in> set (mgr_sessions m) \<Longrightarrow> j \<in> set (mgr_sessions (pool_manager q))"
    and peers: "\<And>j. peer_ip ops m j = peer_ip ops (pool_manager q) j"
  shows "in_order ops (log_event e m pcs q) j"
proof (cases "j = i")
  case True
  have new: "arrived (log_event e m pcs q) i = arrived q i" "departed (log_event e m pcs q) i = departed q i @ [e]"
    "events_of (pool_log (log_event e m pcs q)) i = events_of (pool_log q) i @ [e]"
    using assms(3) by auto
  have nth: "length (departed q i @ [e]) = 1 \<longleftrightarrow> e = Removed i" "length (departed q i @ [e]) = 2 \<longleftrightarrow> e = Disconnect_run i"
    "1 < length (departed q i @ [e]) \<longleftrightarrow> e \<noteq> Removed i"
    using nxt by (auto simp: prefix_phases)
  have begun: "arrived q i \<noteq> []" using assms(4,7) inv [of i] by (auto simp: in_order_def placed_def)
  have "departing ops (log_event e m pcs q) i"
    unfolding departing_def new nth using nxt assms(4-6) peers by auto
  moreover have "arriving ops (log_event e m pcs q) i"
    unfolding arriving_def new using pcs peers inv [of i] by (simp add: in_order_def arriving_def)
  moreover have "placed (log_event e m pcs q) i"
    unfolding placed_def new using assms(8) begun along_empty [of "pool_log q" i] inv [of i]
    by (auto simp: in_order_def placed_def hd_append)
  ultimately show ?thesis by (simp add: True in_order_def)
next
  case False
  with assms(3) have "arrived (log_event e m pcs q) j = arrived q j" "departed (log_event e m pcs q) j = departed q j"
    "events_of (pool_log (log_event e m pcs q)) j = events_of (pool_log q) j"
    by auto
  moreover have "count pcs c = count (pool_pcs q) c" if "pc_subject c = j" for c
    using pcs [of c] that False by (cases c) auto
  ultimately show ?thesis
    by (intro in_order_other [OF inv]) (use sessions peers in auto)
qed

lemma same_handshakes: "q\<lparr>pool_handshakes := pool_handshakes q\<rparr> = q"
  by (cases q) simp

lemma in_order_no_handshake: "in_order ops q i \<Longrightarrow> arrived q i \<noteq> [] \<Longrightarrow> count (pool_handshakes q) i = 0"
  by (simp add: in_order_def arriving_def)

lemma in_order_waiting:
  assumes "in_order ops q i" and "i \<in># pool_handshakes q"
  shows "arrived q i = [] \<and> departed q i = [] \<and> count (pool_handshakes q) i = 1 \<and> i \<in> pool_created q \<and>
    i \<notin> set (mgr_sessions (pool_manager q))"
proof -
  have n: "count (pool_handshakes q) i \<noteq> 0" using assms(2) by simp
  have le: "count (pool_handshakes q) i \<le> of_bool (i \<in> pool_created q \<and> arrived q i = [])"
    using assms(1) by (simp only: in_order_def arriving_def)
  have "i \<in> pool_created q \<and> arrived q i = []"
    by (rule ccontr) (use n le in \<open>simp only: of_bool_def if_False le_zero_eq\<close>)
  moreover have "of_bool P \<le> (1 :: nat)" for P by simp
  with n le have "count (pool_handshakes q) i = 1" by (meson le_antisym le_trans less_one not_le)
  moreover have "placed q i" using assms(1) by (simp add: in_order_def)
  ultimately show ?thesis by (auto simp: placed_def)
qed

context managed_session
begin

lemma thread_step_order:
  assumes "thread_step ops run removed_hook q q'" and keep: "callbacks_keep ops run removed_hook"
    and inv: "\<And>i. in_order ops q i"
  shows "in_order ops q' j"
proof -
  have kept: "mgr_sessions (pool_manager q') = mgr_sessions (pool_manager q)"
    "\<And>i. peer_ip ops (pool_manager q') i = peer_ip ops (pool_manager q) i"
    using thread_undisturbed [OF assms(1) keep] by (simp_all add: undisturbed_def)
  from assms(1) show ?thesis
  proof cases
    case (connect i)
    note in_order_inside(1) [OF inv connect(2)] in_order_no_handshake [OF inv, of i] inv [of i]
    then show ?thesis
      unfolding connect(1) using kept connect
      by (subst same_handshakes [symmetric], intro in_order_arrival [OF inv, where i = i])
         (auto simp: in_order_def arriving_def arrival_def)
  next
    case (start i)
    note in_order_inside(2) [OF inv start(2)] in_order_no_handshake [OF inv, of i] inv [of i]
    then show ?thesis
      unfolding start(1) using kept start
      by (subst same_handshakes [symmetric], intro in_order_arrival [OF inv, where i = i])
         (auto simp: in_order_def arriving_def arrival_def)
  next
    case (disconnect i)
    note in_order_inside(3) [OF inv disconnect(2)] inv [of i]
    then show ?thesis
      unfolding disconnect(1) using kept disconnect
      by (intro in_order_departure [OF inv, where i = i]) (auto simp: in_order_def departing_def placed_def departure_def)
  next
    case (hook i)
    note in_order_inside(4) [OF inv hook(2)] inv [of i]
    then show ?thesis
      unfolding hook(1) using kept hook
      by (intro in_order_departure [OF inv, where i = i]) (auto simp: in_order_def departing_def placed_def departure_def)
  qed
qed

lemma call_step_order:
  assumes "call_step ops q q'" and inv: "\<And>i. in_order ops q i" and "distinct (mgr_sessions (pool_manager q))"
  shows "in_order ops q' j"
  using assms(1)
proof cases
  case (creates i)
  show ?thesis
  proof (cases "j = i")
    case True
    have "arrived q i = []" "count (pool_handshakes q) i = 0"
      using inv [of i] creates(2) by (auto simp: in_order_def arriving_def)
    with inv [of i] creates show ?thesis by (simp add: True in_order_def arriving_def departing_def placed_def)
  next
    case False
    with creates(1) show ?thesis by (intro in_order_other [OF inv [of j]]) simp_all
  qed
next
  case (handshake_fails i)
  with inv [of j] show ?thesis
    by (auto simp: in_order_def arriving_def departing_def placed_def intro: le_trans [OF diff_le_self])
next
  case (registers i r)
  note waiting = in_order_waiting [OF inv registers(2)]
  show ?thesis
    unfolding registers(1) using waiting registers inv [of i]
    by (intro in_order_arrival [OF inv, where i = i]) (auto simp: in_order_def arriving_def arrival_def)
next
  case (removes i r)
  show ?thesis
    unfolding removes(1) using removes inv [of i] assms(3)
    by (intro in_order_departure [OF inv, where i = i])
       (auto simp: in_order_def departing_def placed_def departure_def dest: notin_set_remove1)
next
  case stops
  with inv [of j] show ?thesis
    by (intro in_order_other [OF inv [of j]]) (simp_all add: stop_registry stop_peers)
next
  case (active s i)
  with inv [of j] show ?thesis
    by (intro in_order_other [OF inv [of j]]) (auto simp: update_object_def)
qed

lemma call_step_distinct:
  assumes "call_step ops q q'" and inv: "\<And>i. in_order ops q i" and "distinct (mgr_sessions (pool_manager q))"
  shows "distinct (mgr_sessions (pool_manager q'))"
  using assms(1)
proof cases
  case (registers i r)
  with in_order_waiting [OF inv registers(2)] assms(3) show ?thesis by simp
qed (use assms(3) in \<open>simp_all add: stop_registry update_object_def\<close>)

lemma thread_step_stopped:
  assumes "thread_step ops run removed_hook q q'" and keep: "callbacks_keep ops run removed_hook"
    and inv: "\<And>i. in_order ops q i" and silent: "stopped_silent q"
  shows "stopped_silent q'"
proof -
  have sessions: "mgr_sessions (pool_manager q') = mgr_sessions (pool_manager q)"
    using thread_undisturbed [OF assms(1) keep] by (simp add: undisturbed_def)
  have "(\<forall>is. Manager_stopped is \<in> set (pool_log q') \<longrightarrow> Manager_stopped is \<in> set (pool_log q)) \<and>
    (\<forall>i. (arrived q i \<noteq> [] \<longrightarrow> arrived q' i \<noteq> []) \<and> (departed q i = [] \<longrightarrow> departed q' i = []))"
    using assms(1) by cases (auto dest: in_order_inside [OF inv])
  with silent show ?thesis unfolding stopped_silent_def sessions by blast
qed

lemma call_step_stopped:
  assumes "call_step ops q q'" and inv: "\<And>i. in_order ops q i" and silent: "stopped_silent q"
  shows "stopped_silent q'"
  using assms(1)
proof cases
  case (registers i r)
  with silent in_order_waiting [OF inv registers(2)] show ?thesis by (fastforce simp: stopped_silent_def)
next
  case (removes i r)
  with silent show ?thesis
    by (auto simp: stopped_silent_def dest: notin_set_remove1)
next
  case stops
  with silent inv show ?thesis
    by (auto simp: stopped_silent_def stop_registry in_order_def placed_def)
qed (use silent in \<open>simp_all add: stopped_silent_def update_object_def\<close>)

lemma pool_step_inv:
  assumes "pool_step ops run removed_hook q q'" and "callbacks_keep ops run removed_hook" and "pool_inv ops q"
  shows "pool_inv ops q'"
proof -
  have inv: "\<And>i. in_order ops q i" "distinct (mgr_sessions (pool_manager q))" "stopped_silent q"
    using assms(3) by (simp_all add: pool_inv_def)
  from assms(1) consider (thread) "thread_step ops run removed_hook q q'" | (call) "call_step ops q q'"
    by (auto simp: pool_step_def)
  then show ?thesis
  proof cases
    case thread
    moreover have "mgr_sessions (pool_manager q') = mgr_sessions (pool_manager q)"
      using thread_undisturbed [OF thread assms(2)] by (simp add: undisturbed_def)
    ultimately show ?thesis
      using thread_step_order [OF thread assms(2) inv(1)] thread_step_stopped [OF thread assms(2) inv(1,3)] inv(2)
      by (simp add: pool_inv_def)
  next
    case call
    then show ?thesis
      using call_step_order [OF call inv(1,2)] call_step_stopped [OF call inv(1,3)] call_step_distinct [OF call inv(1,2)]
      by (simp add: pool_inv_def)
  qed
qed

end

lemma new_pool_inv: "mgr_sessions m = [] \<Longrightarrow> pool_inv ops (new_pool m)"
  by (simp add: pool_inv_def in_order_def arriving_def departing_def placed_def stopped_silent_def new_pool_def)

text \<open>The life of a session whose start was not overtaken by its removal.\<close>

definition precedes :: "manager_event \<Rightarrow> manager_event \<Rightarrow> manager_event list \<Rightarrow> bool" where
  "precedes e e' log \<longleftrightarrow> e \<in> set (takeWhile (\<lambda>x. x \<noteq> e') log)"

lemma along_events_of: "along (events_of log i) (arrival i) = along log (arrival i)"
  "along (events_of log i) (departure i) = along log (departure i)"
  by (auto simp: along_def events_of_def intro!: filter_cong)

lemma events_of_phases: "e \<in> set (events_of log i) \<Longrightarrow> e \<in> set (arrival i) \<or> e \<in> set (departure i)"
  by (cases e) (auto simp: events_of_def)

lemma in_order_phases:
  assumes "in_order ops q i" and "Removed i \<notin> set (pool_log q) \<or> precedes (Started i) (Removed i) (events_of (pool_log q) i)"
  shows "events_of (pool_log q) i = arrived q i @ departed q i"
proof -
  define es where "es = events_of (pool_log q) i"
  define xs where "xs = takeWhile (\<lambda>x. x \<noteq> Removed i) es"
  define ys where "ys = dropWhile (\<lambda>x. x \<noteq> Removed i) es"
  have es: "es = xs @ ys" by (simp add: xs_def ys_def)
  have all: "e \<in> set es \<Longrightarrow> e \<in> set (arrival i) \<or> e \<in> set (departure i)" for e
    unfolding es_def by (rule events_of_phases)
  have prefixes: "prefix (along es (arrival i)) (arrival i)" "prefix (along es (departure i)) (departure i)"
    using assms(1) by (simp_all add: es_def along_events_of in_order_def arriving_def departing_def)
  have split: "along es zs = along xs zs @ along ys zs" for zs by (simp add: es along_def)
  have "prefix (along xs (departure i)) (departure i)" using prefixes(2) unfolding split by (rule append_prefixD)
  moreover have "Removed i \<notin> set (along xs (departure i))" by (auto simp: xs_def along_def dest: set_takeWhileD)
  ultimately have "along xs (departure i) = []" by (auto simp: prefix_phases)
  then have xs: "xs = along xs (arrival i)"
    using all unfolding es by (auto simp: along_def filter_empty_conv intro!: filter_True [symmetric])
  have ys: "along ys (arrival i) = []"
  proof (cases "Removed i \<in> set (pool_log q)")
    case True
    then have "Started i \<in> set (along xs (arrival i))" using assms(2) by (simp add: precedes_def es_def xs_def along_def)
    moreover have "prefix (along xs (arrival i)) (arrival i)" using prefixes(1) unfolding split by (rule append_prefixD)
    ultimately have "along xs (arrival i) = arrival i" by (auto simp: prefix_phases) (simp add: arrival_def)
    with prefixes(1) show ?thesis unfolding split by simp
  next
    case False
    then have "ys = []" by (auto simp: ys_def es_def events_of_def dropWhile_eq_Nil_conv)
    then show ?thesis by simp
  qed
  then have "ys = along ys (departure i)"
    using all unfolding es by (auto simp: along_def filter_empty_conv intro!: filter_True [symmetric])
  with xs ys \<open>along xs (departure i) = []\<close> have "es = along es (arrival i) @ along es (departure i)"
    by (simp add: es along_def)
  then show ?thesis by (simp add: es_def along_events_of)
qed

lemma in_order_prefix:
  assumes "in_order ops q i" and "Removed i \<notin> set (pool_log q) \<or> precedes (Started i) (Removed i) (events_of (pool_log q) i)"
  shows "prefix (events_of (pool_log q) i) (phases i)"
proof -
  have phases: "phases i = arrival i @ departure i" by (simp add: phases_def arrival_def departure_def)
  have prefixes: "prefix (arrived q i) (arrival i)" "prefix (departed q i) (departure i)"
    using assms(1) by (simp_all add: in_order_def arriving_def departing_def)
  show ?thesis
  proof (cases "Removed i \<in> set (pool_log q)")
    case True
    then have "Started i \<in> set (arrived q i)"
      using assms(2) by (auto simp: precedes_def events_of_def along_def dest!: set_takeWhileD)
    with prefixes(1) have "arrived q i = arrival i" by (auto simp: prefix_phases) (simp add: arrival_def)
    with in_order_phases [OF assms] prefixes(2) show ?thesis by (simp add: phases)
  next
    case False
    then have "departed q i = []" using prefixes(2) by (auto simp: prefix_phases along_def dest!: arg_cong [of _ _ set])
    with in_order_phases [OF assms] prefixes(1) show ?thesis by (simp add: phases)
  qed
qed

lemma precedes_later:
  assumes "Removed i \<in> set log" and "precedes e (Removed i) (events_of log i)"
  shows "precedes e (Removed i) (events_of (log @ later) i)"
proof -
  have "Removed i \<in> set (events_of log i)" using assms(1) by (simp add: events_of_def)
  then have "takeWhile (\<lambda>x. x \<noteq> Removed i) (events_of (log @ later) i) = takeWhile (\<lambda>x. x \<noteq> Removed i) (events_of log i)"
    unfolding events_of_def filter_append by (intro takeWhile_append1) auto
  with assms(2) show ?thesis by (simp add: precedes_def)
qed

section \<open>Calls that are under way complete\<close>

fun pc_weight :: "manager_pc \<Rightarrow> nat" where
  "pc_weight (At_on_connect _) = 2"
| "pc_weight (At_start _) = 1"
| "pc_weight (At_on_disconnect _) = 2"
| "pc_weight (At_removed_hook _) = 1"

definition pool_weight :: "('s, 'f, 'z) pool \<Rightarrow> nat" where
  "pool_weight q = sum_mset (image_mset pc_weight (pool_pcs q))"

lemma pool_weight_remove: "c \<in># pool_pcs q \<Longrightarrow> pool_weight q = sum_mset (image_mset pc_weight (pool_pcs q - {#c#})) + pc_weight c"
  by (metis pool_weight_def add.commute image_mset_add_mset insert_DiffM sum_mset.add_mset)

lemma thread_step_weight: "thread_step ops run removed_hook q q' \<Longrightarrow> pool_weight q' < pool_weight q"
  by (induction rule: thread_step.induct) (simp_all add: pool_weight_remove, simp_all add: pool_weight_def)

lemma thread_stuck: "(\<nexists>q'. thread_step ops run removed_hook q q') \<Longrightarrow> pool_pcs q = {#}"
proof (rule ccontr)
  assume stuck: "\<nexists>q'. thread_step ops run removed_hook q q'" and "pool_pcs q \<noteq> {#}"
  then obtain c where "c \<in># pool_pcs q" by blast
  with stuck show False by (cases c) (blast intro: thread_step.intros)+
qed

lemma threads_log: "(thread_step ops run removed_hook)\<^sup>*\<^sup>* q q' \<Longrightarrow> \<exists>later. pool_log q' = pool_log q @ later"
proof (induction rule: rtranclp_induct)
  case (step q' q'')
  from step(2) have "\<exists>e. pool_log q'' = pool_log q' @ [e]" by cases simp_all
  with step(3) show ?case by auto
qed simp

text \<open>Where a session stands when no call is under way.\<close>

lemma in_order_idle:
  assumes "in_order ops q i" and "pool_pcs q = {#}"
  shows "arrived q i \<in> {[], arrival i} \<or> arrived q i = [Registered i] \<and> \<not> returns (peer_ip ops (pool_manager q) i)"
    and "departed q i \<in> {[], departure i} \<or> departed q i = [Removed i] \<and> \<not> returns (peer_ip ops (pool_manager q) i)"
proof -
  have a: "arriving ops q i" and d: "departing ops q i" using assms(1) by (simp_all add: in_order_def)
  show "arrived q i \<in> {[], arrival i} \<or> arrived q i = [Registered i] \<and> \<not> returns (peer_ip ops (pool_manager q) i)"
    using a assms(2) by (auto simp: arriving_def prefix_phases) (simp_all add: arrival_def)
  show "departed q i \<in> {[], departure i} \<or> departed q i = [Removed i] \<and> \<not> returns (peer_ip ops (pool_manager q) i)"
    using d assms(2) by (auto simp: departing_def prefix_phases) (simp_all add: departure_def)
qed

lemma in_along: "e \<in> set es \<Longrightarrow> e \<in> set (along log es) \<longleftrightarrow> e \<in> set log"
  by (simp add: along_def)

lemma in_order_departed:
  assumes "in_order ops q i" and "pool_pcs q = {#}" and "Removed i \<in> set (pool_log q)"
    and "returns (peer_ip ops (pool_manager q) i)"
  shows "departed q i = departure i"
proof -
  have "Removed i \<in> set (departed q i)" using assms(3) by (simp add: along_def)
  with in_order_idle(2) [OF assms(1,2)] assms(4) show ?thesis by auto
qed

lemma in_order_begun:
  assumes "in_order ops q i" and "pool_pcs q = {#}" and "Registered i \<in> set (pool_log q)"
    and "returns (peer_ip ops (pool_manager q) i)"
  shows "arrived q i = arrival i"
proof -
  have "Registered i \<in> set (arrived q i)" using assms(3) by (simp add: along_def)
  with in_order_idle(1) [OF assms(1,2)] assms(4) show ?thesis by auto
qed

lemma in_order_completed:
  assumes "in_order ops q i" and "pool_pcs q = {#}" and "Removed i \<in> set (pool_log q)"
    and "precedes (Started i) (Removed i) (events_of (pool_log q) i)"
  shows "events_of (pool_log q) i = phases i"
proof -
  have "Started i \<in> set (arrived q i)"
    using assms(4) by (auto simp: precedes_def events_of_def along_def dest!: set_takeWhileD)
  then have "arrived q i = arrival i" using in_order_idle(1) [OF assms(1,2)] by auto
  moreover have "returns (peer_ip ops (pool_manager q) i)"
    using assms(1) calculation by (simp add: in_order_def arriving_def arrival_def)
  ultimately show ?thesis
    using in_order_phases [OF assms(1)] in_order_departed [OF assms(1-3)] assms(4)
    by (simp add: phases_def arrival_def departure_def)
qed

interpretation tcp_pool: step_invariant
  "pool_step (tcp_session_ops a :: (('u, 'r manager_callback, 'x) session, 'r manager_callback, ('u, 'r manager_callback) session_effect) session_ops) run removed_hook"
  "\<lambda>q. callbacks_keep (tcp_session_ops a) run removed_hook \<and> pool_inv (tcp_session_ops a) q"
  for a run removed_hook
  by unfold_locales (blast intro: tcp_session.pool_step_inv)

interpretation tcp_sequential: step_invariant
  "pool_step (tcp_session_ops a :: (('u, 'r manager_callback, 'x) session, 'r manager_callback, ('u, 'r manager_callback) session_effect) session_ops) run removed_hook"
  "\<lambda>q. callbacks_keep (tcp_session_ops a) run removed_hook \<and>
     undisturbed (tcp_session_ops a) (fold (replay (tcp_session_ops a) run removed_hook) (pool_log q) m0) (pool_manager q)"
  for a run removed_hook m0
  by unfold_locales (blast intro: tcp_session.pool_step_linear)

interpretation tcp_threads: decreasing_steps
  "thread_step (tcp_session_ops a :: (('u, 'r manager_callback, 'x) session, 'r manager_callback, ('u, 'r manager_callback) session_effect) session_ops) run removed_hook"
  "\<lambda>q. callbacks_keep (tcp_session_ops a) run removed_hook \<and> pool_inv (tcp_session_ops a) q" pool_weight
  for a run removed_hook
proof (unfold_locales, goal_cases)
  case (1 q q')
  then have "pool_step (tcp_session_ops a) run removed_hook q q'" by (simp add: pool_step_def)
  from tcp_pool.step_inv [OF this] 1(2) show ?case by blast
next
  case (2 q q')
  then show ?case by (simp add: thread_step_weight)
qed

text \<open>A session whose peer is known can go through all its phases.\<close>

context managed_session
begin

lemma register_run:
  assumes "callbacks_keep ops run removed_hook" and "pool_pcs q = {#}" and "i \<notin> pool_created q"
    and "returns (peer_ip ops (pool_manager q) i)"
  shows "\<exists>q'. (pool_step ops run removed_hook)\<^sup>*\<^sup>* q q' \<and> pool_pcs q' = {#} \<and>
    pool_log q' = pool_log q @ [Registered i, Connect_run i, Started i] \<and>
    mgr_sessions (pool_manager q') = mgr_sessions (pool_manager q) @ [i] \<and>
    (\<forall>j. peer_ip ops (pool_manager q') j = peer_ip ops (pool_manager q) j)"
proof -
  define m1 where "m1 = snd (register_locked ops (pool_manager q) i)"
  define m2 where "m2 = fst (run_callback run (mgr_on_connect m1) i m1)"
  define m3 where "m3 = fst (call_session i (so_start ops) m2)"
  let ?q0 = "q\<lparr>pool_created := insert i (pool_created q), pool_handshakes := pool_handshakes q + {#i#}\<rparr>"
  let ?q1 = "log_event (Registered i) m1 {#At_on_connect i#} (?q0\<lparr>pool_handshakes := pool_handshakes q\<rparr>)"
  let ?q2 = "log_event (Connect_run i) m2 {#At_start i#} ?q1"
  let ?q3 = "log_event (Started i) m3 {#} ?q2"
  have "pool_step ops run removed_hook q ?q0"
    using creates [OF assms(3), of ops] by (simp add: pool_step_def)
  moreover have "pool_step ops run removed_hook ?q0 ?q1"
    using registers [of i ?q0 _ ops, OF _ refl] assms(2,4) by (simp add: pool_step_def m1_def)
  moreover have "pool_step ops run removed_hook ?q1 ?q2"
    using connect [of i ?q1 ops run removed_hook] by (simp add: pool_step_def m2_def)
  moreover have "pool_step ops run removed_hook ?q2 ?q3"
    using start [of i ?q2 ops run removed_hook] by (simp add: pool_step_def m3_def)
  moreover have "undisturbed ops m1 m3"
    unfolding m2_def m3_def by (rule undisturbed_trans [OF undisturbed_callback [OF assms(1)] undisturbed_start])
  then have "mgr_sessions m3 = mgr_sessions (pool_manager q) @ [i]" "\<forall>j. peer_ip ops m3 j = peer_ip ops (pool_manager q) j"
    by (simp_all add: undisturbed_def m1_def)
  ultimately show ?thesis
    by (intro exI [of _ ?q3]) (auto intro: rtranclp.rtrancl_into_rtrancl)
qed

lemma remove_run:
  assumes "i \<in> set (mgr_sessions (pool_manager q))" and "pool_pcs q = {#}"
    and "returns (peer_ip ops (pool_manager q) i)"
  shows "\<exists>q'. (pool_step ops run removed_hook)\<^sup>*\<^sup>* q q' \<and> pool_log q' = pool_log q @ [Removed i, Disconnect_run i, Hook_run i]"
proof -
  define m1 where "m1 = snd (remove_locked ops (pool_manager q) i)"
  define m2 where "m2 = fst (run_callback run (mgr_on_disconnect m1) i m1)"
  let ?q1 = "log_event (Removed i) m1 {#At_on_disconnect i#} q"
  let ?q2 = "log_event (Disconnect_run i) m2 {#At_removed_hook i#} ?q1"
  let ?q3 = "log_event (Hook_run i) (fst (removed_hook i m2)) {#} ?q2"
  have "pool_step ops run removed_hook q ?q1"
    using removes [OF assms(1) refl, of ops] assms(2,3) by (simp add: pool_step_def m1_def)
  moreover have "pool_step ops run removed_hook ?q1 ?q2"
    using disconnect [of i ?q1 ops run removed_hook] by (simp add: pool_step_def m2_def)
  moreover have "pool_step ops run removed_hook ?q2 ?q3"
    using hook [of i ?q2 ops run removed_hook] by (simp add: pool_step_def)
  ultimately show ?thesis
    by (intro exI [of _ ?q3]) (auto intro: rtranclp.rtrancl_into_rtrancl)
qed

end

section \<open>Properties\<close>

text \<open>A pool over the manager of the concrete instances.\<close>

type_synonym demo_pool = "((unit, unit manager_callback, byte list \<times> byte list) session, nat, unit) pool"

lemma no_callbacks_keep [simp]: "callbacks_keep ops no_callbacks on_session_removed"
  by (simp add: callbacks_keep_def no_callbacks_def on_session_removed_def)

abbreviation demo_pool_step where
  "demo_pool_step \<equiv> pool_step (tcp_session_ops pipe_asio) no_callbacks on_session_removed"

lemma demo_pool_register:
  obtains q where "demo_pool_step\<^sup>*\<^sup>* (new_pool demo_manager) q" and "pool_pcs q = {#}"
    and "pool_log q = [Registered 4, Connect_run 4, Started 4]" and "mgr_sessions (pool_manager q) = [4]"
    and "returns (peer_ip (tcp_session_ops pipe_asio) (pool_manager q) 4)"
proof -
  have "returns (peer_ip (tcp_session_ops pipe_asio) (pool_manager (new_pool demo_manager)) 4)"
    unfolding ip_of_tcp_session by (simp add: new_pool_def)
  from tcp_session.register_run [OF no_callbacks_keep _ _ this] that this show thesis
    by (auto simp: new_pool_def)
qed

lemma demo_pool_remove:
  obtains q where "demo_pool_step\<^sup>*\<^sup>* (new_pool demo_manager) q" and "pool_log q = phases 4"
proof (rule demo_pool_register)
  fix q
  assume q: "demo_pool_step\<^sup>*\<^sup>* (new_pool demo_manager) q" "pool_pcs q = {#}"
    "pool_log q = [Registered 4, Connect_run 4, Started 4]" "mgr_sessions (pool_manager q) = [4]"
    "returns (peer_ip (tcp_session_ops pipe_asio) (pool_manager q) 4)"
  then have "4 \<in> set (mgr_sessions (pool_manager q))" by simp
  from tcp_session.remove_run [OF this q(2,5), of no_callbacks on_session_removed] that q(1,3) show thesis
    by (auto simp: phases_def intro: rtranclp_trans)
qed

lemma replay_manager_inv:
  fixes m :: "(('u, 'r manager_callback, 'x) session, 'f, 'z) manager_scheme"
  assumes "manager_inv (tcp_session_ops a) m" and "callbacks_ok (tcp_session_ops a) run" and "hook_ok (tcp_session_ops a) removed_hook"
  shows "manager_inv (tcp_session_ops a) (fold (replay (tcp_session_ops a) run removed_hook) log m)"
  using assms(1)
proof (induction log arbitrary: m)
  case (Cons e log)
  have "manager_inv (tcp_session_ops a) (replay (tcp_session_ops a) run removed_hook e m)"
  proof (cases e)
    case (Registered i)
    obtain out m' effs where r: "register_and_start (tcp_session_ops a) run m i = (out, m', effs)" by (rule prod_cases3)
    from tcp_session.register_inv [OF Cons.prems assms(2) r] Registered r show ?thesis by simp
  next
    case (Removed i)
    obtain out m' effs where r: "remove_session (tcp_session_ops a) run removed_hook m i = (out, m', effs)" by (rule prod_cases3)
    from tcp_session.remove_inv [OF Cons.prems assms(2,3) r] Removed r show ?thesis by simp
  qed (simp_all add: Cons.prems stop_inv)
  with Cons.IH show ?case by simp
qed simp

text \<open>C10: with any number of threads inside the manager at once, whatever the interleaving of their callbacks,
  the registry and the per-address counts are those of executing the same calls one after the
  other, in the order of their critical sections, and the counts are exact.\<close>

theorem manager_calls_linearise:
  fixes m0 :: "(('u, 'r manager_callback, 'x) session, 'f, 'z) manager_scheme"
  assumes "callbacks_keep (tcp_session_ops a) run removed_hook"
    and "(pool_step (tcp_session_ops a) run removed_hook)\<^sup>*\<^sup>* (new_pool m0) q"
    and "m = fold (replay (tcp_session_ops a) run removed_hook) (pool_log q) m0"
  shows "mgr_sessions (pool_manager q) = mgr_sessions m \<and>
    mgr_connections_per_ip (pool_manager q) = mgr_connections_per_ip m \<and>
    (manager_inv (tcp_session_ops a) m0 \<longrightarrow> manager_inv (tcp_session_ops a) (pool_manager q))"
proof -
  have "undisturbed (tcp_session_ops a) m (pool_manager q)"
    using tcp_sequential.run_inv [OF assms(2), of m0] assms(1,3) by (simp add: new_pool_def)
  moreover have "same_registry (tcp_session_ops a) m (pool_manager q)"
    using calculation by (simp add: undisturbed_def same_registry_def)
  moreover have "callbacks_ok (tcp_session_ops a) run" "hook_ok (tcp_session_ops a) removed_hook"
    using assms(1) by (simp_all add: callbacks_keep_def callbacks_ok_def hook_ok_def undisturbed_def same_registry_def)
  ultimately show ?thesis
    using same_registry_inv replay_manager_inv [of a m0 run removed_hook "pool_log q"] assms(3)
    by (auto simp: undisturbed_def)
qed

theorem manager_calls_linearise_witness:
  "\<exists>q. demo_pool_step\<^sup>*\<^sup>* (new_pool demo_manager) q \<and> mgr_sessions (pool_manager q) = [4] \<and>
     mgr_sessions (fold (replay (tcp_session_ops pipe_asio) no_callbacks on_session_removed) (pool_log q) demo_manager) = [4] \<and>
     manager_inv (tcp_session_ops pipe_asio) (pool_manager q)"
proof (rule demo_pool_register)
  fix q
  assume q: "demo_pool_step\<^sup>*\<^sup>* (new_pool demo_manager) q" "mgr_sessions (pool_manager q) = [4]"
  from manager_calls_linearise [OF no_callbacks_keep q(1) refl] q demo_manager_inv show ?thesis by metis
qed

text \<open>C12: under every interleaving of the pool, also when \<^verbatim>\<open>remove_session\<close> is called for a session whose
  \<^verbatim>\<open>on_connect\<close> has not run yet, each session is registered, announced by \<^verbatim>\<open>on_connect\<close> and started at most
  once and in this order, and removed, announced by \<^verbatim>\<open>on_disconnect\<close> and passed to the hook at most once
  and in this order, registration being the first of all. As long as it is not removed, or when it was
  started before it was removed, it goes through a prefix of the six phases: then the program never
  sees a disconnect before the connect.\<close>

theorem session_callbacks_in_order:
  fixes m0 :: "(('u, 'r manager_callback, 'x) session, 'f, 'z) manager_scheme"
  assumes "callbacks_keep (tcp_session_ops a) run removed_hook" and "mgr_sessions m0 = []"
    and "(pool_step (tcp_session_ops a) run removed_hook)\<^sup>*\<^sup>* (new_pool m0) q"
  shows "prefix (along (pool_log q) (arrival i)) [Registered i, Connect_run i, Started i] \<and>
    prefix (along (pool_log q) (departure i)) [Removed i, Disconnect_run i, Hook_run i] \<and>
    (events_of (pool_log q) i = [] \<or> hd (events_of (pool_log q) i) = Registered i) \<and>
    (Removed i \<notin> set (pool_log q) \<or> precedes (Started i) (Removed i) (events_of (pool_log q) i) \<longrightarrow>
      prefix (events_of (pool_log q) i)
        [Registered i, Connect_run i, Started i, Removed i, Disconnect_run i, Hook_run i])"
proof -
  have order: "in_order (tcp_session_ops a) q i"
    using tcp_pool.run_inv [OF assms(3)] assms(1) new_pool_inv [OF assms(2)] by (auto simp: pool_inv_def)
  then have "prefix (arrived q i) (arrival i)" "prefix (departed q i) (departure i)"
    "events_of (pool_log q) i = [] \<or> hd (events_of (pool_log q) i) = Registered i"
    by (simp_all add: in_order_def arriving_def departing_def placed_def)
  moreover have "prefix (events_of (pool_log q) i)
      [Registered i, Connect_run i, Started i, Removed i, Disconnect_run i, Hook_run i]"
    if "Removed i \<notin> set (pool_log q) \<or> precedes (Started i) (Removed i) (events_of (pool_log q) i)"
    using in_order_prefix [OF order that] by (simp add: phases_def)
  ultimately show ?thesis by (simp add: arrival_def departure_def)
qed

theorem session_callbacks_in_order_witness:
  "\<exists>q. pool_log q = phases 4 \<and> prefix (events_of (pool_log (q :: demo_pool)) 4)
     [Registered 4, Connect_run 4, Started 4, Removed 4, Disconnect_run 4, Hook_run 4]"
proof (rule demo_pool_remove)
  fix q
  assume q: "demo_pool_step\<^sup>*\<^sup>* (new_pool demo_manager) q" "pool_log q = phases 4"
  then have "precedes (Started 4) (Removed 4) (events_of (pool_log q) 4)"
    by (simp add: precedes_def phases_def events_of_def)
  with session_callbacks_in_order [OF no_callbacks_keep demo_manager_simps(1) q(1), of 4] q(2) show ?thesis by blast
qed

text \<open>C17: calls that are under way always complete, whatever the other threads did before: the threads alone
  reach a state where none is inside the manager. There every session with an IPv4 peer that was
  removed from the registry has gone through \<^verbatim>\<open>on_disconnect\<close> and the hook, and every one that was
  registered has gone through \<^verbatim>\<open>on_connect\<close> and been started; one that was started before it was removed
  has gone through all six phases in order.\<close>

theorem manager_calls_complete:
  fixes m0 :: "(('u, 'r manager_callback, 'x) session, 'f, 'z) manager_scheme"
  assumes "callbacks_keep (tcp_session_ops a) run removed_hook" and "mgr_sessions m0 = []"
    and "(pool_step (tcp_session_ops a) run removed_hook)\<^sup>*\<^sup>* (new_pool m0) q"
  shows "\<exists>q'. (thread_step (tcp_session_ops a) run removed_hook)\<^sup>*\<^sup>* q q' \<and> pool_pcs q' = {#} \<and>
    (\<forall>i. Removed i \<in> set (pool_log q) \<and> precedes (Started i) (Removed i) (events_of (pool_log q) i) \<longrightarrow>
       events_of (pool_log q') i = phases i) \<and>
    (\<forall>i. Removed i \<in> set (pool_log q) \<and> returns (ipv4_address (session_socket (objects (pool_manager q') i))) \<longrightarrow>
       along (pool_log q') (departure i) = [Removed i, Disconnect_run i, Hook_run i]) \<and>
    (\<forall>i. Registered i \<in> set (pool_log q) \<and> returns (ipv4_address (session_socket (objects (pool_manager q') i))) \<longrightarrow>
       along (pool_log q') (arrival i) = [Registered i, Connect_run i, Started i])"
proof -
  have inv: "callbacks_keep (tcp_session_ops a) run removed_hook \<and> pool_inv (tcp_session_ops a) q"
    using tcp_pool.run_inv [OF assms(3)] assms(1) new_pool_inv [OF assms(2)] by blast
  from tcp_threads.quiescence [OF inv] obtain q'
    where q': "(thread_step (tcp_session_ops a) run removed_hook)\<^sup>*\<^sup>* q q'"
      and stuck: "\<nexists>q''. thread_step (tcp_session_ops a) run removed_hook q' q''" by blast
  have order: "in_order (tcp_session_ops a) q' i" for i
    using tcp_threads.run_inv [OF q' inv] by (simp add: pool_inv_def)
  have idle: "pool_pcs q' = {#}" by (rule thread_stuck [OF stuck])
  obtain later where later: "pool_log q' = pool_log q @ later" using threads_log [OF q'] by blast
  show ?thesis
  proof (intro exI [of _ q'] conjI allI impI)
    fix i
    show "events_of (pool_log q') i = phases i"
      if "Removed i \<in> set (pool_log q) \<and> precedes (Started i) (Removed i) (events_of (pool_log q) i)"
      using that later by (intro in_order_completed [OF order idle]) (auto intro: precedes_later)
    show "departed q' i = [Removed i, Disconnect_run i, Hook_run i]"
      if "Removed i \<in> set (pool_log q) \<and> returns (ipv4_address (session_socket (objects (pool_manager q') i)))"
      using in_order_departed [OF order idle, of i] that later by (simp add: ip_of_tcp_session departure_def)
    show "arrived q' i = [Registered i, Connect_run i, Started i]"
      if "Registered i \<in> set (pool_log q) \<and> returns (ipv4_address (session_socket (objects (pool_manager q') i)))"
      using in_order_begun [OF order idle, of i] that later by (simp add: ip_of_tcp_session arrival_def)
  qed (rule q' idle)+
qed

theorem manager_calls_complete_witness:
  "\<exists>q q'. pool_log (q :: demo_pool) = phases 4 \<and>
     (thread_step (tcp_session_ops pipe_asio) no_callbacks on_session_removed)\<^sup>*\<^sup>* q q' \<and>
     events_of (pool_log q') 4 = phases 4"
proof (rule demo_pool_remove)
  fix q
  assume q: "demo_pool_step\<^sup>*\<^sup>* (new_pool demo_manager) q" "pool_log q = phases 4"
  then have "Removed 4 \<in> set (pool_log q) \<and> precedes (Started 4) (Removed 4) (events_of (pool_log q) 4)"
    by (simp add: precedes_def phases_def events_of_def)
  with manager_calls_complete [OF no_callbacks_keep demo_manager_simps(1) q(1)] q(2) show ?thesis by blast
qed

text \<open>The callbacks run outside the lock, so a removal that comes between the registration and \<^verbatim>\<open>on_connect\<close> can
  overtake it: the program sees the disconnect of a session first, and the session is started after
  it has left the registry.\<close>

theorem removal_may_overtake_connect:
  fixes m0 :: "(('u, 'r manager_callback, 'x) session, 'f, 'z) manager_scheme"
  assumes "callbacks_keep (tcp_session_ops a) run removed_hook" and "mgr_sessions m0 = []"
    and "(pool_step (tcp_session_ops a) run removed_hook)\<^sup>*\<^sup>* (new_pool m0) q"
    and "At_on_connect i \<in># pool_pcs q" and "i \<in> set (mgr_sessions (pool_manager q))"
  shows "\<exists>q'. (pool_step (tcp_session_ops a) run removed_hook)\<^sup>*\<^sup>* q q' \<and>
    events_of (pool_log q') i = [Registered i, Removed i, Disconnect_run i, Connect_run i]"
proof -
  let ?ops = "tcp_session_ops a"
  have order: "in_order ?ops q i"
    using tcp_pool.run_inv [OF assms(3)] assms(1) new_pool_inv [OF assms(2)] by (auto simp: pool_inv_def)
  have at: "arrived q i = [Registered i]" "returns (peer_ip ?ops (pool_manager q) i)" "departed q i = []"
    using in_order_inside(1) [OF order assms(4)] order assms(5) by (simp_all add: in_order_def placed_def)
  moreover have "Removed i \<notin> set (pool_log q)" using at(3) in_along [of "Removed i" "departure i" "pool_log q"] by simp
  ultimately have log: "events_of (pool_log q) i = [Registered i]" using in_order_phases [OF order] by simp
  let ?q1 = "log_event (Removed i) (snd (remove_locked ?ops (pool_manager q) i)) (pool_pcs q + {#At_on_disconnect i#}) q"
  have 1: "pool_step ?ops run removed_hook q ?q1"
    using removes [OF assms(5) refl, of ?ops] at(2) by (simp add: pool_step_def)
  obtain q2 where 2: "pool_step ?ops run removed_hook ?q1 q2" "pool_log q2 = pool_log ?q1 @ [Disconnect_run i]"
    "At_on_connect i \<in># pool_pcs q2"
    using disconnect [of i ?q1 ?ops run removed_hook] assms(4) by (force simp: pool_step_def)
  obtain q3 where 3: "pool_step ?ops run removed_hook q2 q3" "pool_log q3 = pool_log q2 @ [Connect_run i]"
    using connect [OF 2(3), of ?ops run removed_hook] by (force simp: pool_step_def)
  have "(pool_step ?ops run removed_hook)\<^sup>*\<^sup>* q q3" using 1 2(1) 3(1) by (meson rtranclp.rtrancl_refl rtranclp.rtrancl_into_rtrancl)
  with log 2(2) 3(2) show ?thesis by (intro exI [of _ q3]) (simp add: events_of_def)
qed

text \<open>C33: \<^verbatim>\<open>stop\<close> takes every session out of the registry without telling the program: for a session that
  was registered when the manager stopped, neither \<^verbatim>\<open>on_disconnect\<close> nor the hook ever runs.\<close>

theorem stopped_sessions_never_disconnect:
  fixes m0 :: "(('u, 'r manager_callback, 'x) session, 'f, 'z) manager_scheme"
  assumes "callbacks_keep (tcp_session_ops a) run removed_hook" and "mgr_sessions m0 = []"
    and "(pool_step (tcp_session_ops a) run removed_hook)\<^sup>*\<^sup>* (new_pool m0) q"
    and "Manager_stopped is \<in> set (pool_log q)" and "i \<in> set is"
  shows "Disconnect_run i \<notin> set (pool_log q) \<and> Hook_run i \<notin> set (pool_log q) \<and> i \<notin> set (mgr_sessions (pool_manager q))"
proof -
  have inv: "pool_inv (tcp_session_ops a) q"
    using tcp_pool.run_inv [OF assms(3)] assms(1) new_pool_inv [OF assms(2)] by blast
  then have "departed q i = []" "i \<notin> set (mgr_sessions (pool_manager q))"
    using assms(4,5) by (auto simp: pool_inv_def stopped_silent_def)
  then show ?thesis by (auto simp: along_def filter_empty_conv)
qed

theorem stopped_sessions_never_disconnect_witness:
  "\<exists>q. Manager_stopped [4] \<in> set (pool_log (q :: demo_pool)) \<and> Connect_run 4 \<in> set (pool_log q) \<and>
     Disconnect_run 4 \<notin> set (pool_log q)"
proof (rule demo_pool_register)
  fix q
  assume q: "demo_pool_step\<^sup>*\<^sup>* (new_pool demo_manager) q" "pool_log q = [Registered 4, Connect_run 4, Started 4]"
    "mgr_sessions (pool_manager q) = [4]"
  let ?q = "log_event (Manager_stopped [4]) (fst (manager_stop (tcp_session_ops pipe_asio) (pool_manager q))) (pool_pcs q) q"
  have "demo_pool_step q ?q"
    using stops [of "tcp_session_ops pipe_asio" q] q(3) by (simp add: pool_step_def)
  with q(1) have "demo_pool_step\<^sup>*\<^sup>* (new_pool demo_manager) ?q" by simp
  from stopped_sessions_never_disconnect [OF no_callbacks_keep demo_manager_simps(1) this, of "[4]" 4] q(2)
  show ?thesis by (intro exI [of _ ?q]) simp
qed

end
