(* ===== verification/Reconnect.thy ===== *)
theory Reconnect
  imports Admission
begin

text \<open>
  \<^verbatim>\<open>boost_session_manager\<close> of \<^verbatim>\<open>src/connection/session_manager.hpp\<close>: the accept loop, dialling, and
  automatic reconnection with exponential backoff. The manager's state extends the base class's
  record. The session type of the template, with its constructors, is the argument \<open>factory\<close>, and a
  freshly allocated session gets an address that was not used before. The product of a duration and
  the policy's \<^verbatim>\<open>double\<close> multiplier, cast back to a duration, is the argument \<open>scale\<close>.
\<close>

section \<open>State\<close>

record 'd reconnect_policy =
  initial_delay :: duration
  max_delay :: duration
  policy_idle_timeout :: duration
  multiplier :: 'd
  max_attempts :: size_t

record ('l, 'd) reconnect_state =
  rs_host :: string
  rs_service :: string
  rs_ssl_context :: 'l
  rs_policy :: "'d reconnect_policy"
  rs_attempts :: size_t
  rs_current_delay :: duration

text \<open>\<open>reconnect_timers\<close> are the states captured by the timers that wait, \<open>next_address\<close> the next fresh
  address.\<close>

record ('s, 'f, 'l, 'd) boost_manager = "('s, 'f) manager" +
  reconnect_map :: "sid \<rightharpoonup> ('l, 'd) reconnect_state"
  reconnect_stopped :: bool
  reconnect_timers :: "('l, 'd) reconnect_state list"
  ssl_context :: 'l
  acceptor_open :: bool
  next_address :: sid

record ('s, 'l, 'a) session_factory =
  make_dialled :: "'l \<Rightarrow> 's"
  make_accepted :: "'a \<Rightarrow> 'l \<Rightarrow> 's"

type_synonym ('l, 'd) dial_state = "('l, 'd) reconnect_state option"
type_synonym ('s, 'l, 'd, 'c) boost_session_ops = "('s, ('l, 'd) dial_state manager_callback, 'c) session_ops"
type_synonym ('s, 'f, 'l, 'd, 'c) boost_result = "('s, 'f, 'l, 'd) boost_manager \<times> ('f, 'c) manager_effect list"
type_synonym ('s, 'f, 'l, 'd, 'c) boost_outcome =
  "unit outcome \<times> ('s, 'f, 'l, 'd) boost_manager \<times> ('f, 'c) manager_effect list"
type_synonym ('s, 'f, 'l, 'd, 'c) boost_callbacks =
  "'f \<Rightarrow> sid \<Rightarrow> ('s, 'f, 'l, 'd) boost_manager \<Rightarrow> ('s, 'f, 'l, 'd, 'c) boost_result"

definition new_boost_manager :: "(sid \<Rightarrow> 's) \<Rightarrow> 'l \<Rightarrow> ('s, 'f, 'l, 'd) boost_manager" where
  "new_boost_manager objs ctx =
     manager.extend (new_manager objs)
       \<lparr>reconnect_map = Map.empty, reconnect_stopped = False, reconnect_timers = [], ssl_context = ctx,
        acceptor_open = True, next_address = 0\<rparr>"

text \<open>\<^verbatim>\<open>std::make_shared<SessionT>\<close>.\<close>

definition make_session :: "'s \<Rightarrow> ('s, 'f, 'l, 'd) boost_manager \<Rightarrow> sid \<times> ('s, 'f, 'l, 'd) boost_manager" where
  "make_session s m = (next_address m, (update_object (next_address m) s m)\<lparr>next_address := next_address m + 1\<rparr>)"

section \<open>Reconnecting\<close>

definition schedule_reconnect ::
  "('s, 'f, 'l, 'd) boost_manager \<Rightarrow> ('l, 'd) reconnect_state \<Rightarrow> ('s, 'f, 'l, 'd, 'c) boost_result" where
  "schedule_reconnect m state =
     (if reconnect_stopped m then (m, [])
      else
        let state = state\<lparr>rs_attempts := rs_attempts state + 1\<rparr> in
        if max_attempts (rs_policy state) \<noteq> 0 \<and> rs_attempts state > max_attempts (rs_policy state) then (m, [])
        else (m\<lparr>reconnect_timers := reconnect_timers m @ [state]\<rparr>, [Timer_started (rs_current_delay state)]))"

definition boost_on_session_removed ::
  "sid \<Rightarrow> ('s, 'f, 'l, 'd) boost_manager \<Rightarrow> ('s, 'f, 'l, 'd, 'c) boost_result" where
  "boost_on_session_removed i m =
     (case reconnect_map m i of
        None \<Rightarrow> (m, [])
      | Some state \<Rightarrow> schedule_reconnect (m\<lparr>reconnect_map := (reconnect_map m)(i := None)\<rparr>) state)"

definition do_connect ::
  "('s, 'l, 'd, 'c) boost_session_ops \<Rightarrow> ('s, 'f, 'l, 'd) boost_manager \<Rightarrow> sid \<Rightarrow> string \<Rightarrow> string \<Rightarrow>
   ('l, 'd) dial_state \<Rightarrow> ('s, 'f, 'l, 'd, 'c) boost_result" where
  "do_connect ops m i host service state =
     (let m = update_object i (apply_caps (so_socket ops) m (objects m i)) m;
          m = (case state of
                 None \<Rightarrow> m
               | Some st \<Rightarrow>
                   if policy_idle_timeout (rs_policy st) > 0
                   then update_object i (op_set_idle_timeout (so_socket ops) (policy_idle_timeout (rs_policy st)) (objects m i)) m
                   else m)
      in call_session i (\<lambda>s. so_async_connect ops s host service (Dial_connected i state)) m)"

definition on_dial_connected ::
  "('s, 'l, 'd, 'c) boost_session_ops \<Rightarrow> ('s, 'f, 'l, 'd) boost_manager \<Rightarrow> sid \<Rightarrow> ('l, 'd) dial_state \<Rightarrow> bool \<Rightarrow>
   ('s, 'f, 'l, 'd, 'c) boost_result" where
  "on_dial_connected ops m i state connected =
     (if state \<noteq> None \<and> reconnect_stopped m then (m, [])
      else if \<not> connected then (case state of None \<Rightarrow> (m, []) | Some st \<Rightarrow> schedule_reconnect m st)
      else call_session i (\<lambda>s. so_async_handshake ops s Client_handshake (Dial_handshaken i state)) m)"

definition on_dial_handshaken ::
  "('s, 'l, 'd, 'c) boost_session_ops \<Rightarrow> ('s, 'f, 'l, 'd, 'c) boost_callbacks \<Rightarrow> ('s, 'f, 'l, 'd) boost_manager \<Rightarrow> sid \<Rightarrow>
   ('l, 'd) dial_state \<Rightarrow> bool \<Rightarrow> ('s, 'f, 'l, 'd, 'c) boost_outcome" where
  "on_dial_handshaken ops run m i state valid =
     (if state \<noteq> None \<and> reconnect_stopped m then (Return (), m, [])
      else if \<not> valid
      then (case state of None \<Rightarrow> (Return (), m, []) | Some st \<Rightarrow> (Return (), schedule_reconnect m st))
      else
        let m = (case state of
                   None \<Rightarrow> m
                 | Some st \<Rightarrow> m\<lparr>reconnect_map := (reconnect_map m)
                     (i \<mapsto> st\<lparr>rs_attempts := 0, rs_current_delay := initial_delay (rs_policy st)\<rparr>)\<rparr>)
        in register_and_start ops run m i)"

definition attempt_reconnect ::
  "('s, 'l, 'd, 'c) boost_session_ops \<Rightarrow> ('s, 'l, 'a) session_factory \<Rightarrow> ('s, 'f, 'l, 'd) boost_manager \<Rightarrow>
   ('l, 'd) reconnect_state \<Rightarrow> ('s, 'f, 'l, 'd, 'c) boost_result" where
  "attempt_reconnect ops factory m state =
     (if reconnect_stopped m then (m, [])
      else
        let (i, m) = make_session (make_dialled factory (rs_ssl_context state)) m
        in do_connect ops m i (rs_host state) (rs_service state) (Some state))"

text \<open>The handler of one waiting timer; firing consumes the timer.\<close>

definition on_reconnect_timer ::
  "('s, 'l, 'd, 'c) boost_session_ops \<Rightarrow> ('s, 'l, 'a) session_factory \<Rightarrow> ('d \<Rightarrow> duration \<Rightarrow> duration) \<Rightarrow>
   ('s, 'f, 'l, 'd) boost_manager \<Rightarrow> ('l, 'd) reconnect_state \<Rightarrow> bool \<Rightarrow> ('s, 'f, 'l, 'd, 'c) boost_result" where
  "on_reconnect_timer ops factory scale m state ec =
     (let m = m\<lparr>reconnect_timers := remove1 state (reconnect_timers m)\<rparr> in
      if ec \<or> reconnect_stopped m then (m, [])
      else
        let state = state\<lparr>rs_current_delay :=
              min (scale (multiplier (rs_policy state)) (rs_current_delay state)) (max_delay (rs_policy state))\<rparr>
        in attempt_reconnect ops factory m state)"

section \<open>Dialling, accepting and stopping\<close>

definition boost_connect ::
  "('s, 'l, 'd, 'c) boost_session_ops \<Rightarrow> ('s, 'l, 'a) session_factory \<Rightarrow> ('s, 'f, 'l, 'd) boost_manager \<Rightarrow>
   string \<Rightarrow> string \<Rightarrow> 'l \<Rightarrow> sid \<times> ('s, 'f, 'l, 'd, 'c) boost_result" where
  "boost_connect ops factory m host service ctx =
     (let (i, m) = make_session (make_dialled factory ctx) m in (i, do_connect ops m i host service None))"

definition boost_connect_policy ::
  "('s, 'l, 'd, 'c) boost_session_ops \<Rightarrow> ('s, 'l, 'a) session_factory \<Rightarrow> ('s, 'f, 'l, 'd) boost_manager \<Rightarrow>
   string \<Rightarrow> string \<Rightarrow> 'l \<Rightarrow> 'd reconnect_policy \<Rightarrow> sid \<times> ('s, 'f, 'l, 'd, 'c) boost_result" where
  "boost_connect_policy ops factory m host service ctx policy =
     (let (i, m) = make_session (make_dialled factory ctx) m;
          state = \<lparr>rs_host = host, rs_service = service, rs_ssl_context = ctx, rs_policy = policy,
                   rs_attempts = 0, rs_current_delay = initial_delay policy\<rparr>
      in (i, do_connect ops m i host service (Some state)))"

definition async_wait_for_connection :: "('s, 'f, 'l, 'd) boost_manager \<Rightarrow> ('s, 'f, 'l, 'd, 'c) boost_result" where
  "async_wait_for_connection m = (m, [Accept_started])"

text \<open>An exception of \<^verbatim>\<open>add_session\<close> leaves the handler before the next accept is started.\<close>

definition on_accept ::
  "('s, 'l, 'd, 'c) boost_session_ops \<Rightarrow> ('s, 'l, 'a) session_factory \<Rightarrow> ('s, 'f, 'l, 'd) boost_manager \<Rightarrow>
   bool \<Rightarrow> 'a \<Rightarrow> ('s, 'f, 'l, 'd, 'c) boost_outcome" where
  "on_accept ops factory m error asio_socket =
     (if error then (Return (), m, [])
      else
        let (i, m) = make_session (make_accepted factory asio_socket (ssl_context m)) m;
            (out, m, effs) = add_session ops m i
        in case out of
             Throw e \<Rightarrow> (Throw e, m, effs)
           | Return _ \<Rightarrow> (let (m, effs') = async_wait_for_connection m in (Return (), m, effs @ effs')))"

definition boost_stop ::
  "('s, 'l, 'd, 'c) boost_session_ops \<Rightarrow> ('s, 'f, 'l, 'd) boost_manager \<Rightarrow> ('s, 'f, 'l, 'd, 'c) boost_result" where
  "boost_stop ops m =
     (let m = m\<lparr>reconnect_stopped := True, reconnect_map := Map.empty, acceptor_open := False\<rparr>;
          (m, effs) = manager_stop ops m
      in (m, Acceptor_closed # effs))"

end
