(* ===== verification/Backoff.thy ===== *)
theory Backoff
  imports Reconnect
begin

text \<open>
  Properties of the boost manager: the schedule of redial attempts, the effect of \<^verbatim>\<open>stop\<close>, redialling
  after a drop, and the registry over whole histories of accepted, dialled and redialled sessions.
\<close>

section \<open>The machine\<close>

text \<open>The user's callbacks do not reach the manager's private reconnection state.\<close>

definition reconnect_part ::
  "('s, 'f, 'l, 'd) boost_manager \<Rightarrow>
   (sid \<rightharpoonup> ('l, 'd) reconnect_state) \<times> bool \<times> ('l, 'd) reconnect_state list \<times> sid" where
  "reconnect_part m = (reconnect_map m, reconnect_stopped m, reconnect_timers m, next_address m)"

definition callbacks_private :: "('s, 'f, 'l, 'd, 'c) boost_callbacks \<Rightarrow> bool" where
  "callbacks_private run \<longleftrightarrow> (\<forall>f i m. reconnect_part (fst (run f i m)) = reconnect_part m)"

text \<open>A step is a call of the program, or a completion handler for a session that exists, or a timer
  that waits.\<close>

inductive boost_step ::
  "('s, 'l, 'd, 'c) boost_session_ops \<Rightarrow> ('s, 'l, 'a) session_factory \<Rightarrow> ('d \<Rightarrow> duration \<Rightarrow> duration) \<Rightarrow>
   ('s, 'f, 'l, 'd, 'c) boost_callbacks \<Rightarrow> ('s, 'f, 'l, 'd) boost_manager \<Rightarrow> ('s, 'f, 'l, 'd) boost_manager \<Rightarrow> bool"
  for ops factory scale run where
  accepted: "on_accept ops factory m error sock = (out, m', effs) \<Longrightarrow> boost_step ops factory scale run m m'"
| server_handshake: "i < next_address m \<Longrightarrow> on_server_handshaken ops run m i ok = (out, m', effs) \<Longrightarrow>
    boost_step ops factory scale run m m'"
| dial: "boost_connect ops factory m host service ctx = (i, m', effs) \<Longrightarrow> boost_step ops factory scale run m m'"
| dial_policy: "boost_connect_policy ops factory m host service ctx policy = (i, m', effs) \<Longrightarrow>
    boost_step ops factory scale run m m'"
| dial_connected: "i < next_address m \<Longrightarrow> on_dial_connected ops m i st ok = (m', effs) \<Longrightarrow>
    boost_step ops factory scale run m m'"
| dial_handshake: "i < next_address m \<Longrightarrow> on_dial_handshaken ops run m i st ok = (out, m', effs) \<Longrightarrow>
    boost_step ops factory scale run m m'"
| timer: "st \<in> set (reconnect_timers m) \<Longrightarrow> on_reconnect_timer ops factory scale m st ec = (m', effs) \<Longrightarrow>
    boost_step ops factory scale run m m'"
| dropped: "remove_session ops run boost_on_session_removed m i = (out, m', effs) \<Longrightarrow>
    boost_step ops factory scale run m m'"
| halted: "boost_stop ops m = (m', effs) \<Longrightarrow> boost_step ops factory scale run m m'"
| active: "i < next_address m \<Longrightarrow> i \<in> set (mgr_sessions m) \<longrightarrow> peer_ip ops m i = op_ipv4_address (so_socket ops) s \<Longrightarrow>
    boost_step ops factory scale run m (update_object i s m)"

section \<open>What the operations leave alone\<close>

lemma reconnect_part_simps [simp]:
  "reconnect_part (update_object i s m) = reconnect_part m"
  "reconnect_part (m\<lparr>mgr_sessions := x\<rparr>) = reconnect_part m"
  "reconnect_part (m\<lparr>mgr_connections_per_ip := y\<rparr>) = reconnect_part m"
  "reconnect_part (fst (call_session i f m)) = reconnect_part m"
  by (simp_all add: reconnect_part_def update_object_def call_session_def Let_def case_prod_beta)

lemma reconnect_part_callback:
  "callbacks_private run \<Longrightarrow> reconnect_part (fst (run_callback run cb i m)) = reconnect_part m"
  by (simp add: run_callback_def callbacks_private_def Let_def case_prod_beta split: option.split)

lemma reconnect_part_register:
  "callbacks_private run \<Longrightarrow> reconnect_part (fst (snd (register_and_start ops run m i))) = reconnect_part m"
  by (simp add: register_and_start_def Let_def case_prod_beta reconnect_part_callback split: outcome.split)

lemma reconnect_part_add: "reconnect_part (fst (snd (add_session ops m i))) = reconnect_part m"
  by (simp add: add_session_def Let_def case_prod_beta split: outcome.split)

lemma reconnect_part_do_connect: "reconnect_part (fst (do_connect ops m i host service st)) = reconnect_part m"
  by (simp add: do_connect_def Let_def split: option.split)

lemma reconnect_part_close_all:
  "reconnect_part (fst (for_each_session (\<lambda>i m. (update_object i (f (objects m i)) m, g i)) is m)) = reconnect_part m"
  by (induction "is" arbitrary: m) (simp_all add: Let_def case_prod_beta)

lemma reconnect_part_stop: "reconnect_part (fst (manager_stop ops m)) = reconnect_part m"
  using reconnect_part_close_all by (simp add: manager_stop_def Let_def case_prod_beta)

section \<open>After \<^verbatim>\<open>stop\<close>\<close>

definition halted_inv ::
  "('l, 'd) reconnect_state set \<Rightarrow> ('s, 'f, 'l, 'd) boost_manager \<Rightarrow> bool" where
  "halted_inv T m \<longleftrightarrow>
     (case reconnect_part m of (rm, stopped, timers, _) \<Rightarrow> stopped \<and> rm = Map.empty \<and> set timers \<subseteq> T)"

lemma halted_inv_cong: "reconnect_part m' = reconnect_part m \<Longrightarrow> halted_inv T m \<Longrightarrow> halted_inv T m'"
  by (simp add: halted_inv_def)

lemma halted_inv_address [simp]: "halted_inv T (m\<lparr>next_address := n\<rparr>) = halted_inv T m"
  by (simp add: halted_inv_def reconnect_part_def)

lemma halted_inv_fields:
  assumes "halted_inv T m"
  shows "reconnect_stopped m" and "reconnect_map m = Map.empty" and "set (reconnect_timers m) \<subseteq> T"
  using assms by (simp_all add: halted_inv_def reconnect_part_def)

lemma halted_make_session: "halted_inv T m \<Longrightarrow> halted_inv T (snd (make_session s m))"
  by (simp add: make_session_def) (erule halted_inv_cong [rotated], simp)

lemma halted_do_connect:
  assumes "do_connect ops (snd (make_session s m)) i host service st = (m', effs)" and "halted_inv T m"
  shows "halted_inv T m'"
  using halted_inv_cong [OF reconnect_part_do_connect halted_make_session [OF assms(2)], of ops s i host service st]
    assms(1) by simp

lemma halted_call:
  assumes "call_session i f m = (m', effs)" and "halted_inv T m"
  shows "halted_inv T m'"
  using halted_inv_cong [OF reconnect_part_simps(4) assms(2), of i f] assms(1) by simp

lemma halted_timer: "halted_inv T m \<Longrightarrow> halted_inv T (m\<lparr>reconnect_timers := remove1 st (reconnect_timers m)\<rparr>)"
  by (auto simp: halted_inv_def reconnect_part_def dest: set_mp [OF set_remove1_subset])

lemma halted_stop: "set (reconnect_timers m) \<subseteq> T \<Longrightarrow> halted_inv T (fst (boost_stop ops m))"
  by (simp add: boost_stop_def halted_inv_def reconnect_part_stop Let_def case_prod_beta)
     (simp add: reconnect_part_def)

lemma removed_hook_none:
  "reconnect_part m' = reconnect_part m \<Longrightarrow> reconnect_map m = Map.empty \<Longrightarrow>
     reconnect_part (fst (boost_on_session_removed i m')) = reconnect_part m"
  by (simp add: reconnect_part_def boost_on_session_removed_def)

lemma reconnect_part_removed:
  assumes "callbacks_private run" and "reconnect_map m = Map.empty"
  shows "reconnect_part (fst (snd (remove_session ops run boost_on_session_removed m i))) = reconnect_part m"
  by (auto simp: remove_session_def Let_def case_prod_beta reconnect_part_callback [OF assms(1)] assms(2)
      intro!: removed_hook_none split: outcome.split option.split)

lemma reconnect_part_accept:
  "reconnect_part (fst (snd (on_accept ops factory m error sock))) =
     (if error then reconnect_part m else reconnect_part (snd (make_session (make_accepted factory sock (ssl_context m)) m)))"
  by (simp add: on_accept_def Let_def case_prod_beta async_wait_for_connection_def reconnect_part_add split: outcome.split)

lemma halted_step:
  assumes "boost_step ops factory scale run m m'" and "callbacks_private run" and "halted_inv T m"
  shows "halted_inv T m'"
  using assms(1)
proof cases
  case (accepted error sock out effs)
  then show ?thesis
    using halted_inv_cong [OF _ assms(3)] halted_inv_cong [OF _ halted_make_session [OF assms(3)]]
      reconnect_part_accept [of ops factory m error sock]
    by (auto split: if_splits)
next
  case (server_handshake i ok out effs)
  then show ?thesis
    using halted_inv_cong [OF reconnect_part_register [OF assms(2)] assms(3), of ops i] assms(3)
    by (auto simp: on_server_handshaken_def split: if_splits)
next
  case (dial host service ctx i effs)
  then show ?thesis
    using assms(3) by (auto simp: boost_connect_def Let_def case_prod_beta intro: halted_do_connect)
next
  case (dial_policy host service ctx policy i effs)
  then show ?thesis
    using assms(3) by (auto simp: boost_connect_policy_def Let_def case_prod_beta intro: halted_do_connect)
next
  case (dial_connected i st ok effs)
  then show ?thesis
    using assms(3) halted_inv_fields(1) [OF assms(3)]
    by (auto simp: on_dial_connected_def intro: halted_call split: if_splits option.splits)
next
  case (dial_handshake i st ok out effs)
  then show ?thesis
    using assms(3) halted_inv_fields(1) [OF assms(3)]
      halted_inv_cong [OF reconnect_part_register [OF assms(2)] assms(3), of ops i]
    by (auto simp: on_dial_handshaken_def split: if_splits option.splits)
next
  case (timer st ec effs)
  then show ?thesis
    using halted_timer [OF assms(3)] halted_inv_fields(1) [OF assms(3)] by (auto simp: on_reconnect_timer_def Let_def)
next
  case (dropped i out effs)
  then show ?thesis
    using halted_inv_cong [OF reconnect_part_removed [OF assms(2) halted_inv_fields(2) [OF assms(3)]] assms(3), of ops i]
    by simp
next
  case (halted effs)
  then show ?thesis
    using halted_stop [of m T ops] assms(3) by (simp add: halted_inv_def reconnect_part_def)
next
  case (active i s)
  then show ?thesis using halted_inv_cong [OF reconnect_part_simps(1) assms(3)] by simp
qed

interpretation boost_halted: step_invariant "boost_step ops factory scale run"
  "\<lambda>m. callbacks_private run \<and> halted_inv T m" for ops factory scale run T
  by unfold_locales (blast intro: halted_step)

section \<open>The registry of a boost manager\<close>

text \<open>The counts are exact, and every registered session exists.\<close>

definition boost_inv :: "('s, 'l, 'd, 'c) boost_session_ops \<Rightarrow> ('s, 'f, 'l, 'd) boost_manager \<Rightarrow> bool" where
  "boost_inv ops m \<longleftrightarrow> manager_inv ops m \<and> (\<forall>i \<in> set (mgr_sessions m). i < next_address m)"

text \<open>A change that keeps the registry and only allocates.\<close>

definition allocates ::
  "('s, 'l, 'd, 'c) boost_session_ops \<Rightarrow> ('s, 'f, 'l, 'd) boost_manager \<Rightarrow> ('s, 'f, 'l, 'd) boost_manager \<Rightarrow> bool" where
  "allocates ops m m' \<longleftrightarrow> same_registry ops m m' \<and> next_address m \<le> next_address m'"

lemma allocates_inv: "boost_inv ops m \<Longrightarrow> allocates ops m m' \<Longrightarrow> boost_inv ops m'"
  using same_registry_inv [of ops m m'] by (force simp: boost_inv_def allocates_def same_registry_def)

lemma allocates_refl [simp]: "allocates ops m m"
  by (simp add: allocates_def)

lemma allocates_trans: "allocates ops m m' \<Longrightarrow> allocates ops m' m'' \<Longrightarrow> allocates ops m m''"
  using same_registry_trans [of ops m m' m''] by (simp add: allocates_def)

lemma allocates_registry:
  "same_registry ops m m' \<Longrightarrow> reconnect_part m' = reconnect_part m \<Longrightarrow> allocates ops m m'"
  by (simp add: allocates_def reconnect_part_def)

lemma allocates_make_session: "boost_inv ops m \<Longrightarrow> allocates ops m (snd (make_session s m))"
  by (auto simp: allocates_def boost_inv_def make_session_def update_object_def same_registry_def)

lemma same_registry_fields [simp]:
  "same_registry ops m (m\<lparr>reconnect_timers := t\<rparr>)" "same_registry ops m (m\<lparr>reconnect_map := rm\<rparr>)"
  by (simp_all add: same_registry_def)

lemma allocates_schedule: "allocates ops m (fst (schedule_reconnect m st))"
  by (simp add: schedule_reconnect_def allocates_def Let_def)

lemma removed_hook_registry:
  "same_registry ops m (fst (boost_on_session_removed i m))"
  "next_address (fst (boost_on_session_removed i m)) = next_address m"
  by (auto simp: boost_on_session_removed_def schedule_reconnect_def Let_def same_registry_def split: option.split)

lemma boost_on_session_removed_ok: "hook_ok ops boost_on_session_removed"
  by (simp add: hook_ok_def removed_hook_registry)

lemma next_address_callback:
  "callbacks_private run \<Longrightarrow> next_address (fst (run_callback run cb i m)) = next_address m"
  using reconnect_part_callback [of run cb i m] by (simp add: reconnect_part_def)

lemma next_address_removed:
  "callbacks_private run \<Longrightarrow>
     next_address (fst (snd (remove_session ops run boost_on_session_removed m i))) = next_address m"
  by (simp add: remove_session_def Let_def case_prod_beta removed_hook_registry next_address_callback
      split: outcome.split option.split)

lemma allocates_add:
  assumes "managed_session ops"
  shows "allocates ops m (fst (snd (add_session ops m i)))"
  using managed_session.add_session_registry [OF assms, of m i] reconnect_part_add [of ops m i]
  by (intro allocates_registry) (metis prod.collapse)

lemma allocates_call:
  "(\<And>s. op_ipv4_address (so_socket ops) (fst (f s)) = op_ipv4_address (so_socket ops) s) \<Longrightarrow>
     allocates ops m (fst (call_session i f m))"
  by (intro allocates_registry same_registry_call) simp_all

lemma allocates_do_connect:
  assumes "managed_session ops"
  shows "allocates ops m (fst (do_connect ops m i host service st))"
proof -
  note laws = managed_session.ip_apply_caps [OF assms] managed_session.ip_connect [OF assms]
    managed_socket.ip_set_idle [OF managed_session.axioms(1) [OF assms]]
  let ?m1 = "update_object i (apply_caps (so_socket ops) m (objects m i)) m"
  let ?m2 = "case st of None \<Rightarrow> ?m1 | Some st \<Rightarrow> if policy_idle_timeout (rs_policy st) > 0
    then update_object i (op_set_idle_timeout (so_socket ops) (policy_idle_timeout (rs_policy st)) (objects ?m1 i)) ?m1
    else ?m1"
  have "allocates ops m ?m1" by (intro allocates_registry same_registry_update) (simp_all add: laws)
  moreover have "allocates ops ?m1 ?m2"
    by (auto intro!: allocates_registry same_registry_update simp: laws split: option.split)
  moreover have "allocates ops ?m2 (fst (call_session i (\<lambda>s. so_async_connect ops s host service (Dial_connected i st)) ?m2))"
    by (rule allocates_call) (simp add: laws)
  ultimately show ?thesis
    unfolding do_connect_def Let_def by (blast intro: allocates_trans)
qed

lemma allocates_dial:
  assumes "managed_session ops" and "boost_inv ops m"
    and "do_connect ops (snd (make_session s m)) i host service st = (m', effs)"
  shows "allocates ops m m'"
  using allocates_trans [OF allocates_make_session [OF assms(2)] allocates_do_connect [OF assms(1)]] assms(3)
  by (metis fst_conv)

lemma boost_register_inv:
  assumes "managed_session ops" and "callbacks_ok ops run" and "callbacks_private run"
    and "boost_inv ops m" and "i < next_address m" and "register_and_start ops run m i = (out, m', effs)"
  shows "boost_inv ops m'"
proof -
  have "manager_inv ops m'"
    using managed_session.register_inv [OF assms(1) _ assms(2,6)] assms(4) by (simp add: boost_inv_def)
  moreover have "mgr_sessions m' = mgr_sessions m @ [i]"
  proof (cases "peer_ip ops m i")
    case (Return ip)
    from managed_session.register_registry(2) [OF assms(1,2) Return assms(6)] show ?thesis
      by (simp add: same_registry_def enrolled_def)
  next
    case (Throw e)
    with assms(6) show ?thesis by (auto simp: register_and_start_def)
  qed
  moreover have "next_address m' = next_address m"
    using reconnect_part_register [OF assms(3), of ops m i] assms(6) by (simp add: reconnect_part_def)
  ultimately show ?thesis using assms(4,5) by (auto simp: boost_inv_def)
qed

lemma removed_hook_sessions: "mgr_sessions (fst (boost_on_session_removed i m)) = mgr_sessions m"
  by (simp add: boost_on_session_removed_def schedule_reconnect_def Let_def split: option.split)

lemma callback_sessions: "callbacks_ok ops run \<Longrightarrow> mgr_sessions (fst (run_callback run cb i m)) = mgr_sessions m"
  using same_registry_callback [of ops run m cb i] by (simp add: same_registry_def)

lemma remove_sessions:
  assumes "callbacks_ok ops run"
  shows "mgr_sessions (fst (snd (remove_session ops run boost_on_session_removed m i))) = remove1 i (mgr_sessions m)"
  by (simp add: remove_session_def Let_def case_prod_beta removed_hook_sessions callback_sessions [OF assms]
      remove1_idem split: outcome.split option.split)

lemma boost_remove_inv:
  assumes "managed_session ops" and "callbacks_ok ops run" and "callbacks_private run" and "boost_inv ops m"
    and "remove_session ops run boost_on_session_removed m i = (out, m', effs)"
  shows "boost_inv ops m'"
proof -
  have "manager_inv ops m'"
    using managed_session.remove_inv [OF assms(1) _ assms(2) boost_on_session_removed_ok assms(5)] assms(4)
    by (simp add: boost_inv_def)
  then show ?thesis
    using remove_sessions [OF assms(2), of m i] next_address_removed [OF assms(3), of ops m i] assms(4,5)
    by (auto simp: boost_inv_def dest: set_mp [OF set_remove1_subset])
qed

lemma boost_inv_map [simp]: "boost_inv ops (m\<lparr>reconnect_map := rm\<rparr>) = boost_inv ops m"
  by (simp add: boost_inv_def manager_inv_def counted_def)

lemma boost_schedule_inv: "schedule_reconnect m st = (m', effs) \<Longrightarrow> boost_inv ops m \<Longrightarrow> boost_inv ops m'"
  by (auto simp: schedule_reconnect_def boost_inv_def manager_inv_def counted_def Let_def split: if_splits)

lemma boost_step_inv:
  assumes "boost_step ops factory scale run m m'" and "managed_session ops" and "callbacks_ok ops run"
    and "callbacks_private run" and "boost_inv ops m"
  shows "boost_inv ops m'"
  using assms(1)
proof cases
  case (accepted error sock out effs)
  let ?p = "make_session (make_accepted factory sock (ssl_context m)) m"
  have "allocates ops m (fst (snd (add_session ops (snd ?p) (fst ?p))))"
    by (rule allocates_trans [OF allocates_make_session [OF assms(5)] allocates_add [OF assms(2)]])
  with accepted assms(5) show ?thesis
    by (auto simp: on_accept_def Let_def case_prod_beta async_wait_for_connection_def intro: allocates_inv
        split: if_splits outcome.splits)
next
  case (server_handshake i ok out effs)
  then show ?thesis
    using boost_register_inv [OF assms(2-5)] assms(5) by (auto simp: on_server_handshaken_def split: if_splits)
next
  case (dial host service ctx i effs)
  then show ?thesis
    using allocates_inv [OF assms(5) allocates_dial [OF assms(2,5)]]
    by (auto simp: boost_connect_def Let_def case_prod_beta)
next
  case (dial_policy host service ctx policy i effs)
  then show ?thesis
    using allocates_inv [OF assms(5) allocates_dial [OF assms(2,5)]]
    by (auto simp: boost_connect_policy_def Let_def case_prod_beta)
next
  case (dial_connected i st ok effs)
  have "allocates ops m (fst (on_dial_connected ops m i st ok))"
    by (auto simp: on_dial_connected_def managed_session.ip_handshake [OF assms(2)] intro: allocates_schedule allocates_call
        split: option.split)
  with dial_connected allocates_inv [OF assms(5)] show ?thesis by simp
next
  case (dial_handshake i st ok out effs)
  then show ?thesis
    using assms(5)
    by (auto simp: on_dial_handshaken_def Let_def intro: boost_schedule_inv elim: boost_register_inv [OF assms(2-4), rotated 2]
        split: if_splits option.splits)
next
  case (timer st ec effs)
  let ?m1 = "m\<lparr>reconnect_timers := remove1 st (reconnect_timers m)\<rparr>"
  have "boost_inv ops ?m1" using allocates_inv [OF assms(5)] by (simp add: allocates_def)
  with timer allocates_inv [OF this allocates_dial [OF assms(2) this]] show ?thesis
    by (auto simp: on_reconnect_timer_def attempt_reconnect_def Let_def case_prod_beta split: if_splits)
next
  case (dropped i out effs)
  then show ?thesis by (rule boost_remove_inv [OF assms(2-5)])
next
  case (halted effs)
  then show ?thesis
    using stop_inv [of ops "m\<lparr>reconnect_stopped := True, reconnect_map := Map.empty, acceptor_open := False\<rparr>"]
    by (auto simp: boost_stop_def boost_inv_def manager_stop_def Let_def case_prod_beta)
next
  case (active i s)
  then show ?thesis
    using allocates_inv [OF assms(5) allocates_registry] same_registry_update [of i m ops s] by simp
qed

interpretation boost_registry: step_invariant
  "boost_step (tcp_session_ops a :: (('u, ('l, 'd) dial_state manager_callback, 'x) session, 'l, 'd,
     ('u, ('l, 'd) dial_state manager_callback) session_effect) boost_session_ops) factory scale run"
  "\<lambda>m. callbacks_ok (tcp_session_ops a) run \<and> callbacks_private run \<and> boost_inv (tcp_session_ops a) m"
  for a factory scale run
  by unfold_locales (blast intro: boost_step_inv tcp_session.managed_session_axioms)

lemma new_boost_manager_inv: "boost_inv ops (new_boost_manager objs ctx)"
  by (simp add: boost_inv_def manager_inv_def counted_def new_boost_manager_def new_manager_def manager.extend_def)

section \<open>The schedule of attempts\<close>

text \<open>The dials with a reconnect state that a list of effects starts.\<close>

fun redial_of ::
  "('f, ('u, ('l, 'd) dial_state manager_callback) session_effect) manager_effect \<Rightarrow> (sid \<times> ('l, 'd) reconnect_state) list" where
  "redial_of (Session_call _ (Socket_call (Async_resolve host service (Owner_callback (Dial_connected i (Some st)))))) =
     (if host = rs_host st \<and> service = rs_service st then [(i, st)] else [])"
| "redial_of _ = []"

text \<open>A dial fails, its timer fires, and the next dial starts; \<open>None\<close> when the manager gives up.\<close>

definition next_dial ::
  "'x asio \<Rightarrow> (('u, ('l, 'd) dial_state manager_callback, 'x) session, 'l, 'a) session_factory \<Rightarrow> ('d \<Rightarrow> duration \<Rightarrow> duration) \<Rightarrow>
   (('u, ('l, 'd) dial_state manager_callback, 'x) session, 'f, 'l, 'd) boost_manager \<Rightarrow> sid \<Rightarrow> ('l, 'd) reconnect_state \<Rightarrow>
   ((('u, ('l, 'd) dial_state manager_callback, 'x) session, 'f, 'l, 'd) boost_manager \<times> sid \<times> ('l, 'd) reconnect_state) option" where
  "next_dial a factory scale m i st =
     (let (m1, effs) = on_dial_connected (tcp_session_ops a) m i (Some st) False in
      if effs = [] then None
      else
        let (m2, effs) = on_reconnect_timer (tcp_session_ops a) factory scale m1 (last (reconnect_timers m1)) False
        in case concat (map redial_of effs) of [] \<Rightarrow> None | (j, st') # _ \<Rightarrow> Some (m2, j, st'))"

fun after_failures ::
  "'x asio \<Rightarrow> (('u, ('l, 'd) dial_state manager_callback, 'x) session, 'l, 'a) session_factory \<Rightarrow> ('d \<Rightarrow> duration \<Rightarrow> duration) \<Rightarrow>
   nat \<Rightarrow> (('u, ('l, 'd) dial_state manager_callback, 'x) session, 'f, 'l, 'd) boost_manager \<Rightarrow> sid \<Rightarrow> ('l, 'd) reconnect_state \<Rightarrow>
   ((('u, ('l, 'd) dial_state manager_callback, 'x) session, 'f, 'l, 'd) boost_manager \<times> sid \<times> ('l, 'd) reconnect_state) option" where
  "after_failures a factory scale 0 m i st = Some (m, i, st)"
| "after_failures a factory scale (Suc n) m i st =
     (case after_failures a factory scale n m i st of
        None \<Rightarrow> None
      | Some (m, i, st) \<Rightarrow> next_dial a factory scale m i st)"

text \<open>The delays of a policy.\<close>

fun backoff :: "('d \<Rightarrow> duration \<Rightarrow> duration) \<Rightarrow> 'd reconnect_policy \<Rightarrow> nat \<Rightarrow> duration" where
  "backoff scale policy 0 = initial_delay policy"
| "backoff scale policy (Suc n) = min (scale (multiplier policy) (backoff scale policy n)) (max_delay policy)"

lemma backoff_doubling:
  assumes "0 \<le> initial_delay policy" and "initial_delay policy \<le> max_delay policy"
    and "\<And>d. scale (multiplier policy) d = 2 * d"
  shows "backoff scale policy n = min (initial_delay policy * 2 ^ n) (max_delay policy)"
proof (induction n)
  case 0
  then show ?case using assms(2) by simp
next
  case (Suc n)
  have "0 \<le> max_delay policy" using assms(1,2) by simp
  with Suc show ?case by (auto simp: assms(3) min_def)
qed

lemma redials_activity:
  "concat (map (\<lambda>c. redial_of (Session_call i (Socket_call c))) (snd (reset_activity_timers s))) = []"
  by (auto simp: tcp_timer_defs Let_def)

lemma redials_async_connect:
  "concat (map redial_of (map (Session_call i) (snd (session_async_connect s (rs_host st) (rs_service st)
     (Owner_callback (Dial_connected i (Some st))))))) = [(i, st)]"
  using redials_activity [of i "session_socket s"]
  by (simp add: session_async_connect_def on_socket_def async_connect_def Let_def case_prod_beta comp_def del: concat_eq_Nil_conv)

lemma redials_do_connect:
  "concat (map redial_of (snd (do_connect (tcp_session_ops a) m i (rs_host st) (rs_service st) (Some st)))) = [(i, st)]"
  using redials_async_connect [of i _ st]
  by (simp add: do_connect_def call_session_def tcp_session_ops_def Let_def case_prod_beta redials_async_connect
      del: map_map)

lemma dial_failure_schedules:
  assumes "\<not> reconnect_stopped m" and "max_attempts (rs_policy st) = 0 \<or> rs_attempts st < max_attempts (rs_policy st)"
  shows "on_dial_connected ops m i (Some st) False =
    (m\<lparr>reconnect_timers := reconnect_timers m @ [st\<lparr>rs_attempts := rs_attempts st + 1\<rparr>]\<rparr>, [Timer_started (rs_current_delay st)])"
  using assms by (auto simp: on_dial_connected_def schedule_reconnect_def Let_def)

lemma dial_failure_gives_up:
  assumes "max_attempts (rs_policy st) \<noteq> 0" and "max_attempts (rs_policy st) \<le> rs_attempts st"
  shows "on_dial_connected ops m i (Some st) False = (m, [])"
  using assms by (auto simp: on_dial_connected_def schedule_reconnect_def Let_def)

lemma stopped_do_connect: "reconnect_stopped (fst (do_connect ops m i host service st)) = reconnect_stopped m"
  using reconnect_part_do_connect [of ops m i host service st] by (simp add: reconnect_part_def)

lemma next_dial_step:
  assumes "\<not> reconnect_stopped m" and "max_attempts (rs_policy st) = 0 \<or> rs_attempts st < max_attempts (rs_policy st)"
  obtains m' where "\<not> reconnect_stopped m'"
    and "next_dial a factory scale m i st = Some (m', next_address m,
      st\<lparr>rs_attempts := rs_attempts st + 1,
         rs_current_delay := min (scale (multiplier (rs_policy st)) (rs_current_delay st)) (max_delay (rs_policy st))\<rparr>)"
proof -
  let ?st = "st\<lparr>rs_attempts := rs_attempts st + 1,
      rs_current_delay := min (scale (multiplier (rs_policy st)) (rs_current_delay st)) (max_delay (rs_policy st))\<rparr>"
  let ?t = "reconnect_timers m @ [st\<lparr>rs_attempts := rs_attempts st + 1\<rparr>]"
  let ?m1 = "m\<lparr>reconnect_timers := remove1 (last ?t) ?t\<rparr>"
  let ?m2 = "snd (make_session (make_dialled factory (rs_ssl_context ?st)) ?m1)"
  let ?r = "do_connect (tcp_session_ops a) ?m2 (next_address m) (rs_host ?st) (rs_service ?st) (Some ?st)"
  have "\<not> reconnect_stopped (fst ?r)"
    using assms(1) by (simp add: stopped_do_connect make_session_def update_object_def)
  moreover have "next_dial a factory scale m i st = Some (fst ?r, next_address m, ?st)"
    using redials_do_connect [of a ?m2 "next_address m" ?st] assms(1)
    by (simp add: next_dial_def dial_failure_schedules [OF assms] on_reconnect_timer_def attempt_reconnect_def Let_def
        case_prod_beta make_session_def)
  ultimately show thesis by (rule that)
qed

lemma after_failures_schedule:
  assumes "\<not> reconnect_stopped m" and "rs_attempts st = 0" and "rs_current_delay st = initial_delay (rs_policy st)"
    and "max_attempts (rs_policy st) = 0 \<or> n \<le> max_attempts (rs_policy st)"
  shows "\<exists>m' j st'. after_failures a factory scale n m i st = Some (m', j, st') \<and> \<not> reconnect_stopped m' \<and>
    st' = st\<lparr>rs_attempts := n, rs_current_delay := backoff scale (rs_policy st) n\<rparr>"
  using assms(4)
proof (induction n)
  case 0
  then show ?case using assms(1-3) by auto
next
  case (Suc n)
  then obtain m1 j where st: "after_failures a factory scale n m i st =
      Some (m1, j, st\<lparr>rs_attempts := n, rs_current_delay := backoff scale (rs_policy st) n\<rparr>)" "\<not> reconnect_stopped m1"
    by auto
  let ?st = "st\<lparr>rs_attempts := n, rs_current_delay := backoff scale (rs_policy st) n\<rparr>"
  have "max_attempts (rs_policy ?st) = 0 \<or> rs_attempts ?st < max_attempts (rs_policy ?st)" using Suc.prems by auto
  from next_dial_step [OF st(2) this, of a factory scale j] obtain m2 where "\<not> reconnect_stopped m2"
    "next_dial a factory scale m1 j ?st = Some (m2, next_address m1,
      ?st\<lparr>rs_attempts := rs_attempts ?st + 1, rs_current_delay :=
        min (scale (multiplier (rs_policy ?st)) (rs_current_delay ?st)) (max_delay (rs_policy ?st))\<rparr>)" by blast
  with st show ?case by simp
qed

lemma no_callbacks_private [simp]: "callbacks_private no_callbacks"
  by (simp add: callbacks_private_def no_callbacks_def)

text \<open>Removing a registered session ends in the hook.\<close>

lemma removed_hook_schedules:
  assumes "reconnect_map m i = Some st" and "rs_attempts st = 0" and "\<not> reconnect_stopped m"
  shows "boost_on_session_removed i m =
    (m\<lparr>reconnect_map := (reconnect_map m)(i := None), reconnect_timers := reconnect_timers m @ [st\<lparr>rs_attempts := 1\<rparr>]\<rparr>,
     [Timer_started (rs_current_delay st)])"
  using assms by (cases "max_attempts (rs_policy st) = 0") (auto simp: boost_on_session_removed_def schedule_reconnect_def Let_def)

lemma remove_runs_hook:
  fixes ops :: "('s, 'l, 'd, 'c) boost_session_ops" and run :: "('s, 'f, 'l, 'd, 'c) boost_callbacks"
  assumes "callbacks_private run" and "i \<in> set (mgr_sessions m)" and "peer_ip ops m i = Return ip"
    and "remove_session ops run boost_on_session_removed m i = (out, m', effs)"
  obtains m3 effs3 effs4 where "reconnect_part m3 = reconnect_part m" and "out = Return ()"
    and "boost_on_session_removed i m3 = (m', effs4)" and "effs = effs3 @ effs4"
proof -
  let ?m0 = "m\<lparr>mgr_sessions := remove1 i (mgr_sessions m)\<rparr>"
  let ?m1 = "case mgr_connections_per_ip m ip of None \<Rightarrow> ?m0
    | Some n \<Rightarrow> (let n' = (if n = 0 then 2 ^ 64 - 1 else n - 1)
                 in ?m0\<lparr>mgr_connections_per_ip := (mgr_connections_per_ip m)(ip := if n' = 0 then None else Some n')\<rparr>)"
  let ?c = "run_callback run (mgr_on_disconnect ?m1) i ?m1"
  have part: "reconnect_part (fst ?c) = reconnect_part m"
    unfolding reconnect_part_callback [OF assms(1)] by (simp add: Let_def split: option.split)
  obtain m4 and effs4 :: "('f, 'c) manager_effect list" where hook: "boost_on_session_removed i (fst ?c) = (m4, effs4)" by fastforce
  then have "out = Return () \<and> m' = m4 \<and> effs = snd ?c @ effs4"
    using assms(2-4) by (cases "mgr_connections_per_ip m ip") (auto simp: remove_session_def Let_def case_prod_beta)
  with hook show thesis
    by (intro that [OF part]) simp_all
qed

text \<open>A manager and a policy (at most three attempts, delays 1, 2, 4, at most 5) for concrete instances.\<close>

definition demo_policy :: "int reconnect_policy" where
  "demo_policy = \<lparr>initial_delay = 1, max_delay = 5, policy_idle_timeout = 30, multiplier = 2, max_attempts = 3\<rparr>"

definition demo_state :: "(unit, int) reconnect_state" where
  "demo_state = \<lparr>rs_host = ''host'', rs_service = ''80'', rs_ssl_context = (), rs_policy = demo_policy,
     rs_attempts = 0, rs_current_delay = 1\<rparr>"

type_synonym demo_session_t = "(unit, (unit, int) dial_state manager_callback, byte list \<times> byte list) session"

definition demo_dialled :: demo_session_t where
  "demo_dialled = new_session ((new_tcp_socket ([], []))\<lparr>remote_endpoint := \<lparr>ep_address = V4 9, ep_port = 80\<rparr>\<rparr>) True"

definition demo_factory :: "(demo_session_t, unit, unit) session_factory" where
  "demo_factory = \<lparr>make_dialled = (\<lambda>_. demo_dialled), make_accepted = (\<lambda>_ _. demo_dialled)\<rparr>"

definition demo_boost :: "(demo_session_t, nat, unit, int) boost_manager" where
  "demo_boost = new_boost_manager (\<lambda>_. demo_dialled) ()"

lemmas demo_boost_defs = demo_policy_def demo_state_def demo_boost_def new_boost_manager_def new_manager_def
  manager.extend_def

section \<open>Properties\<close>

text \<open>C14: reconnecting follows the policy: while dialling fails, the \<open>n\<close>-th redial carries attempt count \<open>n\<close>
  and the \<open>n\<close>-th backoff delay, its own failure waits exactly that delay before the next, and when
  the configured number of attempts is used up nothing more is scheduled.\<close>

theorem backoff_schedule:
  assumes "\<not> reconnect_stopped m" and "rs_attempts st = 0" and "rs_current_delay st = initial_delay (rs_policy st)"
    and "max_attempts (rs_policy st) = 0 \<or> n \<le> max_attempts (rs_policy st)"
  shows "\<exists>m' j st'. after_failures a factory scale n m i st = Some (m', j, st') \<and>
    rs_attempts st' = n \<and> rs_host st' = rs_host st \<and> rs_service st' = rs_service st \<and> rs_policy st' = rs_policy st \<and>
    snd (on_dial_connected (tcp_session_ops a) m' j (Some st') False) =
      (if max_attempts (rs_policy st) = n \<and> n \<noteq> 0 then [] else [Timer_started (backoff scale (rs_policy st) n)])"
proof -
  let ?st = "st\<lparr>rs_attempts := n, rs_current_delay := backoff scale (rs_policy st) n\<rparr>"
  obtain m' j where "after_failures a factory scale n m i st = Some (m', j, ?st)" and m': "\<not> reconnect_stopped m'"
    using after_failures_schedule [OF assms] by blast
  moreover have "snd (on_dial_connected (tcp_session_ops a) m' j (Some ?st) False) =
      (if max_attempts (rs_policy st) = n \<and> n \<noteq> 0 then [] else [Timer_started (backoff scale (rs_policy st) n)])"
    using assms(4)
    by (cases "max_attempts (rs_policy st) = 0"; cases "max_attempts (rs_policy st) = n")
       (auto simp: dial_failure_schedules [OF m'] dial_failure_gives_up)
  ultimately show ?thesis by auto
qed

theorem backoff_schedule_witness:
  "\<exists>m' j st'. after_failures pipe_asio demo_factory (\<lambda>k d. k * d) 3 demo_boost 0 demo_state = Some (m', j, st') \<and>
     rs_attempts st' = 3 \<and> snd (on_dial_connected (tcp_session_ops pipe_asio) m' j (Some st') False) = []"
proof -
  have "\<not> reconnect_stopped demo_boost" "rs_attempts demo_state = 0"
    "rs_current_delay demo_state = initial_delay (rs_policy demo_state)"
    "max_attempts (rs_policy demo_state) = 0 \<or> 3 \<le> max_attempts (rs_policy demo_state)"
    "max_attempts (rs_policy demo_state) = 3"
    by (simp_all add: demo_boost_defs)
  from backoff_schedule [OF this(1-4), of pipe_asio demo_factory "\<lambda>k d. k * d" 0] this(5) show ?thesis
    by auto
qed

text \<open>No delay after the first exceeds the policy's maximum, and with a multiplier that doubles (and an
  initial delay within the maximum) the wait after the \<open>n\<close>-th failed redial is the initial delay times
  \<open>2 ^ n\<close>, cut off at the maximum.\<close>

theorem backoff_delays:
  assumes "\<not> reconnect_stopped m" and "rs_attempts st = 0" and "rs_current_delay st = initial_delay (rs_policy st)"
    and "max_attempts (rs_policy st) = 0 \<or> n \<le> max_attempts (rs_policy st)"
    and "0 \<le> initial_delay (rs_policy st)" and "initial_delay (rs_policy st) \<le> max_delay (rs_policy st)"
    and "\<And>d. scale (multiplier (rs_policy st)) d = 2 * d"
    and "after_failures a factory scale n m i st = Some (m', j, st')"
  shows "rs_current_delay st' = min (initial_delay (rs_policy st) * 2 ^ n) (max_delay (rs_policy st))"
  using after_failures_schedule [OF assms(1-4), of a factory scale i] backoff_doubling [where scale = scale, OF assms(5-7)] assms(8)
  by auto

theorem backoff_delays_witness:
  "\<exists>m' j st'. after_failures pipe_asio demo_factory (\<lambda>k d. k * d) 2 demo_boost 0 demo_state = Some (m', j, st') \<and>
     rs_current_delay st' = 4"
proof -
  have d: "\<not> reconnect_stopped demo_boost" "rs_attempts demo_state = 0"
    "rs_current_delay demo_state = initial_delay (rs_policy demo_state)"
    "max_attempts (rs_policy demo_state) = 0 \<or> 2 \<le> max_attempts (rs_policy demo_state)"
    "0 \<le> initial_delay (rs_policy demo_state)" "initial_delay (rs_policy demo_state) \<le> max_delay (rs_policy demo_state)"
    "multiplier (rs_policy demo_state) * d = 2 * d" for d :: int
    by (simp_all add: demo_boost_defs)
  obtain m' j st' where r: "after_failures pipe_asio demo_factory (\<lambda>k d. k * d) 2 demo_boost 0 demo_state = Some (m', j, st')"
    using after_failures_schedule [OF d(1-4), of pipe_asio demo_factory "\<lambda>k d. k * d" 0] by auto
  from backoff_delays [OF d(1-6) _ r] d(7) r show ?thesis
    by (simp add: demo_boost_defs)
qed

text \<open>C15: after \<^verbatim>\<open>stop\<close>, whatever else happens, the manager schedules no reconnect and starts no redial: it
  stays stopped, remembers no session to redial, starts no timer, and neither a timer that still
  fires nor a redial that still completes has any effect.\<close>

theorem no_redial_after_stop:
  assumes "callbacks_private run" and "boost_stop ops m = (m1, effs)" and "(boost_step ops factory scale run)\<^sup>*\<^sup>* m1 m2"
  shows "reconnect_stopped m2 \<and> reconnect_map m2 = Map.empty \<and> set (reconnect_timers m2) \<subseteq> set (reconnect_timers m) \<and>
    snd (on_reconnect_timer ops factory scale m2 st ec) = [] \<and> on_dial_connected ops m2 i (Some st) ok = (m2, []) \<and>
    on_dial_handshaken ops run m2 i (Some st) ok = (Return (), m2, [])"
proof -
  have "halted_inv (set (reconnect_timers m)) m1" using halted_stop [OF subset_refl, of m ops] assms(2) by simp
  then have inv: "halted_inv (set (reconnect_timers m)) m2"
    using boost_halted.run_inv [OF assms(3), of "set (reconnect_timers m)"] assms(1) by blast
  from halted_inv_fields [OF inv] show ?thesis
    by (simp add: on_reconnect_timer_def on_dial_connected_def on_dial_handshaken_def Let_def)
qed

theorem no_redial_after_stop_witness:
  "let m1 = fst (boost_stop (tcp_session_ops pipe_asio) demo_boost);
       m2 = fst (on_dial_connected (tcp_session_ops pipe_asio) m1 0 (Some demo_state) False)
   in reconnect_stopped m2 \<and> reconnect_timers m2 = []"
proof -
  let ?m1 = "fst (boost_stop (tcp_session_ops pipe_asio) demo_boost)"
  let ?s = "snd (boost_stop (tcp_session_ops pipe_asio) demo_boost)"
  have "reconnect_timers demo_boost = []" by (simp add: demo_boost_defs)
  with no_redial_after_stop [of no_callbacks "tcp_session_ops pipe_asio" demo_boost ?m1 ?s demo_factory "\<lambda>k d. k * d" ?m1
      demo_state False 0 False]
  show ?thesis by (simp add: Let_def)
qed

text \<open>C11: the registry of the boost manager stays exact over every history of accepts, dials, redials,
  handshakes, drops and stops: the count of an address is the number of registered sessions with that
  peer, and a registered session is always one that was allocated.\<close>

theorem boost_registry_exact:
  assumes "callbacks_ok (tcp_session_ops a) run" and "callbacks_private run"
    and "(boost_step (tcp_session_ops a) factory scale run)\<^sup>*\<^sup>* (new_boost_manager objs ctx) m"
  shows "(\<forall>i \<in> set (mgr_sessions m). i < next_address m) \<and>
    mgr_connections_per_ip m ip =
      (let n = length (filter (\<lambda>i. ipv4_address (session_socket (objects m i)) = Return ip) (mgr_sessions m))
       in if n = 0 then None else Some n)"
proof -
  have "boost_inv (tcp_session_ops a) m"
    using boost_registry.run_inv [OF assms(3)] assms(1,2) by (simp add: new_boost_manager_inv)
  then show ?thesis by (simp add: boost_inv_def manager_inv_def counted_def ip_of_tcp_session Let_def)
qed

theorem boost_registry_exact_witness:
  "\<exists>m. (boost_step (tcp_session_ops pipe_asio) demo_factory (\<lambda>k d. k * d) no_callbacks)\<^sup>*\<^sup>* demo_boost m \<and>
     next_address m = 1 \<and> mgr_connections_per_ip m 9 = None"
proof -
  let ?r = "on_accept (tcp_session_ops pipe_asio) demo_factory demo_boost False ()"
  have run: "(boost_step (tcp_session_ops pipe_asio) demo_factory (\<lambda>k d. k * d) no_callbacks)\<^sup>*\<^sup>* demo_boost (fst (snd ?r))"
    by (rule r_into_rtranclp, rule accepted [of _ _ _ False "()" "fst ?r" _ "snd (snd ?r)"]) simp
  have addr: "next_address (fst (snd ?r)) = 1"
    using reconnect_part_accept [of "tcp_session_ops pipe_asio" demo_factory demo_boost False "()"]
    by (simp add: reconnect_part_def make_session_def demo_boost_defs)
  have "mgr_sessions (fst (snd ?r)) = []"
    by (simp add: on_accept_def add_session_def call_session_def update_object_def make_session_def demo_boost_defs
        async_wait_for_connection_def Let_def case_prod_beta split: outcome.split)
  with boost_registry_exact [OF no_callbacks_ok no_callbacks_private, of pipe_asio demo_factory "\<lambda>k d. k * d" "\<lambda>_. demo_dialled" "()"
      "fst (snd ?r)" 9] run addr
  show ?thesis by (intro exI [of _ "fst (snd ?r)"]) (simp add: demo_boost_def [symmetric])
qed

text \<open>C25: a session that was established with a reconnect policy and drops is redialled after the policy's
  initial delay: its removal starts exactly one timer, with the attempt count restarted, and the
  manager forgets the old session.\<close>

theorem dropped_session_redialled:
  fixes m :: "(('u, ('l, 'd) dial_state manager_callback, 'x) session, 'f, 'l, 'd) boost_manager"
  assumes "callbacks_ok (tcp_session_ops a) run" and "callbacks_private run" and "\<not> reconnect_stopped m"
    and "ipv4_address (session_socket (objects m i)) = Return ip"
    and "on_dial_handshaken (tcp_session_ops a) run m i (Some st) True = (out1, m1, effs1)"
    and "remove_session (tcp_session_ops a) run boost_on_session_removed m1 i = (out2, m2, effs2)"
  shows "out1 = Return () \<and> out2 = Return () \<and>
    (\<exists>effs. effs2 = effs @ [Timer_started (initial_delay (rs_policy st))]) \<and>
    reconnect_timers m2 = reconnect_timers m @ [st\<lparr>rs_attempts := 1, rs_current_delay := initial_delay (rs_policy st)\<rparr>] \<and>
    reconnect_map m2 i = None"
proof -
  let ?st = "st\<lparr>rs_attempts := 0, rs_current_delay := initial_delay (rs_policy st)\<rparr>"
  let ?m = "m\<lparr>reconnect_map := (reconnect_map m)(i \<mapsto> ?st)\<rparr>"
  have reg: "register_and_start (tcp_session_ops a) run ?m i = (out1, m1, effs1)"
    using assms(3,5) by (simp add: on_dial_handshaken_def)
  have ip: "peer_ip (tcp_session_ops a) ?m i = Return ip"
    unfolding ip_of_tcp_session by (simp add: assms(4))
  note registered = tcp_session.register_registry [OF assms(1) ip reg]
  have m1: "i \<in> set (mgr_sessions m1)" "peer_ip (tcp_session_ops a) m1 i = Return ip"
    "reconnect_map m1 i = Some ?st" "\<not> reconnect_stopped m1" "reconnect_timers m1 = reconnect_timers m"
    using registered(2) ip reconnect_part_register [OF assms(2), of "tcp_session_ops a" ?m i] reg assms(3)
    by (simp_all add: same_registry_def enrolled_def reconnect_part_def)
  obtain m3 effs3 effs4 where "reconnect_part m3 = reconnect_part m1" and "out2 = Return ()"
    "boost_on_session_removed i m3 = (m2, effs4)" "effs2 = effs3 @ effs4"
    by (rule remove_runs_hook [OF assms(2) m1(1,2) assms(6)])
  with m1(3-5) registered(1) show ?thesis
    by (auto simp: reconnect_part_def removed_hook_schedules)
qed

theorem dropped_session_redialled_witness:
  "let r1 = on_dial_handshaken (tcp_session_ops pipe_asio) no_callbacks demo_boost 0 (Some demo_state) True;
       r2 = remove_session (tcp_session_ops pipe_asio) no_callbacks boost_on_session_removed (fst (snd r1)) 0
   in length (reconnect_timers (fst (snd r2))) = 1 \<and> last (snd (snd r2)) = Timer_started 1"
proof -
  let ?r1 = "on_dial_handshaken (tcp_session_ops pipe_asio) no_callbacks demo_boost 0 (Some demo_state) True"
  let ?r2 = "remove_session (tcp_session_ops pipe_asio) no_callbacks boost_on_session_removed (fst (snd ?r1)) 0"
  have "\<not> reconnect_stopped demo_boost" "ipv4_address (session_socket (objects demo_boost 0)) = Return 9"
    "reconnect_timers demo_boost = []" "initial_delay (rs_policy demo_state) = 1"
    by (simp_all add: demo_boost_defs demo_dialled_def new_session_def ipv4_address_def)
  then show ?thesis
    using dropped_session_redialled [OF no_callbacks_ok, where m = demo_boost and i = 0 and ip = 9 and st = demo_state and
        a = pipe_asio and ?out1.0 = "fst ?r1" and ?m1.0 = "fst (snd ?r1)" and ?effs1.0 = "snd (snd ?r1)" and
        ?out2.0 = "fst ?r2" and ?m2.0 = "fst (snd ?r2)" and ?effs2.0 = "snd (snd ?r2)"]
    by (auto simp: Let_def)
qed

text \<open>C38: \<^verbatim>\<open>stop\<close> does not reach a plain dial that is still under way: when its handshake completes after the
  stop, the session is registered and counted in the stopped manager, and started: its first read is
  the last thing the handler does.\<close>

theorem dial_registers_after_stop:
  fixes m :: "(('u, ('l, 'd) dial_state manager_callback, 'x) session, 'f, 'l, 'd) boost_manager"
  assumes "callbacks_ok (tcp_session_ops a) run" and "reconnect_stopped m" and "mgr_sessions m = []"
    and "ipv4_address (session_socket (objects m i)) = Return ip"
    and "on_dial_handshaken (tcp_session_ops a) run m i None True = (out, m', effs)"
  shows "out = Return () \<and> mgr_sessions m' = [i] \<and> mgr_connections_per_ip m' ip \<noteq> None \<and>
    effs \<noteq> [] \<and> last effs = Session_call i (Socket_call (Async_read_start 8 (Read_done After_frame_size)))"
proof -
  have ip: "peer_ip (tcp_session_ops a) m i = Return ip"
    unfolding ip_of_tcp_session by (rule assms(4))
  have reg: "register_and_start (tcp_session_ops a) run m i = (out, m', effs)"
    using assms(5) by (simp add: on_dial_handshaken_def)
  have "effs \<noteq> [] \<and> last effs = Session_call i (Socket_call (Async_read_start 8 (Read_done After_frame_size)))"
    using reg ip
    by (auto simp: register_and_start_def call_session_def tcp_session_ops_def session_start_def read_frame_size_def
        on_socket_def async_read_def Let_def case_prod_beta)
  with tcp_session.register_registry [OF assms(1) ip reg] assms(3) show ?thesis
    by (simp add: same_registry_def enrolled_def)
qed

theorem dial_registers_after_stop_witness:
  "let m = fst (boost_stop (tcp_session_ops pipe_asio) demo_boost)
   in mgr_sessions (fst (snd (on_dial_handshaken (tcp_session_ops pipe_asio) no_callbacks m 0 None True))) = [0] \<and>
      last (snd (snd (on_dial_handshaken (tcp_session_ops pipe_asio) no_callbacks m 0 None True))) =
        Session_call 0 (Socket_call (Async_read_start 8 (Read_done After_frame_size)))"
proof -
  let ?m = "fst (boost_stop (tcp_session_ops pipe_asio) demo_boost)"
  let ?r = "on_dial_handshaken (tcp_session_ops pipe_asio) no_callbacks ?m 0 None True"
  have "reconnect_stopped ?m" "mgr_sessions ?m = []" "ipv4_address (session_socket (objects ?m 0)) = Return 9"
    by (simp_all add: boost_stop_def manager_stop_def demo_boost_defs demo_dialled_def new_session_def ipv4_address_def)
  from dial_registers_after_stop [OF no_callbacks_ok this, where out = "fst ?r" and m' = "fst (snd ?r)" and
      effs = "snd (snd ?r)" and a = pipe_asio]
  show ?thesis by (simp add: Let_def)
qed

end
