(* ===== verification/Router.thy ===== *)
theory Router
  imports Wire
begin

text \<open>
  \<^verbatim>\<open>src/router/router.hpp\<close>: the table of message handlers. A handler is a user's function pointer; its
  effect on the program's state is the function \<open>mi_handler\<close>. The body types of the handlers of one
  router differ in the code; here they are the cases of one type.
\<close>

section \<open>\<^verbatim>\<open>message_info\<close> and \<^verbatim>\<open>message_router\<close>\<close>

record ('sess, 'body, 'w) message_info =
  mi_id :: u8
  mi_table :: "'body fb_table"
  mi_handler :: "'sess \<Rightarrow> 'body \<Rightarrow> 'w \<Rightarrow> 'w"

definition process :: "('sess, 'body, 'w) message_info \<Rightarrow> u8 \<Rightarrow> 'sess \<Rightarrow> byte list \<Rightarrow> 'w \<Rightarrow> bool \<times> 'w" where
  "process m actual_id session body w =
     (if actual_id \<noteq> mi_id m then (False, w)
      else if \<not> is_valid (mi_table m) body then (True, w)
      else (True, mi_handler m session (deserialise (mi_table m) body) w))"

text \<open>The fold expression \<^verbatim>\<open>(Handlers.process(id, session, body) || ...)\<close>, with its short circuit; over an
  empty pack it is false.\<close>

fun dispatch :: "('sess, 'body, 'w) message_info list \<Rightarrow> u8 \<Rightarrow> 'sess \<Rightarrow> byte list \<Rightarrow> 'w \<Rightarrow> bool \<times> 'w" where
  "dispatch [] mid session body w = (False, w)"
| "dispatch (m # ms) mid session body w =
     (let (handled, w') = process m mid session body w
      in if handled then (True, w') else dispatch ms mid session body w')"

section \<open>Lemmas\<close>

text \<open>The reference meaning: the routing table is a partial function from identifiers to handlers.\<close>

definition route :: "('sess, 'body, 'w) message_info list \<Rightarrow> u8 \<rightharpoonup> ('sess, 'body, 'w) message_info" where
  "route ms = map_of (map (\<lambda>m. (mi_id m, m)) ms)"

definition deliver :: "('sess, 'body, 'w) message_info \<Rightarrow> 'sess \<Rightarrow> byte list \<Rightarrow> 'w \<Rightarrow> 'w" where
  "deliver m session body w =
     (if is_valid (mi_table m) body then mi_handler m session (deserialise (mi_table m) body) w else w)"

lemma process_deliver:
  "process m mid session body w = (mid = mi_id m, if mid = mi_id m then deliver m session body w else w)"
  by (simp add: process_def deliver_def)

lemma route_Cons: "route (m # ms) mid = (if mid = mi_id m then Some m else route ms mid)"
  by (simp add: route_def)

lemma dispatch_as_route:
  "dispatch ms mid session body w =
     (case route ms mid of None \<Rightarrow> (False, w) | Some m \<Rightarrow> (True, deliver m session body w))"
  by (induction ms) (auto simp: route_def process_deliver)

lemma route_eq_Some:
  "distinct (map mi_id ms) \<Longrightarrow> route ms mid = Some m \<longleftrightarrow> m \<in> set ms \<and> mi_id m = mid"
  by (auto simp: route_def comp_def)

section \<open>Properties\<close>

text \<open>C30: dispatching is a lookup in the routing table: the first handler with the message's identifier, and
  no other, gets the message; an identifier without handler is reported as unhandled; a body that
  the verifier of that handler's type rejects is consumed without calling anything.\<close>

theorem dispatch_refines_route:
  "dispatch ms mid session body w =
     (case route ms mid of
        None \<Rightarrow> (False, w)
      | Some m \<Rightarrow> (True, if is_valid (mi_table m) body
                         then mi_handler m session (deserialise (mi_table m) body) w else w))"
  using dispatch_as_route [of ms mid session body w] by (simp add: deliver_def split: option.splits)

text \<open>When no two handlers share an identifier, the order in which the router lists them does not
  matter.\<close>

theorem dispatch_order_irrelevant:
  assumes "distinct (map mi_id ms)" and "distinct (map mi_id ms')" and "set ms = set ms'"
  shows "dispatch ms mid session body w = dispatch ms' mid session body w"
proof -
  have "route ms i = Some m \<longleftrightarrow> route ms' i = Some m" for i m
    using assms by (simp add: route_eq_Some)
  then have "route ms mid = route ms' mid"
    by (metis option.exhaust)
  then show ?thesis by (simp add: dispatch_as_route)
qed

theorem dispatch_order_irrelevant_witness:
  "dispatch [\<lparr>mi_id = 1, mi_table = byte_table, mi_handler = (\<lambda>_ b w. b # w)\<rparr>,
             \<lparr>mi_id = 2, mi_table = byte_table, mi_handler = (\<lambda>_ b w. w)\<rparr>] 2 () [7] [] =
   dispatch [\<lparr>mi_id = 2, mi_table = byte_table, mi_handler = (\<lambda>_ b w. w)\<rparr>,
             \<lparr>mi_id = 1, mi_table = byte_table, mi_handler = (\<lambda>_ b w. b # w)\<rparr>] 2 () [7] []"
  by (rule dispatch_order_irrelevant) (simp_all, auto)

text \<open>A typed message that a peer builds with \<^verbatim>\<open>make\<close> reaches the handler registered for its identifier
  with the arguments it was created from, through the frame decoder and the dispatcher.\<close>

theorem dispatch_typed_message:
  assumes "flatbuffers_ok fb" and "boost_endian_ok p"
    and "table_roundtrip (fb_ops fb) create_fn (mi_table m) view"
    and "route ms mid = Some m"
    and "fits fb lim cap mid False (serialise (fb_ops fb) create_fn args)"
  shows "\<exists>body. decode_frame fb lim cap
      (msg_header (make_msg p fb create_fn False mid args) @ msg_body (make_msg p fb create_fn False mid args) @ rest)
        = Frame mid False body rest \<and>
    dispatch ms mid session body w = (True, mi_handler m session (view args) w)"
proof -
  have "decode_frame fb lim cap (frame_bytes fb mid False (serialise (fb_ops fb) create_fn args) @ rest) =
      Frame mid False (serialise (fb_ops fb) create_fn args) rest"
    using assms(1,5) by (rule decode_frame_bytes)
  moreover have "dispatch ms mid session (serialise (fb_ops fb) create_fn args) w =
      (True, mi_handler m session (view args) w)"
    using assms(3,4) by (simp add: dispatch_as_route deliver_def table_roundtripD)
  moreover note make_msg_wire [OF assms(2), of fb create_fn False mid args]
  ultimately show ?thesis by (metis append.assoc)
qed

theorem dispatch_typed_message_witness:
  "let m = \<lparr>mi_id = 42, mi_table = byte_table, mi_handler = (\<lambda>_ b w. b # w)\<rparr>;
       f = make_msg big_platform flat_fb (\<lambda>b v. (b @ [v], ())) False 42 7
   in \<exists>body. decode_frame flat_fb 100 0 (msg_header f @ msg_body f @ [1, 2]) = Frame 42 False body [1, 2] \<and>
        dispatch [m] 42 () body [] = (True, [7])"
proof -
  let ?m = "\<lparr>mi_id = 42, mi_table = byte_table, mi_handler = (\<lambda>_ b w. b # w)\<rparr> :: (unit, byte, byte list) message_info"
  have t: "table_roundtrip (fb_ops flat_fb) (\<lambda>b v. (b @ [v], ())) (mi_table ?m) (\<lambda>v. v)"
    by (auto simp: table_roundtrip_def flat_fb_def byte_table_def)
  have "route [?m] 42 = Some ?m" by (simp add: route_def)
  from dispatch_typed_message [OF flatbuffers_ok_flat_fb boost_endian_ok_big t this,
      of 100 0 7 "[1, 2]" "()" "[]"]
  show ?thesis by (simp add: fits_flat_fb serialise_flat_fb Let_def)
qed

end
