(* ===== verification/Ssl_Context.thy ===== *)
theory Ssl_Context
  imports Prelude
begin

text \<open>
  \<^verbatim>\<open>sl::ssl_context\<close> and \<^verbatim>\<open>boost_ssl_context\<close> of \<^verbatim>\<open>src/network/ssl.hpp\<close> and \<^verbatim>\<open>ssl.cpp\<close>. The native
  \<^verbatim>\<open>boost::asio::ssl::context\<close> is not part of the repository: it is a state of any type with the
  record \<open>asio_ssl\<close> of its functions, each of which may throw. What the sources rely on is the
  predicate \<open>ssl_library_ok\<close>.
\<close>

section \<open>The native context as a parameter\<close>

datatype ssl_file_format_type = Asio_asn1 | Asio_pem

text \<open>The two methods that the programs of the repository pass to the constructor.\<close>

datatype ssl_method_type = Tlsv12_client | Tlsv12_server

record 'n asio_ssl =
  ssl_make :: "ssl_method_type \<Rightarrow> 'n outcome"
  ssl_verify_none :: u32
  ssl_verify_peer :: u32
  ssl_verify_fail_if_no_peer_cert :: u32
  ssl_set_verify_mode :: "'n \<Rightarrow> u32 \<Rightarrow> 'n outcome"
  ssl_load_verify_file :: "'n \<Rightarrow> string \<Rightarrow> 'n outcome"
  ssl_add_certificate_authority :: "'n \<Rightarrow> byte list \<Rightarrow> 'n outcome"
  ssl_use_tmp_dh_file :: "'n \<Rightarrow> string \<Rightarrow> 'n outcome"
  ssl_use_tmp_dh :: "'n \<Rightarrow> byte list \<Rightarrow> 'n outcome"
  ssl_use_certificate_file :: "'n \<Rightarrow> string \<Rightarrow> ssl_file_format_type \<Rightarrow> 'n outcome"
  ssl_use_certificate :: "'n \<Rightarrow> byte list \<Rightarrow> ssl_file_format_type \<Rightarrow> 'n outcome"
  ssl_use_private_key_file :: "'n \<Rightarrow> string \<Rightarrow> ssl_file_format_type \<Rightarrow> 'n outcome"
  ssl_use_private_key :: "'n \<Rightarrow> byte list \<Rightarrow> ssl_file_format_type \<Rightarrow> 'n outcome"
  ssl_set_options :: "'n \<Rightarrow> u64 \<Rightarrow> 'n outcome"
  ssl_clear_options :: "'n \<Rightarrow> u64 \<Rightarrow> 'n outcome"

section \<open>The abstract class\<close>

datatype crypto_file_format = Format_asn1 | Format_pem

text \<open>\<^verbatim>\<open>ssl_context\<close>: the functions through which the programs set up a context; each may throw.\<close>

record 'c ssl_context_ops =
  op_disable_peer_verification :: "'c \<Rightarrow> 'c outcome"
  op_require_peer_verification :: "'c \<Rightarrow> 'c outcome"
  op_load_verify_file :: "string \<Rightarrow> 'c \<Rightarrow> 'c outcome"
  op_add_certificate_authority :: "byte list \<Rightarrow> 'c \<Rightarrow> 'c outcome"
  op_use_tmp_dh_file :: "string \<Rightarrow> 'c \<Rightarrow> 'c outcome"
  op_use_tmp_dh :: "byte list \<Rightarrow> 'c \<Rightarrow> 'c outcome"
  op_use_certificate_file :: "string \<Rightarrow> crypto_file_format \<Rightarrow> 'c \<Rightarrow> 'c outcome"
  op_use_certificate :: "byte list \<Rightarrow> crypto_file_format \<Rightarrow> 'c \<Rightarrow> 'c outcome"
  op_use_private_key_file :: "string \<Rightarrow> crypto_file_format \<Rightarrow> 'c \<Rightarrow> 'c outcome"
  op_use_private_key :: "byte list \<Rightarrow> crypto_file_format \<Rightarrow> 'c \<Rightarrow> 'c outcome"

section \<open>\<^verbatim>\<open>boost_ssl_context\<close>\<close>

record 'n boost_ssl_context =
  native_handle :: 'n

definition new_boost_ssl_context :: "'n asio_ssl \<Rightarrow> ssl_method_type \<Rightarrow> 'n boost_ssl_context outcome" where
  "new_boost_ssl_context lib ssl_method =
     (case ssl_make lib ssl_method of Return n \<Rightarrow> Return \<lparr>native_handle = n\<rparr> | Throw e \<Rightarrow> Throw e)"

text \<open>A call on the native handle: its new state, or its exception, with which the wrapper ends too.\<close>

definition on_native :: "('n \<Rightarrow> 'n outcome) \<Rightarrow> 'n boost_ssl_context \<Rightarrow> 'n boost_ssl_context outcome" where
  "on_native f c = (case f (native_handle c) of Return n \<Rightarrow> Return (c\<lparr>native_handle := n\<rparr>) | Throw e \<Rightarrow> Throw e)"

definition ssl_file_format :: "crypto_file_format \<Rightarrow> ssl_file_format_type" where
  "ssl_file_format file_format = (if file_format = Format_asn1 then Asio_asn1 else Asio_pem)"

definition disable_peer_verification :: "'n asio_ssl \<Rightarrow> 'n boost_ssl_context \<Rightarrow> 'n boost_ssl_context outcome" where
  "disable_peer_verification lib = on_native (\<lambda>n. ssl_set_verify_mode lib n (ssl_verify_none lib))"

definition require_peer_verification :: "'n asio_ssl \<Rightarrow> 'n boost_ssl_context \<Rightarrow> 'n boost_ssl_context outcome" where
  "require_peer_verification lib =
     on_native (\<lambda>n. ssl_set_verify_mode lib n (ssl_verify_peer lib OR ssl_verify_fail_if_no_peer_cert lib))"

definition load_verify_file :: "'n asio_ssl \<Rightarrow> string \<Rightarrow> 'n boost_ssl_context \<Rightarrow> 'n boost_ssl_context outcome" where
  "load_verify_file lib path = on_native (\<lambda>n. ssl_load_verify_file lib n path)"

definition add_certificate_authority :: "'n asio_ssl \<Rightarrow> byte list \<Rightarrow> 'n boost_ssl_context \<Rightarrow> 'n boost_ssl_context outcome" where
  "add_certificate_authority lib buffer = on_native (\<lambda>n. ssl_add_certificate_authority lib n buffer)"

definition use_tmp_dh_file :: "'n asio_ssl \<Rightarrow> string \<Rightarrow> 'n boost_ssl_context \<Rightarrow> 'n boost_ssl_context outcome" where
  "use_tmp_dh_file lib path = on_native (\<lambda>n. ssl_use_tmp_dh_file lib n path)"

definition use_tmp_dh :: "'n asio_ssl \<Rightarrow> byte list \<Rightarrow> 'n boost_ssl_context \<Rightarrow> 'n boost_ssl_context outcome" where
  "use_tmp_dh lib buffer = on_native (\<lambda>n. ssl_use_tmp_dh lib n buffer)"

definition use_certificate_file ::
  "'n asio_ssl \<Rightarrow> string \<Rightarrow> crypto_file_format \<Rightarrow> 'n boost_ssl_context \<Rightarrow> 'n boost_ssl_context outcome" where
  "use_certificate_file lib path file_format =
     (let ssl_ff = ssl_file_format file_format in on_native (\<lambda>n. ssl_use_certificate_file lib n path ssl_ff))"

definition use_certificate ::
  "'n asio_ssl \<Rightarrow> byte list \<Rightarrow> crypto_file_format \<Rightarrow> 'n boost_ssl_context \<Rightarrow> 'n boost_ssl_context outcome" where
  "use_certificate lib buffer file_format =
     (let ssl_ff = ssl_file_format file_format in on_native (\<lambda>n. ssl_use_certificate lib n buffer ssl_ff))"

definition use_private_key_file ::
  "'n asio_ssl \<Rightarrow> string \<Rightarrow> crypto_file_format \<Rightarrow> 'n boost_ssl_context \<Rightarrow> 'n boost_ssl_context outcome" where
  "use_private_key_file lib path file_format =
     (let ssl_ff = ssl_file_format file_format in on_native (\<lambda>n. ssl_use_private_key_file lib n path ssl_ff))"

definition use_private_key ::
  "'n asio_ssl \<Rightarrow> byte list \<Rightarrow> crypto_file_format \<Rightarrow> 'n boost_ssl_context \<Rightarrow> 'n boost_ssl_context outcome" where
  "use_private_key lib buffer file_format =
     (let ssl_ff = ssl_file_format file_format in on_native (\<lambda>n. ssl_use_private_key lib n buffer ssl_ff))"

definition set_options :: "'n asio_ssl \<Rightarrow> u64 \<Rightarrow> 'n boost_ssl_context \<Rightarrow> 'n boost_ssl_context outcome" where
  "set_options lib options = on_native (\<lambda>n. ssl_set_options lib n options)"

definition clear_options :: "'n asio_ssl \<Rightarrow> u64 \<Rightarrow> 'n boost_ssl_context \<Rightarrow> 'n boost_ssl_context outcome" where
  "clear_options lib options = on_native (\<lambda>n. ssl_clear_options lib n options)"

text \<open>Sequencing of calls: an exception ends the sequence.\<close>

fun and_then :: "'a outcome \<Rightarrow> ('a \<Rightarrow> 'b outcome) \<Rightarrow> 'b outcome" where
  "and_then (Return x) f = f x"
| "and_then (Throw e) f = Throw e"

definition boost_ssl_ops :: "'n asio_ssl \<Rightarrow> 'n boost_ssl_context ssl_context_ops" where
  "boost_ssl_ops lib =
     \<lparr>op_disable_peer_verification = disable_peer_verification lib,
      op_require_peer_verification = require_peer_verification lib,
      op_load_verify_file = load_verify_file lib,
      op_add_certificate_authority = add_certificate_authority lib,
      op_use_tmp_dh_file = use_tmp_dh_file lib, op_use_tmp_dh = use_tmp_dh lib,
      op_use_certificate_file = use_certificate_file lib, op_use_certificate = use_certificate lib,
      op_use_private_key_file = use_private_key_file lib, op_use_private_key = use_private_key lib\<rparr>"

text \<open>The set-up functions of the example programs, which differ in their file names.\<close>

definition set_up_ssl_context :: "'c ssl_context_ops \<Rightarrow> string \<Rightarrow> string \<Rightarrow> 'c \<Rightarrow> 'c outcome" where
  "set_up_ssl_context ops certificate private_key context =
     and_then (op_require_peer_verification ops context) (\<lambda>context.
     and_then (op_load_verify_file ops ''certificate_authority.pem'' context) (\<lambda>context.
     and_then (op_use_certificate_file ops certificate Format_pem context) (\<lambda>context.
     and_then (op_use_private_key_file ops private_key Format_pem context) (\<lambda>context.
     op_use_tmp_dh_file ops ''dhparams.pem'' context))))"

text \<open>The contexts that the programs create before anything else.\<close>

definition server_ssl_context :: "'n asio_ssl \<Rightarrow> 'n boost_ssl_context outcome" where
  "server_ssl_context lib =
     and_then (new_boost_ssl_context lib Tlsv12_server)
       (set_up_ssl_context (boost_ssl_ops lib) ''server_certificate.pem'' ''server_private_key.pem'')"

definition client_ssl_context :: "'n asio_ssl \<Rightarrow> 'n boost_ssl_context outcome" where
  "client_ssl_context lib =
     and_then (new_boost_ssl_context lib Tlsv12_client)
       (set_up_ssl_context (boost_ssl_ops lib) ''client_certificate.pem'' ''client_private_key.pem'')"

section \<open>The contract\<close>

lemma and_then_Return: "and_then x f = Return y \<longleftrightarrow> (\<exists>z. x = Return z \<and> f z = Return y)"
  by (cases x) auto

text \<open>What a program relies on when it sets up a context through the abstract class: requiring peer
  verification makes the context demanding, disabling it makes it accept anyone, and no other
  function changes that. \<open>lib_ok\<close> is what the implementation assumes of its library.\<close>

locale ssl_contract =
  fixes ops :: "'c ssl_context_ops" and demands_peer :: "'c \<Rightarrow> bool" and lib_ok :: bool
  assumes require: "lib_ok \<Longrightarrow> op_require_peer_verification ops c = Return c' \<Longrightarrow> demands_peer c'"
    and disable: "lib_ok \<Longrightarrow> op_disable_peer_verification ops c = Return c' \<Longrightarrow> \<not> demands_peer c'"
    and load: "lib_ok \<Longrightarrow> op_load_verify_file ops path c = Return c' \<Longrightarrow> demands_peer c' = demands_peer c"
    and authority: "lib_ok \<Longrightarrow> op_add_certificate_authority ops buf c = Return c' \<Longrightarrow> demands_peer c' = demands_peer c"
    and dh_file: "lib_ok \<Longrightarrow> op_use_tmp_dh_file ops path c = Return c' \<Longrightarrow> demands_peer c' = demands_peer c"
    and dh: "lib_ok \<Longrightarrow> op_use_tmp_dh ops buf c = Return c' \<Longrightarrow> demands_peer c' = demands_peer c"
    and cert_file: "lib_ok \<Longrightarrow> op_use_certificate_file ops path ff c = Return c' \<Longrightarrow> demands_peer c' = demands_peer c"
    and cert: "lib_ok \<Longrightarrow> op_use_certificate ops buf ff c = Return c' \<Longrightarrow> demands_peer c' = demands_peer c"
    and key_file: "lib_ok \<Longrightarrow> op_use_private_key_file ops path ff c = Return c' \<Longrightarrow> demands_peer c' = demands_peer c"
    and key: "lib_ok \<Longrightarrow> op_use_private_key ops buf ff c = Return c' \<Longrightarrow> demands_peer c' = demands_peer c"
begin

lemma set_up_demands_peer:
  "lib_ok \<Longrightarrow> set_up_ssl_context ops certificate private_key c = Return c' \<Longrightarrow> demands_peer c'"
  using load dh_file cert_file key_file by (auto simp: set_up_ssl_context_def and_then_Return dest: require)

end

text \<open>The verification mode of the native context, and that only \<^verbatim>\<open>set_verify_mode\<close> changes it. Asio's
  \<^verbatim>\<open>verify_none\<close> is not the combination that \<^verbatim>\<open>require_peer_verification\<close> sets.\<close>

definition peer_mode :: "'n asio_ssl \<Rightarrow> u32" where
  "peer_mode lib = ssl_verify_peer lib OR ssl_verify_fail_if_no_peer_cert lib"

definition keeps_mode :: "('n \<Rightarrow> u32) \<Rightarrow> ('n \<Rightarrow> 'n outcome) \<Rightarrow> bool" where
  "keeps_mode mode f \<longleftrightarrow> (\<forall>n n'. f n = Return n' \<longrightarrow> mode n' = mode n)"

definition ssl_library_ok :: "'n asio_ssl \<Rightarrow> ('n \<Rightarrow> u32) \<Rightarrow> bool" where
  "ssl_library_ok lib mode \<longleftrightarrow> ssl_verify_none lib \<noteq> peer_mode lib \<and>
     (\<forall>n m n'. ssl_set_verify_mode lib n m = Return n' \<longrightarrow> mode n' = m) \<and>
     (\<forall>path. keeps_mode mode (\<lambda>n. ssl_load_verify_file lib n path)) \<and>
     (\<forall>buf. keeps_mode mode (\<lambda>n. ssl_add_certificate_authority lib n buf)) \<and>
     (\<forall>path. keeps_mode mode (\<lambda>n. ssl_use_tmp_dh_file lib n path)) \<and>
     (\<forall>buf. keeps_mode mode (\<lambda>n. ssl_use_tmp_dh lib n buf)) \<and>
     (\<forall>path ff. keeps_mode mode (\<lambda>n. ssl_use_certificate_file lib n path ff)) \<and>
     (\<forall>buf ff. keeps_mode mode (\<lambda>n. ssl_use_certificate lib n buf ff)) \<and>
     (\<forall>path ff. keeps_mode mode (\<lambda>n. ssl_use_private_key_file lib n path ff)) \<and>
     (\<forall>buf ff. keeps_mode mode (\<lambda>n. ssl_use_private_key lib n buf ff))"

lemmas ssl_wrapper_defs = require_peer_verification_def disable_peer_verification_def load_verify_file_def
  add_certificate_authority_def use_certificate_file_def use_certificate_def
  use_private_key_file_def use_private_key_def use_tmp_dh_file_def use_tmp_dh_def

lemmas ssl_ops_defs = boost_ssl_ops_def on_native_def ssl_wrapper_defs

lemma keeps_demand:
  "keeps_mode mode f \<Longrightarrow> on_native f c = Return c' \<Longrightarrow> (mode (native_handle c') = x) = (mode (native_handle c) = x)"
  by (auto simp: keeps_mode_def on_native_def split: outcome.splits)

interpretation boost_ssl: ssl_contract "boost_ssl_ops lib" "\<lambda>c. mode (native_handle c) = peer_mode lib"
    "ssl_library_ok lib mode"
  for lib mode
proof (unfold_locales, goal_cases)
  case (1 c c')
  then show ?case by (auto simp: ssl_library_ok_def ssl_ops_defs peer_mode_def split: outcome.splits)
next
  case (2 c c')
  then show ?case by (auto simp: ssl_library_ok_def ssl_ops_defs split: outcome.splits)
qed (simp_all add: ssl_library_ok_def boost_ssl_ops_def ssl_wrapper_defs Let_def, (elim conjE, erule keeps_demand [rotated], blast)+)

text \<open>A native context for concrete evaluation: its mode, and the files loaded so far; files whose name is
  empty cannot be loaded.\<close>

definition list_ssl :: "(u32 \<times> string list) asio_ssl" where
  "list_ssl =
     (let load = (\<lambda>(m, fs) path. if path = [] then Throw System_error else Return (m, fs @ [path])) in
      \<lparr>ssl_make = (\<lambda>_. Return (0, [])), ssl_verify_none = 0, ssl_verify_peer = 1, ssl_verify_fail_if_no_peer_cert = 2,
       ssl_set_verify_mode = (\<lambda>(_, fs) m. Return (m, fs)), ssl_load_verify_file = load,
       ssl_add_certificate_authority = (\<lambda>n _. Return n), ssl_use_tmp_dh_file = load,
       ssl_use_tmp_dh = (\<lambda>n _. Return n), ssl_use_certificate_file = (\<lambda>n path _. load n path),
       ssl_use_certificate = (\<lambda>n _ _. Return n), ssl_use_private_key_file = (\<lambda>n path _. load n path),
       ssl_use_private_key = (\<lambda>n _ _. Return n), ssl_set_options = (\<lambda>n _. Return n),
       ssl_clear_options = (\<lambda>n _. Return n)\<rparr>)"

lemma ssl_library_ok_list [simp]: "ssl_library_ok list_ssl fst"
  by (auto simp: ssl_library_ok_def keeps_mode_def peer_mode_def list_ssl_def Let_def split: if_splits)

section \<open>Properties\<close>

text \<open>Both contexts that the programs set up demand and verify the certificate of the peer, whatever
  mode the library creates them with: neither program gets as far as a connection with a context
  that accepts a peer without one.\<close>

theorem set_up_ssl_context_verifies_peer:
  assumes "ssl_library_ok lib mode" 
    and "server_ssl_context lib = Return ctx \<or> client_ssl_context lib = Return ctx"
  shows "mode (native_handle ctx) = (ssl_verify_peer lib OR ssl_verify_fail_if_no_peer_cert lib)"
  using assms boost_ssl.set_up_demands_peer [OF assms(1)]
  by (auto simp: server_ssl_context_def client_ssl_context_def and_then_Return peer_mode_def)

theorem set_up_ssl_context_verifies_peer_witness:
  "\<exists>ctx. server_ssl_context list_ssl = Return ctx \<and> fst (native_handle ctx) = 3 \<and> length (snd (native_handle ctx)) = 4"
proof -
  obtain ctx where ctx: "server_ssl_context list_ssl = Return ctx" and files: "length (snd (native_handle ctx)) = 4"
    by (simp add: server_ssl_context_def new_boost_ssl_context_def set_up_ssl_context_def ssl_ops_defs list_ssl_def Let_def
        ssl_file_format_def)
  with set_up_ssl_context_verifies_peer [OF ssl_library_ok_list] ctx
  have "fst (native_handle ctx) = (ssl_verify_peer list_ssl OR ssl_verify_fail_if_no_peer_cert list_ssl)"
    by simp
  also have "\<dots> = 3" by (simp add: list_ssl_def Let_def)
  finally show ?thesis using ctx files by blast
qed

end
