(* ===== verification/Client_Server.thy ===== *)
theory Client_Server
  imports Session_Delivery Backoff Router Ssl_Context
begin

text \<open>
  The example programs of \<^verbatim>\<open>examples/client_server\<close>: the server that answers test requests, and the
  synchronous, asynchronous, silent and reconnecting clients. They put every component of the
  library together. The code that flatc generates from \<^verbatim>\<open>request.fbs\<close> and \<^verbatim>\<open>response.fbs\<close> is the
  record \<open>client_schema\<close>. Logging is not modelled, except that the clients' last message is the
  result of their main functions.
\<close>

section \<open>The schema\<close>

text \<open>\<^verbatim>\<open>std::chrono::seconds\<close>, converted to ticks of a nanosecond.\<close>

definition seconds :: "int \<Rightarrow> duration" where
  "seconds n = n * 1000000000"

record test_request =
  request_key :: u64

record test_response =
  response_key :: u64

definition RequestId_Test :: u8 where
  "RequestId_Test = 0"

definition ResponseId_Test :: u8 where
  "ResponseId_Test = 0"

record ('b, 'o) client_schema =
  CreateTestRequest :: "'b \<Rightarrow> u64 \<Rightarrow> 'b \<times> 'o"
  CreateTestResponse :: "'b \<Rightarrow> u64 \<Rightarrow> 'b \<times> 'o"
  TestRequest_table :: "test_request fb_table"
  TestResponse_table :: "test_response fb_table"

definition schema_ok :: "('b, 'o) fb_lib \<Rightarrow> ('b, 'o) client_schema \<Rightarrow> bool" where
  "schema_ok fb sch \<longleftrightarrow>
     table_roundtrip (fb_ops fb) (CreateTestRequest sch) (TestRequest_table sch) (\<lambda>k. \<lparr>request_key = k\<rparr>) \<and>
     table_roundtrip (fb_ops fb) (CreateTestResponse sch) (TestResponse_table sch) (\<lambda>k. \<lparr>response_key = k\<rparr>)"

section \<open>The server\<close>

text \<open>A handler of the router gets the session it was called on, which is the state it works on.\<close>

definition handle_valid_test_request ::
  "platform \<Rightarrow> ('b, 'o) fb_lib \<Rightarrow> ('b, 'o) client_schema \<Rightarrow> unit \<Rightarrow> test_request \<Rightarrow>
   ('u, 'm, 'x) session_result \<Rightarrow> ('u, 'm, 'x) session_result" where
  "handle_valid_test_request p fb sch sess request_body res =
     (let response_key = 0x56789;
          (s, effs) = res;
          (s, effs') = on_socket (\<lambda>sock. async_send_forget (erased_write Sent) p fb (CreateTestResponse sch) False sock
                                           ResponseId_Test response_key) s
      in (s, effs @ effs'))"

definition request_router ::
  "platform \<Rightarrow> ('b, 'o) fb_lib \<Rightarrow> ('b, 'o) client_schema \<Rightarrow>
   (unit, test_request, ('u, 'm, 'x) session_result) message_info list" where
  "request_router p fb sch =
     [\<lparr>mi_id = RequestId_Test, mi_table = TestRequest_table sch, mi_handler = handle_valid_test_request p fb sch\<rparr>]"

definition client_connection_handle_message ::
  "platform \<Rightarrow> ('b, 'o) fb_lib \<Rightarrow> ('b, 'o) client_schema \<Rightarrow> ('u, 'm, 'x) message_handler" where
  "client_connection_handle_message p fb sch mid body s = snd (dispatch (request_router p fb sch) mid () body (s, []))"

text \<open>The callbacks of the server only log.\<close>

datatype log_callback = Log_connected | Log_disconnected

definition run_log_callback ::
  "log_callback \<Rightarrow> sid \<Rightarrow> ('s, log_callback, 'z) manager_scheme \<Rightarrow>
   ('s, log_callback, 'z) manager_scheme \<times> (log_callback, 'c) manager_effect list" where
  "run_log_callback f i m = (m, [])"

text \<open>\<open>acceptor\<close> is the outcome of opening the acceptor, which throws when the port is taken.\<close>

definition server_main ::
  "'n asio_ssl \<Rightarrow> unit outcome \<Rightarrow> (sid \<Rightarrow> 's) \<Rightarrow>
   ('s, log_callback, 'n boost_ssl_context, 'd, 'c) boost_result outcome" where
  "server_main lib acceptor objs =
     and_then (server_ssl_context lib) (\<lambda>client_ssl_context.
     and_then acceptor (\<lambda>_.
       let manager = new_boost_manager objs client_ssl_context;
           manager = manager_set_idle_timeout (seconds 10) manager;
           manager = manager_set_heartbeat_timeout (seconds 2) manager;
           manager = manager_set_handshake_timeout (seconds 3) manager;
           manager = manager_set_max_message_size (1024 * 1024) manager;
           manager = on_connect (Some Log_connected) manager;
           manager = on_disconnect (Some Log_disconnected) manager
       in Return (async_wait_for_connection manager)))"

section \<open>The clients\<close>

datatype client_report = Connect_failed | Handshake_failed | No_response | Response_key u64 | Stayed_silent

text \<open>Creating the context and the socket, connecting and shaking hands: the same first lines of all
  clients. \<open>stream\<close> is the stream that Asio creates for an executor and a context.\<close>

definition open_socket :: "'n asio_ssl \<Rightarrow> ('n boost_ssl_context \<Rightarrow> 'x) \<Rightarrow> ('h, 'x) tcp_socket outcome" where
  "open_socket lib stream =
     and_then (client_ssl_context lib) (\<lambda>ssl_ctx. Return (new_tcp_socket (stream ssl_ctx)))"

definition dial_server :: "'x asio \<Rightarrow> ('h, 'x) tcp_socket \<Rightarrow> (client_report option \<times> ('h, 'x) tcp_socket) outcome" where
  "dial_server a sock =
     (case connect_host a sock ''127.0.0.1'' ''2457'' of
        (Throw e, sock) \<Rightarrow> Throw e
      | (Return False, sock) \<Rightarrow> Return (Some Connect_failed, sock)
      | (Return True, sock) \<Rightarrow>
          (let (ok, sock) = handshake a sock Client_handshake
           in Return (if ok then None else Some Handshake_failed, sock)))"

definition sync_exchange ::
  "'x asio \<Rightarrow> platform \<Rightarrow> ('b, 'o) fb_lib \<Rightarrow> size_t \<Rightarrow> ('b, 'o) client_schema \<Rightarrow> ('h, 'x) tcp_socket \<Rightarrow>
   client_report outcome option" where
  "sync_exchange a p fb lim sch sock =
     (let request_key = 0x12345;
          (_, sock) = send (tcp_ops a) p fb (CreateTestRequest sch) False sock RequestId_Test request_key
      in case recv (tcp_ops a) p fb lim (TestResponse_table sch) sock [] of
           None \<Rightarrow> None
         | Some (Throw e, _, _) \<Rightarrow> Some (Throw e)
         | Some (Return None, _, _) \<Rightarrow> Some (Return No_response)
         | Some (Return (Some response), _, _) \<Rightarrow> Some (Return (Response_key (response_key response))))"

text \<open>\<open>None\<close> is a client that never returns.\<close>

definition run_sync_client ::
  "'n asio_ssl \<Rightarrow> ('n boost_ssl_context \<Rightarrow> 'x) \<Rightarrow> 'x asio \<Rightarrow> platform \<Rightarrow> ('b, 'o) fb_lib \<Rightarrow> size_t \<Rightarrow>
   ('b, 'o) client_schema \<Rightarrow> client_report outcome option" where
  "run_sync_client lib stream a p fb lim sch =
     (case and_then (open_socket lib stream :: (unit, 'x) tcp_socket outcome) (dial_server a) of
        Throw e \<Rightarrow> Some (Throw e)
      | Return (Some failure, _) \<Rightarrow> Some (Return failure)
      | Return (None, sock) \<Rightarrow> sync_exchange a p fb lim sch sock)"

text \<open>The silent client sleeps and ends without reading or writing anything.\<close>

definition run_silent_client ::
  "'n asio_ssl \<Rightarrow> ('n boost_ssl_context \<Rightarrow> 'x) \<Rightarrow> 'x asio \<Rightarrow> client_report outcome" where
  "run_silent_client lib stream a =
     (case and_then (open_socket lib stream :: (unit, 'x) tcp_socket outcome) (dial_server a) of
        Throw e \<Rightarrow> Throw e
      | Return (Some failure, _) \<Rightarrow> Return failure
      | Return (None, _) \<Rightarrow> Return Stayed_silent)"

text \<open>The asynchronous client: the response is dispatched to a handler that logs the key.\<close>

definition handle_test_response :: "unit \<Rightarrow> test_response \<Rightarrow> u64 list \<Rightarrow> u64 list" where
  "handle_test_response sess response log = log @ [response_key response]"

definition response_router :: "('b, 'o) client_schema \<Rightarrow> (unit, test_response, u64 list) message_info list" where
  "response_router sch =
     [\<lparr>mi_id = ResponseId_Test, mi_table = TestResponse_table sch, mi_handler = handle_test_response\<rparr>]"

definition async_client_log :: "('b, 'o) client_schema \<Rightarrow> u8 \<Rightarrow> byte list \<Rightarrow> u64 list" where
  "async_client_log sch mid body = snd (dispatch (response_router sch) mid () body [])"

definition async_client_handle_message :: "('u, 'm, 'x) message_handler" where
  "async_client_handle_message mid body s = (s, [])"

text \<open>What happens before \<^verbatim>\<open>io_context.run()\<close>, which then completes the session's reads.\<close>

definition run_async_client ::
  "'n asio_ssl \<Rightarrow> ('n boost_ssl_context \<Rightarrow> 'x) \<Rightarrow> 'x asio \<Rightarrow> platform \<Rightarrow> ('b, 'o) fb_lib \<Rightarrow>
   ('b, 'o) client_schema \<Rightarrow> (client_report option \<times> ('u, 'm, 'x) session_result) outcome" where
  "run_async_client lib stream a p fb sch =
     and_then (open_socket lib stream) (\<lambda>socket.
       let session = new_session socket False in
       case session_connect a session ''127.0.0.1'' ''2457'' of
         (Throw e, session) \<Rightarrow> Throw e
       | (Return False, session) \<Rightarrow> Return (Some Connect_failed, session, [])
       | (Return True, session) \<Rightarrow>
           (let (ok, session) = session_handshake a session Client_handshake in
            if \<not> ok then Return (Some Handshake_failed, session, [])
            else
              let request_key = 0x12345;
                  (_, session) = send (session_socket_ops a) p fb (CreateTestRequest sch) False session
                                   RequestId_Test request_key
              in Return (None, session_start session)))"

text \<open>The reconnecting client. Its callback on connect sends the request; \<open>two\<close> is the policy's default
  multiplier, the \<^verbatim>\<open>double\<close> 2.0.\<close>

definition run_client_callback ::
  "'x asio \<Rightarrow> platform \<Rightarrow> ('b, 'o) fb_lib \<Rightarrow> ('b, 'o) client_schema \<Rightarrow> log_callback \<Rightarrow> sid \<Rightarrow>
   (('u, 'm, 'x) session, log_callback, 'z) manager_scheme \<Rightarrow>
   (('u, 'm, 'x) session, log_callback, 'z) manager_scheme \<times> (log_callback, 'c) manager_effect list" where
  "run_client_callback a p fb sch f i m =
     (case f of
        Log_connected \<Rightarrow>
          (let request_key = 0x12345;
               (_, sess) = send (session_socket_ops a) p fb (CreateTestRequest sch) False (objects m i)
                             RequestId_Test request_key
           in (update_object i sess m, []))
      | Log_disconnected \<Rightarrow> (m, []))"

definition client_policy :: "'d \<Rightarrow> 'd reconnect_policy" where
  "client_policy two =
     \<lparr>initial_delay = seconds 1, max_delay = seconds 5, policy_idle_timeout = seconds 5, multiplier = two, max_attempts = 0\<rparr>"

definition run_reconnect_client ::
  "'n asio_ssl \<Rightarrow> unit outcome \<Rightarrow> ('s, 'n boost_ssl_context, 'd, 'c) boost_session_ops \<Rightarrow>
   ('s, 'n boost_ssl_context, 'a) session_factory \<Rightarrow> 'd \<Rightarrow> (sid \<Rightarrow> 's) \<Rightarrow>
   (sid \<times> ('s, log_callback, 'n boost_ssl_context, 'd, 'c) boost_result) outcome" where
  "run_reconnect_client lib acceptor ops factory two objs =
     and_then (client_ssl_context lib) (\<lambda>ssl_ctx.
     and_then acceptor (\<lambda>_.
       let manager = new_boost_manager objs ssl_ctx;
           manager = on_connect (Some Log_connected) manager;
           manager = on_disconnect (Some Log_disconnected) manager
       in Return (boost_connect_policy ops factory manager ''127.0.0.1'' ''2457'' ssl_ctx (client_policy two))))"

text \<open>The choice of the client by the first argument of the program.\<close>

datatype client_mode = Silent | Reconnecting | Sync_then_async

definition client_main :: "string list \<Rightarrow> client_mode" where
  "client_main argv =
     (let mode = (if length argv > 1 then argv ! 1 else [])
      in if mode = ''silent'' then Silent
         else if mode = ''reconnect'' then Reconnecting
         else Sync_then_async)"

section \<open>Lemmas: the server's handler\<close>

lemma client_connection_request:
  assumes "schema_ok fb sch"
  shows "client_connection_handle_message p fb sch RequestId_Test (serialise (fb_ops fb) (CreateTestRequest sch) key) s =
    on_socket (\<lambda>sock. async_send_forget (erased_write Sent) p fb (CreateTestResponse sch) False sock
      ResponseId_Test 0x56789) s"
  using table_roundtripD(1) [of "fb_ops fb" "CreateTestRequest sch" "TestRequest_table sch" _ key] assms
  by (auto simp: client_connection_handle_message_def request_router_def process_def handle_valid_test_request_def
      schema_ok_def case_prod_beta)

lemma client_connection_ok: "handler_ok (client_connection_handle_message p fb sch)"
proof -
  have "silent s (client_connection_handle_message p fb sch mid body s)" for mid body and s :: "('u, 'm, 'x) session"
  proof (cases "mid = RequestId_Test \<and> is_valid (TestRequest_table sch) body")
    case True
    then have "client_connection_handle_message p fb sch mid body s =
        on_socket (\<lambda>sock. async_send_forget (erased_write Sent) p fb (CreateTestResponse sch) False sock
          ResponseId_Test 0x56789) s"
      by (simp add: client_connection_handle_message_def request_router_def process_def handle_valid_test_request_def
          case_prod_beta)
    then show ?thesis by (simp add: silent_on_socket quiet_ops)
  next
    case False
    then have "client_connection_handle_message p fb sch mid body s = (s, [])"
      by (auto simp: client_connection_handle_message_def request_router_def process_def)
    then show ?thesis by (simp add: silent_def)
  qed
  then show ?thesis unfolding handler_ok_def silent_def by (metis fst_conv snd_conv)
qed

text \<open>Completing the body of an application message: the handler runs on a session with the same queue.\<close>

lemma read_done_message_body:
  obtains s1 where "write_queue (session_socket s1) = write_queue (session_socket s)"
    and "max_pending_writes (session_socket s1) = max_pending_writes (session_socket s)"
    and "session_socket (fst (session_read_done hm a p fb lim (After_body mid False) False data s)) =
      session_socket (fst (hm mid data s1))"
proof
  let ?s1 = "fst (on_socket (\<lambda>sock. on_read_done sock False (Read_done (After_body mid False))) s)"
  show "write_queue (session_socket ?s1) = write_queue (session_socket s)"
    and "max_pending_writes (session_socket ?s1) = max_pending_writes (session_socket s)"
    by (simp_all add: on_socket_def on_read_done_queue Let_def case_prod_beta)
  show "session_socket (fst (session_read_done hm a p fb lim (After_body mid False) False data s)) =
      session_socket (fst (hm mid data ?s1))"
    by (simp add: session_read_done_def run_cont.simps read_frame_size_def on_socket_def async_read_def Let_def
        case_prod_beta)
qed

lemma server_queues_response:
  assumes "boost_endian_ok p" and "schema_ok fb sch"
    and "max_pending_writes (session_socket s) = 0 \<or>
         length (write_queue (session_socket s)) < max_pending_writes (session_socket s)"
  obtains w where
    "write_queue (session_socket (fst (session_read_done (client_connection_handle_message p fb sch) a p fb lim
       (After_body RequestId_Test False) False (serialise (fb_ops fb) (CreateTestRequest sch) key) s))) =
     write_queue (session_socket s) @ [w]"
    and "pw_head w @ pw_body w = frame_bytes fb ResponseId_Test False (serialise (fb_ops fb) (CreateTestResponse sch) 0x56789)"
proof -
  obtain s1 where s1: "write_queue (session_socket s1) = write_queue (session_socket s)"
    "max_pending_writes (session_socket s1) = max_pending_writes (session_socket s)"
    "session_socket (fst (session_read_done (client_connection_handle_message p fb sch) a p fb lim
       (After_body RequestId_Test False) False (serialise (fb_ops fb) (CreateTestRequest sch) key) s)) =
     session_socket (fst (client_connection_handle_message p fb sch RequestId_Test
       (serialise (fb_ops fb) (CreateTestRequest sch) key) s1))"
    by (rule read_done_message_body)
  have room: "max_pending_writes (session_socket s1) = 0 \<or>
      length (write_queue (session_socket s1)) < max_pending_writes (session_socket s1)"
    using assms(3) s1 by simp
  obtain w where
    "write_queue (fst (async_send_forget (erased_write Sent) p fb (CreateTestResponse sch) False
      (session_socket s1) ResponseId_Test 0x56789)) = write_queue (session_socket s1) @ [w]"
    "pw_head w @ pw_body w = frame_bytes fb ResponseId_Test False (serialise (fb_ops fb) (CreateTestResponse sch) 0x56789)"
    by (rule send_queues [OF assms(1) room])
  with s1 show thesis
    by (intro that) (simp_all add: client_connection_request [OF assms(2)] on_socket_def Let_def case_prod_beta)
qed

section \<open>Lemmas: the synchronous client\<close>

lemma first_message_after_system:
  assumes "flatbuffers_ok fb" and "all_fit fb lim cap ms" and "\<forall>(mid, sys, b) \<in> set ms. sys" and "fits fb lim cap mid False bs"
  shows "first_message fb lim cap (stream_bytes fb ms @ frame_bytes fb mid False bs @ rest) = Return (Some (mid, bs, rest))"
  using assms(2,3)
proof (induction ms)
  case Nil
  then show ?case using assms(1,4) by (simp add: first_message.simps [of fb lim cap "frame_bytes fb mid False bs @ rest"] decode_frame_bytes)
next
  case (Cons m ms)
  obtain i b where m: "m = (i, True, b)" using Cons.prems(2) by (cases m) auto
  let ?rest = "stream_bytes fb ms @ frame_bytes fb mid False bs @ rest"
  have "decode_frame fb lim cap (frame_bytes fb i True b @ ?rest) = Frame i True b ?rest"
    using Cons.prems(1) m assms(1) by (simp add: decode_frame_bytes)
  then have "first_message fb lim cap (frame_bytes fb i True b @ ?rest) = first_message fb lim cap ?rest"
    by (simp add: first_message.simps [of fb lim cap "frame_bytes fb i True b @ ?rest"])
  with Cons m show ?case by simp
qed

lemma send_keeps_input:
  assumes "asio_stream_ok a inbound outbound"
  shows "inbound (tcp_stream (snd (send (tcp_ops a) p fb create_fn sys s mid args))) = inbound (tcp_stream s)"
    and "max_message_size (snd (send (tcp_ops a) p fb create_fn sys s mid args)) = max_message_size s"
proof -
  show "inbound (tcp_stream (snd (send (tcp_ops a) p fb create_fn sys s mid args))) = inbound (tcp_stream s)"
    unfolding send_def Let_def
    by (rule stream_socket.send_buffer_stream(2) [OF tcp_stream_socket [OF assms] TrueI prod.collapse [symmetric] refl])
  show "max_message_size (snd (send (tcp_ops a) p fb create_fn sys s mid args)) = max_message_size s"
    by (simp add: send_def send_buffer_def tcp_ops_def tcp_write_def Let_def case_prod_beta)
qed

lemma recv_first_message:
  assumes "asio_stream_ok a inbound outbound" and "boost_endian_ok p"
    and "first_message fb lim (max_message_size s) (inbound (tcp_stream s)) = Return (Some (mid, b, rest))"
    and "is_valid table b"
  shows "\<exists>s'. recv (tcp_ops a) p fb lim table s buffer = Some (Return (Some (deserialise table b)), b, s')"
proof -
  have "op_max_message_size (tcp_ops a) s = max_message_size s" by (simp add: tcp_ops_def)
  then have "recv_matches (\<lambda>s. inbound (tcp_stream s)) (Return (Some (mid, b, rest))) (recv_buffer (tcp_ops a) p fb lim s buffer)"
    using stream_socket.recv_loop_first_message [OF tcp_stream_socket [OF assms(1)] assms(2) refl TrueI,
        of fb lim "max_message_size s" s buffer] assms(3)
    by (simp add: recv_buffer_def)
  with assms(4) show ?thesis by (auto simp: recv_matches_def recv_def)
qed

text \<open>The manager that the server's main function sets up.\<close>

lemma server_main_manager:
  assumes "server_main lib acceptor objs = Return (m, effs)"
  shows "mgr_idle_timeout m = seconds 10" and "mgr_heartbeat_timeout m = seconds 2" and "mgr_handshake_timeout m = seconds 3"
    and "mgr_max_message_size m = 1024 * 1024" and "mgr_max_pending_writes m = 0" and "mgr_max_sessions m = 0"
    and "mgr_max_connections_per_ip m = 0"
  using assms
  by (auto simp: server_main_def and_then_Return async_wait_for_connection_def on_disconnect_def on_connect_def
      manager_set_max_message_size_def manager_set_handshake_timeout_def manager_set_heartbeat_timeout_def
      manager_set_idle_timeout_def new_boost_manager_def new_manager_def manager.extend_def)

section \<open>The settings of a manager over its life\<close>

definition settings ::
  "('s, 'f, 'z) manager_scheme \<Rightarrow> duration \<times> duration \<times> duration \<times> size_t \<times> size_t \<times> size_t \<times> size_t" where
  "settings m = (mgr_idle_timeout m, mgr_heartbeat_timeout m, mgr_handshake_timeout m, mgr_max_message_size m,
     mgr_max_pending_writes m, limits m)"

text \<open>The server's callbacks only log.\<close>

definition settings_kept :: "('s, 'f, 'l, 'd, 'c) boost_callbacks \<Rightarrow> bool" where
  "settings_kept run \<longleftrightarrow> (\<forall>f i m. settings (fst (run f i m)) = settings m)"

lemma settings_simps [simp]:
  "settings (update_object i s m) = settings m" "settings (m\<lparr>mgr_sessions := x\<rparr>) = settings m"
  "settings (m\<lparr>mgr_connections_per_ip := y\<rparr>) = settings m" "settings (fst (call_session i f m)) = settings m"
  by (simp_all add: settings_def limits_def update_object_def call_session_def Let_def case_prod_beta)

lemma settings_boost_simps [simp]:
  fixes m :: "('s, 'f, 'l, 'd) boost_manager"
  shows "settings (m\<lparr>reconnect_map := rm\<rparr>) = settings m" "settings (m\<lparr>reconnect_timers := ts\<rparr>) = settings m"
    "settings (m\<lparr>reconnect_stopped := b\<rparr>) = settings m" "settings (m\<lparr>acceptor_open := b\<rparr>) = settings m"
    "settings (snd (make_session s m)) = settings m"
  by (simp_all add: settings_def limits_def make_session_def update_object_def)

lemma settings_callback: "settings_kept run \<Longrightarrow> settings (fst (run_callback run cb i m)) = settings m"
  by (simp add: run_callback_def settings_kept_def Let_def case_prod_beta split: option.split)

lemma settings_register: "settings_kept run \<Longrightarrow> settings (fst (snd (register_and_start ops run m i))) = settings m"
  by (simp add: register_and_start_def settings_callback Let_def case_prod_beta split: outcome.split)

lemma settings_add [simp]: "settings (fst (snd (add_session ops m i))) = settings m"
  by (simp add: add_session_def Let_def case_prod_beta split: outcome.split)

lemma settings_schedule [simp]: "settings (fst (schedule_reconnect m st)) = settings m"
  by (simp add: schedule_reconnect_def Let_def)

lemma settings_do_connect [simp]: "settings (fst (do_connect ops m i host service st)) = settings m"
  by (simp add: do_connect_def Let_def split: option.split)

lemma settings_remove:
  assumes "settings_kept run"
  shows "settings (fst (snd (remove_session ops run boost_on_session_removed m i))) = settings m"
  by (simp add: remove_session_def boost_on_session_removed_def settings_callback [OF assms] Let_def case_prod_beta
      split: outcome.split option.split)

lemma settings_close_all:
  "settings (fst (for_each_session (\<lambda>i m. (update_object i (f (objects m i)) m, g i)) is m)) = settings m"
  by (induction "is" arbitrary: m) (simp_all add: Let_def case_prod_beta)

lemma settings_manager_stop: "settings (fst (manager_stop ops m)) = settings m"
  using settings_close_all by (simp add: manager_stop_def Let_def case_prod_beta)

lemma settings_stop: "settings (fst (boost_stop ops m)) = settings m"
  by (simp add: boost_stop_def settings_manager_stop Let_def case_prod_beta)

lemma settings_step:
  assumes "boost_step ops factory scale run m m'" and "settings_kept run"
  shows "settings m' = settings m"
  using assms(1)
proof cases
  case (accepted error sock out effs)
  have "settings (fst (snd (on_accept ops factory m error sock))) = settings m"
    by (simp add: on_accept_def async_wait_for_connection_def Let_def case_prod_beta split: outcome.split)
  with accepted show ?thesis by simp
next
  case (server_handshake i ok out effs)
  with settings_register [OF assms(2), of ops m i] show ?thesis by (auto simp: on_server_handshaken_def split: if_splits)
next
  case (dial host service ctx i effs)
  have "settings (fst (snd (boost_connect ops factory m host service ctx))) = settings m"
    by (simp add: boost_connect_def Let_def case_prod_beta)
  with dial show ?thesis by simp
next
  case (dial_policy host service ctx policy i effs)
  have "settings (fst (snd (boost_connect_policy ops factory m host service ctx policy))) = settings m"
    by (simp add: boost_connect_policy_def Let_def case_prod_beta)
  with dial_policy show ?thesis by simp
next
  case (dial_connected i st ok effs)
  have "settings (fst (on_dial_connected ops m i st ok)) = settings m"
    by (simp add: on_dial_connected_def split: option.split)
  with dial_connected show ?thesis by simp
next
  case (dial_handshake i st ok out effs)
  have "settings (fst (snd (on_dial_handshaken ops run m i st ok))) = settings m"
    by (simp add: on_dial_handshaken_def settings_register [OF assms(2)] Let_def split: option.split)
  with dial_handshake show ?thesis by simp
next
  case (timer st ec effs)
  have "settings (fst (on_reconnect_timer ops factory scale m st ec)) = settings m"
    by (simp add: on_reconnect_timer_def attempt_reconnect_def Let_def case_prod_beta)
  with timer show ?thesis by simp
next
  case (dropped i out effs)
  with settings_remove [OF assms(2), of ops m i] show ?thesis by simp
next
  case (halted effs)
  with settings_stop [of ops m] show ?thesis by simp
qed simp

interpretation boost_settings: step_invariant "boost_step ops factory scale run" "\<lambda>m. settings_kept run \<and> settings m = c"
  for ops factory scale run c
  by unfold_locales (auto dest: settings_step)

lemma settings_kept_none: "settings_kept no_callbacks"
  by (simp add: settings_kept_def no_callbacks_def)

section \<open>Instances for concrete evaluation\<close>

definition flat_schema :: "(byte list, unit) client_schema" where
  "flat_schema =
     \<lparr>CreateTestRequest = (\<lambda>b k. (b @ le_bytes 8 k, ())), CreateTestResponse = (\<lambda>b k. (b @ le_bytes 8 k, ())),
      TestRequest_table = \<lparr>fb_verify = (\<lambda>buf. length buf = 8), fb_root = (\<lambda>buf. \<lparr>request_key = le_value buf\<rparr>)\<rparr>,
      TestResponse_table = \<lparr>fb_verify = (\<lambda>buf. length buf = 8), fb_root = (\<lambda>buf. \<lparr>response_key = le_value buf\<rparr>)\<rparr>\<rparr>"

lemma schema_ok_flat [simp]: "schema_ok flat_fb flat_schema"
  by (auto simp: schema_ok_def table_roundtrip_def flat_schema_def flat_fb_def le64.dec_enc
      simp del: length_greater_0_conv)

text \<open>Byte pipes that resolve every name.\<close>

definition local_asio :: "(byte list \<times> byte list) asio" where
  "local_asio = pipe_asio\<lparr>asio_resolve := (\<lambda>_ _. Some [\<lparr>ep_address = V4 9, ep_port = 2457\<rparr>])\<rparr>"

lemma asio_stream_ok_local [simp]: "asio_stream_ok local_asio fst snd"
  by (simp add: asio_stream_ok_def local_asio_def pipe_asio_def)

lemma new_tcp_socket_simps [simp]: "max_message_size (new_tcp_socket x) = 0" "tcp_stream (new_tcp_socket x) = x"
  by (simp_all add: new_tcp_socket_def default_max_message_size_def)

lemma contexts_list_ssl:
  "\<exists>ctx. server_ssl_context list_ssl = Return ctx" "\<exists>ctx. client_ssl_context list_ssl = Return ctx"
  by (simp_all add: server_ssl_context_def client_ssl_context_def new_boost_ssl_context_def set_up_ssl_context_def
      ssl_ops_defs list_ssl_def Let_def)

lemma open_socket_list_ssl:
  assumes "\<And>ctx. stream ctx = x"
  shows "open_socket list_ssl stream = Return (new_tcp_socket x)"
  using contexts_list_ssl(2) assms by (auto simp: open_socket_def)

lemma dial_server_local: "dial_server local_asio sock = Return (None, sock)"
  by (simp add: dial_server_def connect_host_def resolve_host_def handshake_def local_asio_def pipe_asio_def Let_def)

definition demo_connection :: "(unit, ((u32 \<times> string list) boost_ssl_context, int) dial_state manager_callback, byte list \<times> byte list) session" where
  "demo_connection = new_session ((new_tcp_socket ([], []))\<lparr>remote_endpoint := \<lparr>ep_address = V4 9, ep_port = 80\<rparr>\<rparr>) True"

definition connection_factory ::
  "((unit, ((u32 \<times> string list) boost_ssl_context, int) dial_state manager_callback, byte list \<times> byte list) session,
    (u32 \<times> string list) boost_ssl_context, unit) session_factory" where
  "connection_factory = \<lparr>make_dialled = (\<lambda>_. demo_connection), make_accepted = (\<lambda>_ _. demo_connection)\<rparr>"

lemma connection_factory_ip: "ipv4_address (session_socket (make_accepted connection_factory x ctx)) = Return 9"
  by (simp add: connection_factory_def demo_connection_def new_session_def ipv4_address_def)

section \<open>Properties\<close>

text \<open>C4: a request is answered: when a session of the server completes the body of a test request, it queues
  exactly one frame behind the writes already pending and reads on; and a synchronous client whose
  connection delivers the bytes of this frame, after any heartbeat frames and before anything else,
  reports the server's response key, whatever the byte orders of the two machines.\<close>

theorem request_answered:
  assumes "flatbuffers_ok fb" and "schema_ok fb sch" and "boost_endian_ok p" and "boost_endian_ok q"
    and "max_pending_writes (session_socket s) = 0 \<or>
         length (write_queue (session_socket s)) < max_pending_writes (session_socket s)"
    and "session_read_done (client_connection_handle_message p fb sch) b p fb lim' (After_body RequestId_Test False) False
           (serialise (fb_ops fb) (CreateTestRequest sch) key) s = (s', effs)"
    and "asio_stream_ok a inbound outbound"
    and "open_socket lib stream = Return (sock :: (unit, _) tcp_socket)" and "dial_server a sock = Return (None, conn)"
    and "all_fit fb lim (max_message_size conn) ms" and "\<forall>(mid, sys, body) \<in> set ms. sys"
    and "fits fb lim (max_message_size conn) ResponseId_Test False (serialise (fb_ops fb) (CreateTestResponse sch) 0x56789)"
  shows "reads_of effs = [(8, After_frame_size)] \<and>
    (\<exists>w. write_queue (session_socket s') = write_queue (session_socket s) @ [w] \<and>
       (inbound (tcp_stream conn) = stream_bytes fb ms @ pw_head w @ pw_body w @ rest \<longrightarrow>
          run_sync_client lib stream a q fb lim sch = Some (Return (Response_key 0x56789))))"
proof -
  let ?body = "serialise (fb_ops fb) (CreateTestResponse sch) 0x56789"
  let ?conn = "snd (send (tcp_ops a) q fb (CreateTestRequest sch) False conn RequestId_Test 0x12345)"
  have reads: "reads_of effs = [(8, After_frame_size)]"
    using read_done_body [OF client_connection_ok, of RequestId_Test False "serialise (fb_ops fb) (CreateTestRequest sch) key" s
        p fb sch b p fb lim'] assms(6) by (simp add: hands_over_def)
  obtain w where w: "write_queue (session_socket s') = write_queue (session_socket s) @ [w]"
    "pw_head w @ pw_body w = frame_bytes fb ResponseId_Test False ?body"
    by (rule server_queues_response [OF assms(3,2,5), of b lim' key]) (use assms(6) in simp)
  have valid: "is_valid (TestResponse_table sch) ?body" "deserialise (TestResponse_table sch) ?body = \<lparr>response_key = 0x56789\<rparr>"
    using assms(2) table_roundtripD(1,2) [of "fb_ops fb" "CreateTestResponse sch"] unfolding schema_ok_def by fastforce+
  have "run_sync_client lib stream a q fb lim sch = Some (Return (Response_key 0x56789))"
    if "inbound (tcp_stream conn) = stream_bytes fb ms @ pw_head w @ pw_body w @ rest"
  proof -
    have "inbound (tcp_stream ?conn) = stream_bytes fb ms @ frame_bytes fb ResponseId_Test False ?body @ rest"
      using that w(2) by (simp add: send_keeps_input(1) [OF assms(7)])
    then have "first_message fb lim (max_message_size ?conn) (inbound (tcp_stream ?conn)) =
        Return (Some (ResponseId_Test, ?body, rest))"
      using first_message_after_system [OF assms(1,10-12)] by (simp add: send_keeps_input(2) [OF assms(7)])
    from recv_first_message [OF assms(7,4) this valid(1), of "[]"] obtain conn' where
      "recv (tcp_ops a) q fb lim (TestResponse_table sch) ?conn [] = Some (Return (Some \<lparr>response_key = 0x56789\<rparr>), ?body, conn')"
      by (auto simp: valid(2))
    then show ?thesis
      by (simp add: run_sync_client_def assms(8,9) sync_exchange_def case_prod_beta)
  qed
  with reads w(1) show ?thesis by blast
qed

theorem request_answered_witness:
  "\<exists>w. write_queue (session_socket (fst (session_read_done (client_connection_handle_message big_platform flat_fb flat_schema)
       pipe_asio big_platform flat_fb 100 (After_body RequestId_Test False) False
       (serialise (fb_ops flat_fb) (CreateTestRequest flat_schema) 7) demo_session))) = [w] \<and>
     run_sync_client list_ssl (\<lambda>_. (stream_bytes flat_fb [(0, True, [4])] @ pw_head w @ pw_body w, [])) local_asio
       little_platform flat_fb 100 flat_schema = Some (Return (Response_key 0x56789))"
proof -
  let ?r = "session_read_done (client_connection_handle_message big_platform flat_fb flat_schema) pipe_asio big_platform
      flat_fb 100 (After_body RequestId_Test False) False
      (serialise (fb_ops flat_fb) (CreateTestRequest flat_schema) 7) demo_session"
  have s: "write_queue (session_socket demo_session) = []" "max_pending_writes (session_socket demo_session) = 0"
    by (simp_all add: demo_session_def new_session_def set_max_message_size_def new_tcp_socket_def
        default_max_pending_writes_def)
  obtain w where w: "write_queue (session_socket (fst ?r)) = [w]"
    using server_queues_response [OF boost_endian_ok_big schema_ok_flat, of demo_session pipe_asio 100 7] s by auto
  let ?bytes = "(stream_bytes flat_fb [(0, True, [4])] @ pw_head w @ pw_body w, [] :: byte list)"
  have fit: "fits flat_fb 100 0 ResponseId_Test False (serialise (fb_ops flat_fb) (CreateTestResponse flat_schema) 0x56789)"
    "all_fit flat_fb 100 0 [(0, True, [4])]"
    by (simp_all add: fits_flat_fb serialise_flat_fb flat_schema_def)
  from request_answered [OF flatbuffers_ok_flat_fb schema_ok_flat boost_endian_ok_big boost_endian_ok_little _
      prod.collapse [symmetric] asio_stream_ok_local open_socket_list_ssl [of "\<lambda>_. ?bytes" ?bytes, OF refl] dial_server_local,
      where s = demo_session and ms = "[(0, True, [4])]"
      and rest = "[]" and b = pipe_asio and lim' = 100 and lim = 100 and key = 7] s w fit
  show ?thesis by auto
qed

text \<open>C20: the server's settings protect every connection it accepts, at any time in its life: whatever was
  accepted, dialled, dropped or stopped before, a connection from an IPv4 peer is admitted with a
  handshake deadline of three seconds; when its handshake succeeds, an idle timeout of ten seconds and
  a heartbeat of two are armed; and once it is started, no bytes of the peer make its session read
  more than one MiB into one buffer or throw while it receives, whatever is handled, sent or timed out
  meanwhile. (A peer with an IPv6 address makes the handler throw before that.)\<close>

theorem server_sessions_bounded:
  assumes "server_main lib acceptor objs = Return (m0, effs0)" and "settings_kept run"
    and "(boost_step (tcp_session_ops a) factory scale run)\<^sup>*\<^sup>* m0 m"
    and "ipv4_address (session_socket (make_accepted factory x (ssl_context m))) = Return ip"
    and "on_accept (tcp_session_ops a) factory m False x = (out, m', effs')" and "s = objects m' (next_address m)"
    and "on_socket (\<lambda>sock. on_handshake_done sock False h) s = (s', effs)"
    and "boost_endian_ok p" and "1024 * 1024 \<le> lim"
    and "(session_step (client_connection_handle_message p fb sch) a p fb lim)\<^sup>*\<^sup>* (run_start s') r"
  shows "out = Return () \<and> Session_call (next_address m) (Socket_call (Expires_after Handshake_timer (seconds 3))) \<in> set effs' \<and>
    Socket_call (Expires_after Idle_timer (seconds 10)) \<in> set effs \<and>
    Socket_call (Expires_after Heartbeat_timer (seconds 2)) \<in> set effs \<and>
    (\<forall>(n, k) \<in> set (reads_of (run_trace r)). n \<le> 1024 * 1024) \<and> (\<forall>e. Throws e \<notin> set (run_trace r))"
proof -
  have "settings m = settings m0"
    using boost_settings.run_inv [OF assms(3), of "settings m0"] assms(2) by simp
  then have m: "mgr_idle_timeout m = seconds 10" "mgr_heartbeat_timeout m = seconds 2" "mgr_handshake_timeout m = seconds 3"
    "mgr_max_message_size m = 1024 * 1024" "mgr_max_pending_writes m = 0" "mgr_max_sessions m = 0"
    "mgr_max_connections_per_ip m = 0"
    using server_main_manager [OF assms(1)] by (simp_all add: settings_def limits_def)
  have s: "idle_timeout (session_socket s) = seconds 10" "heartbeat_timeout (session_socket s) = seconds 2"
    "max_message_size (session_socket s) = 1024 * 1024" and out: "out = Return ()"
    "Session_call (next_address m) (Socket_call (Expires_after Handshake_timer (seconds 3))) \<in> set effs'"
    using assms(4-6)
    by (auto simp: on_accept_def add_session_def make_session_def update_object_def can_ip_connect_def call_session_def
        apply_caps_def tcp_session_ops_def session_socket_ops_def on_session_socket_def session_async_handshake_def
        async_handshake_def reset_timer_eqs on_socket_def seconds_def m async_wait_for_connection_def
        set_idle_timeout_def set_heartbeat_timeout_def set_handshake_timeout_def set_max_message_size_def Let_def)
  have s': "max_message_size (session_socket s') = 1024 * 1024"
    and armed: "Socket_call (Expires_after Idle_timer (seconds 10)) \<in> set effs"
      "Socket_call (Expires_after Heartbeat_timer (seconds 2)) \<in> set effs"
    using assms(7) s by (auto simp: on_socket_def on_handshake_done_def tcp_timer_defs seconds_def Let_def)
  have "max_message_size (session_socket s') \<noteq> 0" "max_message_size (session_socket s') \<le> lim"
    using s' assms(9) by simp_all
  note run_reads_bounded [OF assms(8) client_connection_ok assms(10) this]
  with s' out armed show ?thesis by (simp add: reads_bounded_def)
qed

theorem server_sessions_bounded_witness:
  "\<exists>m0 m effs. server_main list_ssl (Return ()) (\<lambda>_. demo_connection) =
       (Return (m0, effs) :: (_, _, _, int, unit) boost_result outcome) \<and>
     boost_step (tcp_session_ops pipe_asio) connection_factory (\<lambda>k d. k * d) no_callbacks m0 m \<and>
     (let s = objects (fst (snd (on_accept (tcp_session_ops pipe_asio) connection_factory m False ()))) (next_address m);
          r = on_socket (\<lambda>sock. on_handshake_done sock False (Owner_callback (Server_handshaken 1))) s
      in Socket_call (Expires_after Idle_timer (seconds 10)) \<in> set (snd r) \<and>
         (\<forall>(n, k) \<in> set (reads_of (run_trace (run_start (fst r)))). n \<le> 1024 * 1024))"
proof -
  obtain m0 effs where m0: "server_main list_ssl (Return ()) (\<lambda>_. demo_connection) =
      (Return (m0, effs) :: (_, _, _, int, unit) boost_result outcome)"
    using contexts_list_ssl(1)
    by (auto simp: server_main_def async_wait_for_connection_def)
  obtain out1 m effs1 where r1: "on_accept (tcp_session_ops pipe_asio) connection_factory m0 False () = (out1, m, effs1)"
    by (rule prod_cases3)
  have step: "boost_step (tcp_session_ops pipe_asio) connection_factory (\<lambda>k d. k * d) no_callbacks m0 m"
    by (rule boost_step.accepted [OF r1])
  let ?r = "on_accept (tcp_session_ops pipe_asio) connection_factory m False ()"
  have r: "?r = (fst ?r, fst (snd ?r), snd (snd ?r))" by simp
  from server_sessions_bounded [OF m0 settings_kept_none r_into_rtranclp [where r = "boost_step _ _ _ _", OF step]
      connection_factory_ip r refl prod.collapse [symmetric] boost_endian_ok_little order_refl rtranclp.rtrancl_refl]
  show ?thesis using m0 step unfolding Let_def by blast
qed

text \<open>The reconnecting client keeps trying: its first dial carries a state with which, however often
  dialling has failed, the next failure only starts another wait, of 1, 2, 4 and from then on 5
  seconds.\<close>

theorem reconnect_client_redials:
  assumes "run_reconnect_client lib acceptor (tcp_session_ops a) factory two objs = Return (i, m, effs)"
    and "\<And>d. scale two d = 2 * d"
  shows "\<exists>st. concat (map redial_of effs) = [(i, st)] \<and> rs_host st = ''127.0.0.1'' \<and>
    (\<forall>n. \<exists>m' j st'. after_failures a factory scale n m i st = Some (m', j, st') \<and>
       snd (on_dial_connected (tcp_session_ops a) m' j (Some st') False) =
         [Timer_started (min (seconds (2 ^ n)) (seconds 5))])"
proof -
  obtain ctx where ctx: "client_ssl_context lib = Return ctx" and acc: "acceptor = Return ()"
    using assms(1) by (auto simp: run_reconnect_client_def and_then_Return)
  define st where "st = \<lparr>rs_host = ''127.0.0.1'', rs_service = ''2457'', rs_ssl_context = ctx, rs_policy = client_policy two,
    rs_attempts = 0, rs_current_delay = initial_delay (client_policy two)\<rparr>"
  obtain m0 where "\<not> reconnect_stopped m0"
    and dial: "(m, effs) = do_connect (tcp_session_ops a) m0 i (rs_host st) (rs_service st) (Some st)"
  proof (rule that [of "snd (make_session (make_dialled factory ctx)
      (on_disconnect (Some Log_disconnected) (on_connect (Some Log_connected) (new_boost_manager objs ctx))))"])
  qed (use assms(1) in \<open>auto simp: run_reconnect_client_def ctx acc boost_connect_policy_def st_def make_session_def
      update_object_def on_disconnect_def on_connect_def new_boost_manager_def new_manager_def manager.extend_def Let_def\<close>)
  then have m: "\<not> reconnect_stopped m"
    using stopped_do_connect [of "tcp_session_ops a" m0 i "rs_host st" "rs_service st" "Some st"] dial
    by (metis fst_conv)
  have first: "concat (map redial_of effs) = [(i, st)]"
    using redials_do_connect [of a m0 i st] dial by (metis snd_conv)
  have delays: "backoff scale (client_policy two) n = min (seconds (2 ^ n)) (seconds 5)" for n
    using backoff_doubling [of "client_policy two" scale n] assms(2) by (simp add: client_policy_def seconds_def mult.commute)
  have "\<exists>m' j st'. after_failures a factory scale n m i st = Some (m', j, st') \<and>
       snd (on_dial_connected (tcp_session_ops a) m' j (Some st') False) = [Timer_started (min (seconds (2 ^ n)) (seconds 5))]" for n
  proof -
    obtain m' j where r: "after_failures a factory scale n m i st =
        Some (m', j, st\<lparr>rs_attempts := n, rs_current_delay := backoff scale (client_policy two) n\<rparr>)" "\<not> reconnect_stopped m'"
      using after_failures_schedule [OF m, of st n a factory scale i] by (auto simp: st_def client_policy_def)
    have "max_attempts (rs_policy (st\<lparr>rs_attempts := n, rs_current_delay := backoff scale (client_policy two) n\<rparr>)) = 0"
      by (simp add: st_def client_policy_def)
    with r(1) show ?thesis by (simp add: delays dial_failure_schedules [OF r(2)])
  qed
  with first show ?thesis by (intro exI [of _ st]) (simp add: st_def)
qed

theorem reconnect_client_redials_witness:
  "\<exists>i m effs st. run_reconnect_client list_ssl (Return ()) (tcp_session_ops pipe_asio) connection_factory 2 (\<lambda>_. demo_connection) =
       Return (i, m, effs) \<and> concat (map redial_of effs) = [(i, st)] \<and>
     after_failures pipe_asio connection_factory (\<lambda>k d. k * d) 7 m i st \<noteq> None"
proof -
  obtain i m effs where
    r: "run_reconnect_client list_ssl (Return ()) (tcp_session_ops pipe_asio) connection_factory 2 (\<lambda>_. demo_connection) =
      Return (i, m, effs)"
    using contexts_list_ssl(2) by (auto simp: run_reconnect_client_def) (metis prod.exhaust)
  from reconnect_client_redials [OF r, of "\<lambda>k d. k * d"] r show ?thesis by fastforce
qed

end
