(* ===== verification/Peer.thy ===== *)
theory Peer
  imports Client_Server Lifetime
begin

text \<open>
  The example program of \<^verbatim>\<open>examples/peer/main.cpp\<close>: a peer listens on a port, dials the peers named on
  its command line, and once per second broadcasts a random number to every session of its manager.
  The code that flatc generates from \<^verbatim>\<open>peer.fbs\<close> is the record \<open>peer_schema\<close>, and the standard
  library's random engine is the argument \<open>draw\<close>.
\<close>

section \<open>The sessions\<close>

record random_number =
  value_of :: u64

definition MessageId_Random :: u8 where
  "MessageId_Random = 0"

record ('b, 'o) peer_schema =
  CreateRandomNumber :: "'b \<Rightarrow> u64 \<Rightarrow> 'b \<times> 'o"
  RandomNumber_table :: "random_number fb_table"

definition peer_schema_ok :: "('b, 'o) fb_lib \<Rightarrow> ('b, 'o) peer_schema \<Rightarrow> bool" where
  "peer_schema_ok fb sch \<longleftrightarrow>
     table_roundtrip (fb_ops fb) (CreateRandomNumber sch) (RandomNumber_table sch) (\<lambda>v. \<lparr>value_of = v\<rparr>)"

definition handle_random_number :: "unit \<Rightarrow> random_number \<Rightarrow> u64 list \<Rightarrow> u64 list" where
  "handle_random_number sess message log = log @ [value_of message]"

definition peer_router :: "('b, 'o) peer_schema \<Rightarrow> (unit, random_number, u64 list) message_info list" where
  "peer_router sch =
     [\<lparr>mi_id = MessageId_Random, mi_table = RandomNumber_table sch, mi_handler = handle_random_number\<rparr>]"

text \<open>What a session logs for a message, which is all that its handler does.\<close>

definition peer_session_log :: "('b, 'o) peer_schema \<Rightarrow> u8 \<Rightarrow> byte list \<Rightarrow> u64 list" where
  "peer_session_log sch mid body = snd (dispatch (peer_router sch) mid () body [])"

definition peer_session_handle_message :: "('u, 'm, 'x) message_handler" where
  "peer_session_handle_message mid body s = (s, [])"

section \<open>The broadcaster\<close>

text \<open>\<open>bc_wait\<close>: the wait on the timer that is outstanding, or whose handler is still to run.\<close>

record 'g broadcaster =
  bc_rng :: 'g
  bc_wait :: "wait_status option"

definition new_broadcaster :: "'g \<Rightarrow> 'g broadcaster" where
  "new_broadcaster seed = \<lparr>bc_rng = seed, bc_wait = None\<rparr>"

definition bc_schedule :: "'g broadcaster \<Rightarrow> 'g broadcaster \<times> ('f, 'c) manager_effect list" where
  "bc_schedule b = (b\<lparr>bc_wait := Some Armed\<rparr>, [Timer_started (seconds 1)])"

definition bc_start :: "'g broadcaster \<Rightarrow> 'g broadcaster \<times> ('f, 'c) manager_effect list" where
  "bc_start b = bc_schedule b"

text \<open>\<^verbatim>\<open>cancel\<close> completes an armed wait with an error; it has no effect on a wait that has expired.\<close>

definition bc_stop :: "'g broadcaster \<Rightarrow> 'g broadcaster" where
  "bc_stop b = b\<lparr>bc_wait := map_option abort_status (bc_wait b)\<rparr>"

definition broadcast ::
  "('g \<Rightarrow> u64 \<times> 'g) \<Rightarrow> platform \<Rightarrow> ('b, 'o) fb_lib \<Rightarrow> ('b, 'o) peer_schema \<Rightarrow> 'g broadcaster \<Rightarrow>
   (('u, 'm, 'x) session, 'f, 'z) manager_scheme \<Rightarrow>
   'g broadcaster \<times> (('u, 'm, 'x) session, 'f, 'z) manager_scheme \<times> ('f, ('u, 'm) session_effect) manager_effect list" where
  "broadcast draw p fb sch b m =
     (let (value, rng) = draw (bc_rng b);
          (m, effs) = for_each_session
            (\<lambda>i m. call_session i
               (\<lambda>s. on_socket (\<lambda>sock. async_send_forget (erased_write Sent) p fb (CreateRandomNumber sch) False sock
                                        MessageId_Random value) s) m)
            (mgr_sessions m) m
      in (b\<lparr>bc_rng := rng\<rparr>, m, effs))"

definition on_broadcast_timer ::
  "('g \<Rightarrow> u64 \<times> 'g) \<Rightarrow> platform \<Rightarrow> ('b, 'o) fb_lib \<Rightarrow> ('b, 'o) peer_schema \<Rightarrow> 'g broadcaster \<Rightarrow>
   (('u, 'm, 'x) session, 'f, 'z) manager_scheme \<Rightarrow> bool \<Rightarrow>
   'g broadcaster \<times> (('u, 'm, 'x) session, 'f, 'z) manager_scheme \<times> ('f, ('u, 'm) session_effect) manager_effect list" where
  "on_broadcast_timer draw p fb sch b m error_code =
     (if error_code then (b\<lparr>bc_wait := None\<rparr>, m, [])
      else
        let (b, m, effs) = broadcast draw p fb sch b m;
            (b, effs') = bc_schedule b
        in (b, m, effs @ effs'))"

text \<open>What happens to the broadcaster of a running program: its timer expires, the handler of its wait runs,
  or the program stops it.\<close>

datatype bc_event = Bc_expires | Bc_handler | Bc_stops

type_synonym ('g, 's, 'f, 'c, 'z) bc_world =
  "'g broadcaster \<times> ('s, 'f, 'z) manager_scheme \<times> ('f, 'c) manager_effect list"

fun bc_step ::
  "('g \<Rightarrow> u64 \<times> 'g) \<Rightarrow> platform \<Rightarrow> ('b, 'o) fb_lib \<Rightarrow> ('b, 'o) peer_schema \<Rightarrow> bc_event \<Rightarrow>
   ('g, ('u, 'm, 'x) session, 'f, ('u, 'm) session_effect, 'z) bc_world \<Rightarrow>
   ('g, ('u, 'm, 'x) session, 'f, ('u, 'm) session_effect, 'z) bc_world" where
  "bc_step draw p fb sch Bc_expires (b, m, effs) =
     (b\<lparr>bc_wait := map_option (\<lambda>st. if st = Armed then Expired else st) (bc_wait b)\<rparr>, m, effs)"
| "bc_step draw p fb sch Bc_handler (b, m, effs) =
     (case bc_wait b of
        Some Expired \<Rightarrow> (let (b, m, effs') = on_broadcast_timer draw p fb sch b m False in (b, m, effs @ effs'))
      | Some Cancelled \<Rightarrow> (let (b, m, effs') = on_broadcast_timer draw p fb sch b m True in (b, m, effs @ effs'))
      | _ \<Rightarrow> (b, m, effs))"
| "bc_step draw p fb sch Bc_stops (b, m, effs) = (bc_stop b, m, effs)"

section \<open>The main function\<close>

text \<open>\<^verbatim>\<open>std::stoul\<close> in base ten: white space, a sign, and the longest run of digits; \<^verbatim>\<open>strtoul\<close> negates in
  the unsigned type.\<close>

definition c_isspace :: "char \<Rightarrow> bool" where
  "c_isspace c \<longleftrightarrow> of_char c \<in> {9, 10, 11, 12, 13, 32 :: nat}"

definition c_isdigit :: "char \<Rightarrow> bool" where
  "c_isdigit c \<longleftrightarrow> 48 \<le> (of_char c :: nat) \<and> (of_char c :: nat) \<le> 57"

fun decimal :: "nat \<Rightarrow> string \<Rightarrow> nat" where
  "decimal acc [] = acc"
| "decimal acc (c # cs) = decimal (10 * acc + (of_char c - 48)) cs"

definition stoul :: "string \<Rightarrow> u64 outcome" where
  "stoul str =
     (let s = dropWhile c_isspace str;
          negative = (s \<noteq> [] \<and> hd s = CHR ''-'');
          s = (if s \<noteq> [] \<and> (hd s = CHR ''-'' \<or> hd s = CHR ''+'') then tl s else s);
          digits = takeWhile c_isdigit s
      in if digits = [] then Throw Invalid_argument
         else let n = decimal 0 digits
              in if n \<ge> 2 ^ 64 then Throw Out_of_range
                 else Return (if negative then - of_nat n else of_nat n))"

text \<open>\<^verbatim>\<open>std::string::rfind\<close>.\<close>

fun rfind :: "char \<Rightarrow> string \<Rightarrow> nat option" where
  "rfind c [] = None"
| "rfind c (x # xs) =
     (case rfind c xs of
        Some i \<Rightarrow> Some (Suc i)
      | None \<Rightarrow> if x = c then Some 0 else None)"

text \<open>The loop over the addresses on the command line.\<close>

fun connect_peers ::
  "('s, 'l, 'd, 'c) boost_session_ops \<Rightarrow> ('s, 'l, 'a) session_factory \<Rightarrow> 'l \<Rightarrow> string list \<Rightarrow>
   ('s, 'f, 'l, 'd) boost_manager \<Rightarrow> ('s, 'f, 'l, 'd, 'c) boost_result" where
  "connect_peers ops factory client_context [] m = (m, [])"
| "connect_peers ops factory client_context (address # argv) m =
     (case rfind CHR '':'' address of
        None \<Rightarrow> connect_peers ops factory client_context argv m
      | Some separator \<Rightarrow>
          (let host = take separator address;
               service = drop (separator + 1) address;
               (i, m, effs) = boost_connect ops factory m host service client_context;
               (m, effs') = connect_peers ops factory client_context argv m
           in (m, effs @ effs')))"

text \<open>\<^verbatim>\<open>main\<close> up to \<^verbatim>\<open>pool.join()\<close>; \<open>None\<close> is the usage message. \<open>acceptor\<close> opens the listening port.\<close>

definition peer_main ::
  "'n asio_ssl \<Rightarrow> (u16 \<Rightarrow> unit outcome) \<Rightarrow> ('s, 'n boost_ssl_context, 'd, 'c) boost_session_ops \<Rightarrow>
   ('s, 'n boost_ssl_context, 'a) session_factory \<Rightarrow> (sid \<Rightarrow> 's) \<Rightarrow> 'g \<Rightarrow> string list \<Rightarrow>
   ('g broadcaster \<times> ('s, log_callback, 'n boost_ssl_context, 'd, 'c) boost_result) option outcome" where
  "peer_main lib acceptor ops factory objs seed argv =
     (if length argv < 2 then Return None
      else
        and_then (stoul (argv ! 1)) (\<lambda>port_number.
        let listen_port = (ucast port_number :: u16) in
        and_then (server_ssl_context lib) (\<lambda>server_context.
        and_then (client_ssl_context lib) (\<lambda>client_context.
        and_then (acceptor listen_port) (\<lambda>_.
          let manager = new_boost_manager objs server_context;
              manager = manager_set_idle_timeout (seconds 10) manager;
              manager = manager_set_heartbeat_timeout (seconds 3) manager;
              manager = manager_set_max_message_size (1024 * 1024) manager;
              manager = on_connect (Some Log_connected) manager;
              manager = on_disconnect (Some Log_disconnected) manager;
              (manager, effs) = async_wait_for_connection manager;
              (manager, effs') = connect_peers ops factory client_context (drop 2 argv) manager;
              (random_broadcaster, effs'') = bc_start (new_broadcaster seed)
          in Return (Some (random_broadcaster, manager, effs @ effs' @ effs'')))))))"

section \<open>Lemmas\<close>

lemma rfind_None: "rfind c xs = None \<longleftrightarrow> c \<notin> set xs"
  by (induction xs) (auto split: option.splits)

lemma rfind_Some_mem: "rfind c xs = Some i \<Longrightarrow> c \<in> set xs"
  using rfind_None [of c xs] by auto

lemma rfind_Some:
  "rfind c xs = Some i \<Longrightarrow> take i xs @ c # drop (i + 1) xs = xs \<and> c \<notin> set (drop (i + 1) xs)"
proof (induction xs arbitrary: i)
  case (Cons x xs)
  show ?case
  proof (cases "rfind c xs")
    case None
    with Cons.prems rfind_None [of c xs] show ?thesis by (auto split: if_splits)
  next
    case (Some k)
    with Cons.prems Cons.IH [OF Some] show ?thesis by auto
  qed
qed simp

text \<open>Broadcasting touches every listed session once.\<close>

lemma for_each_call_session:
  assumes "distinct is"
  shows "for_each_session (\<lambda>i. call_session i f) is m =
    (m\<lparr>objects := (\<lambda>i. if i \<in> set is then fst (f (objects m i)) else objects m i)\<rparr>,
     concat (map (\<lambda>i. map (Session_call i) (snd (f (objects m i)))) is))"
  using assms
proof (induction "is" arbitrary: m)
  case (Cons i "is")
  let ?m = "update_object i (fst (f (objects m i))) m"
  have same: "objects ?m j = objects m j" if "j \<in> set is" for j
    using Cons.prems that by (auto simp: update_object_def)
  have "for_each_session (\<lambda>i. call_session i f) is ?m =
      (?m\<lparr>objects := (\<lambda>j. if j \<in> set is then fst (f (objects ?m j)) else objects ?m j)\<rparr>,
       concat (map (\<lambda>j. map (Session_call j) (snd (f (objects ?m j)))) is))"
    using Cons by simp
  moreover have "(\<lambda>j. if j \<in> set is then fst (f (objects ?m j)) else objects ?m j) =
      (\<lambda>j. if j \<in> set (i # is) then fst (f (objects m j)) else objects m j)"
    using Cons.prems by (auto simp: update_object_def)
  moreover have "concat (map (\<lambda>j. map (Session_call j) (snd (f (objects ?m j)))) is) =
      concat (map (\<lambda>j. map (Session_call j) (snd (f (objects m j)))) is)"
    using same by (simp cong: map_cong)
  moreover have "call_session i f m = (?m, map (Session_call i) (snd (f (objects m i))))"
    by (simp add: call_session_def case_prod_beta)
  moreover have "?m\<lparr>objects := obj\<rparr> = m\<lparr>objects := obj\<rparr>" for obj by (simp add: update_object_def)
  ultimately show ?case by (simp add: Let_def)
qed simp

lemma peer_log_random:
  assumes "peer_schema_ok fb sch"
  shows "peer_session_log sch MessageId_Random (serialise (fb_ops fb) (CreateRandomNumber sch) v) = [v]"
  using table_roundtripD(1,2) [OF assms [unfolded peer_schema_ok_def], of v]
  by (simp add: peer_session_log_def peer_router_def process_def handle_random_number_def)

text \<open>The names that a manager has asked Asio to resolve, in order.\<close>

fun dial_of :: "('f, ('u, 'm) session_effect) manager_effect \<Rightarrow> (string \<times> string) list" where
  "dial_of (Session_call _ (Socket_call (Async_resolve host service _))) = [(host, service)]"
| "dial_of _ = []"

lemma dials_activity:
  "concat (map (\<lambda>c. dial_of (Session_call i (Socket_call c))) (snd (reset_activity_timers s))) = []"
  by (auto simp: tcp_timer_defs Let_def)

lemma dials_do_connect:
  "concat (map dial_of (snd (do_connect (tcp_session_ops a) m i host service st))) = [(host, service)]"
  using dials_activity
  by (simp add: do_connect_def call_session_def tcp_session_ops_def session_async_connect_def on_socket_def async_connect_def
      Let_def case_prod_beta comp_def del: concat_eq_Nil_conv)

lemma dials_connect_peers:
  "concat (map dial_of (snd (connect_peers (tcp_session_ops a) factory ctx argv m))) =
     concat (map (\<lambda>address. case rfind CHR '':'' address of
                      None \<Rightarrow> [] | Some i \<Rightarrow> [(take i address, drop (i + 1) address)]) argv)"
proof (induction argv arbitrary: m)
  case (Cons address argv)
  then show ?case
    by (simp add: boost_connect_def case_prod_beta Let_def dials_do_connect split: option.split)
qed simp

text \<open>The broadcaster after a stop.\<close>

definition bc_done :: "'g broadcaster \<Rightarrow> bool" where
  "bc_done b \<longleftrightarrow> bc_wait b = None \<or> bc_wait b = Some Cancelled"

lemma bc_done_step:
  assumes "bc_done b"
  shows "\<exists>b'. bc_step draw p fb sch e (b, m, effs) = (b', m, effs) \<and> bc_done b'"
  using assms by (cases e) (auto simp: bc_done_def on_broadcast_timer_def bc_stop_def)

lemma bc_done_run:
  assumes "bc_done b"
  shows "\<exists>b'. fold (bc_step draw p fb sch) es (b, m, effs) = (b', m, effs) \<and> bc_done b'"
  using assms
proof (induction es arbitrary: b)
  case (Cons e es)
  obtain b1 where "bc_step draw p fb sch e (b, m, effs) = (b1, m, effs)" "bc_done b1"
    using bc_done_step [OF Cons.prems] by blast
  with Cons.IH [of b1] show ?case by simp
qed simp

text \<open>The timers started so far: each broadcast starts the next one.\<close>

definition timers_started :: "('f, 'c) manager_effect list \<Rightarrow> nat" where
  "timers_started effs = length (filter (\<lambda>e. e = Timer_started (seconds 1)) effs)"

lemma bc_handler_rearms:
  assumes "bc_wait b = Some Expired"
  shows "bc_wait (fst (bc_step draw p fb sch Bc_handler (b, m, effs))) = Some Armed"
    and "timers_started effs < timers_started (snd (snd (bc_step draw p fb sch Bc_handler (b, m, effs))))"
  using assms by (simp_all add: on_broadcast_timer_def bc_schedule_def timers_started_def Let_def case_prod_beta)

lemma bc_rounds:
  assumes "bc_wait b = Some Expired"
  shows "timers_started effs + n \<le> timers_started
      (snd (snd (fold (bc_step draw p fb sch) (concat (replicate n [Bc_handler, Bc_expires])) (b, m, effs))))"
  using assms
proof (induction n arbitrary: b m effs)
  case (Suc n)
  obtain b1 m1 effs1 where step: "bc_step draw p fb sch Bc_handler (b, m, effs) = (b1, m1, effs1)" by (rule prod_cases3)
  with bc_handler_rearms [OF Suc.prems, where draw = draw and p = p and fb = fb and sch = sch and m = m and effs = effs]
  have b1: "bc_wait b1 = Some Armed" "timers_started effs < timers_started effs1" by simp_all
  then have "bc_wait (b1\<lparr>bc_wait := Some Expired\<rparr>) = Some Expired" by simp
  from Suc.IH [OF this, where effs = effs1 and m = m1] step b1 show ?case by simp
qed simp

text \<open>A schema for concrete evaluation.\<close>

definition flat_peer_schema :: "(byte list, unit) peer_schema" where
  "flat_peer_schema =
     \<lparr>CreateRandomNumber = (\<lambda>b v. (b @ le_bytes 8 v, ())),
      RandomNumber_table = \<lparr>fb_verify = (\<lambda>buf. length buf = 8), fb_root = (\<lambda>buf. \<lparr>value_of = le_value buf\<rparr>)\<rparr>\<rparr>"

lemma peer_schema_ok_flat [simp]: "peer_schema_ok flat_fb flat_peer_schema"
  by (auto simp: peer_schema_ok_def table_roundtrip_def flat_peer_schema_def flat_fb_def le64.dec_enc
      simp del: length_greater_0_conv)

text \<open>A port number past the range of \<^verbatim>\<open>std::uint16_t\<close> is reduced, not refused.\<close>

lemma listen_port_wraps: "\<exists>n. stoul ''65537'' = Return n \<and> (ucast n :: u16) = 1"
  by (simp add: stoul_def c_isspace_def c_isdigit_def)

section \<open>Properties\<close>

text \<open>C31: a broadcast reaches every session: each registered session with room in its queue gets exactly one
  frame behind its pending writes, sessions that are not registered are left alone, and a peer that
  receives the frame logs the number that was drawn.\<close>

theorem broadcast_reaches_every_session:
  assumes "flatbuffers_ok fb" and "peer_schema_ok fb sch" and "boost_endian_ok p" and "distinct (mgr_sessions m)"
    and "draw (bc_rng b) = (v, rng)" and "broadcast draw p fb sch b m = (b', m', effs)"
    and "fits fb lim cap MessageId_Random False (serialise (fb_ops fb) (CreateRandomNumber sch) v)"
    and "max_pending_writes (session_socket (objects m i)) = 0 \<or>
         length (write_queue (session_socket (objects m i))) < max_pending_writes (session_socket (objects m i))"
  shows "mgr_sessions m' = mgr_sessions m \<and> (i \<notin> set (mgr_sessions m) \<longrightarrow> objects m' i = objects m i) \<and>
    (i \<in> set (mgr_sessions m) \<longrightarrow>
      (\<exists>w body. write_queue (session_socket (objects m' i)) = write_queue (session_socket (objects m i)) @ [w] \<and>
         decode_frame fb lim cap (pw_head w @ pw_body w) = Frame MessageId_Random False body [] \<and>
         peer_session_log sch MessageId_Random body = [v]))"
proof -
  let ?body = "serialise (fb_ops fb) (CreateRandomNumber sch) v"
  let ?f = "\<lambda>s. on_socket (\<lambda>sock. async_send_forget (erased_write Sent) p fb (CreateRandomNumber sch) False sock
      MessageId_Random v) s"
  have m': "m' = m\<lparr>objects := (\<lambda>i. if i \<in> set (mgr_sessions m) then fst (?f (objects m i)) else objects m i)\<rparr>"
    using assms(6) by (simp add: broadcast_def assms(5) for_each_call_session [OF assms(4)] Let_def)
  obtain w where "write_queue (fst (async_send_forget (erased_write Sent) p fb (CreateRandomNumber sch) False
      (session_socket (objects m i)) MessageId_Random v)) = write_queue (session_socket (objects m i)) @ [w]"
    "pw_head w @ pw_body w = frame_bytes fb MessageId_Random False ?body"
    by (rule send_queues [OF assms(3,8)])
  moreover have "decode_frame fb lim cap (frame_bytes fb MessageId_Random False ?body) = Frame MessageId_Random False ?body []"
    using decode_frame_bytes [OF assms(1,7), of "[]"] by simp
  ultimately show ?thesis
    using peer_log_random [OF assms(2), of v] by (auto simp: m' on_socket_def Let_def case_prod_beta)
qed

theorem broadcast_reaches_every_session_witness:
  "let m = (new_manager (\<lambda>_. demo_session) :: (_, unit) manager)\<lparr>mgr_sessions := [3, 5]\<rparr>;
       r = broadcast (\<lambda>n. (of_nat n, n + 1)) big_platform flat_fb flat_peer_schema (new_broadcaster 41) m
   in \<exists>w body. write_queue (session_socket (objects (fst (snd r)) 5)) = [w] \<and>
        decode_frame flat_fb 100 64 (pw_head w @ pw_body w) = Frame MessageId_Random False body [] \<and>
        peer_session_log flat_peer_schema MessageId_Random body = [41]"
proof -
  let ?m = "(new_manager (\<lambda>_. demo_session) :: (_, unit) manager)\<lparr>mgr_sessions := [3, 5]\<rparr>"
  let ?r = "broadcast (\<lambda>n. (of_nat n, n + 1)) big_platform flat_fb flat_peer_schema (new_broadcaster 41) ?m"
  have s: "write_queue (session_socket demo_session) = []" "max_pending_writes (session_socket demo_session) = 0"
    by (simp_all add: demo_session_def new_session_def set_max_message_size_def new_tcp_socket_def
        default_max_pending_writes_def)
  have "fits flat_fb 100 64 MessageId_Random False (serialise (fb_ops flat_fb) (CreateRandomNumber flat_peer_schema) 41)"
    by (simp add: fits_flat_fb serialise_flat_fb flat_peer_schema_def)
  with broadcast_reaches_every_session [OF flatbuffers_ok_flat_fb peer_schema_ok_flat boost_endian_ok_big, of ?m
      "\<lambda>n. (of_nat n, n + 1)" "new_broadcaster 41" 41 42 "fst ?r" "fst (snd ?r)" "snd (snd ?r)" 100 64 5] s
  show ?thesis by (simp add: Let_def new_broadcaster_def new_manager_def)
qed

text \<open>The peer dials exactly the well-formed addresses of its command line, in order: an argument
  \<open>host:service\<close> is split at its last colon, so that a host may contain colons itself, an argument
  without a colon is skipped, and the broadcast timer is started.\<close>

theorem peer_dials_addresses:
  assumes "peer_main lib acceptor (tcp_session_ops a) factory objs seed (prog # listen_port # addresses) =
         Return (Some (b, m, effs))"
  shows "map (\<lambda>(host, service). host @ CHR '':'' # service) (concat (map dial_of effs)) =
      filter (\<lambda>address. CHR '':'' \<in> set address) addresses \<and>
    (\<forall>(host, service) \<in> set (concat (map dial_of effs)). CHR '':'' \<notin> set service) \<and> bc_wait b = Some Armed"
proof -
  obtain m0 client_context where "effs = [Accept_started] @ snd (connect_peers (tcp_session_ops a) factory client_context addresses m0) @
      [Timer_started (seconds 1)]" and b: "b = (new_broadcaster seed)\<lparr>bc_wait := Some Armed\<rparr>"
    using assms
    by (auto simp: peer_main_def and_then_Return async_wait_for_connection_def bc_start_def bc_schedule_def case_prod_beta Let_def)
  then have dials: "concat (map dial_of effs) = concat (map (\<lambda>address. case rfind CHR '':'' address of
      None \<Rightarrow> [] | Some i \<Rightarrow> [(take i address, drop (i + 1) address)]) addresses)"
    by (simp add: dials_connect_peers)
  have "map (\<lambda>(host, service). host @ CHR '':'' # service) (concat (map (\<lambda>address. case rfind CHR '':'' address of
      None \<Rightarrow> [] | Some i \<Rightarrow> [(take i address, drop (i + 1) address)]) addresses)) =
      filter (\<lambda>address. CHR '':'' \<in> set address) addresses"
    by (induction addresses) (auto simp: rfind_None dest: rfind_Some rfind_Some_mem split: option.splits)
  moreover have "\<forall>(host, service) \<in> set (concat (map (\<lambda>address. case rfind CHR '':'' address of
      None \<Rightarrow> [] | Some i \<Rightarrow> [(take i address, drop (i + 1) address)]) addresses)). CHR '':'' \<notin> set service"
    using rfind_Some by (force split: option.splits)
  ultimately show ?thesis unfolding dials by (simp add: b)
qed

theorem peer_dials_addresses_witness:
  "\<exists>b m effs. peer_main list_ssl (\<lambda>_. Return ()) (tcp_session_ops pipe_asio) connection_factory (\<lambda>_. demo_connection) (0 :: nat)
       [''peer'', ''2457'', ''nowhere'', ''::1:80''] = Return (Some (b, m, effs)) \<and>
     map (\<lambda>(host, service). host @ CHR '':'' # service) (concat (map dial_of effs)) = [''::1:80''] \<and> bc_wait b = Some Armed"
proof -
  have "stoul ''2457'' = Return 2457"
    by (simp add: stoul_def c_isspace_def c_isdigit_def)
  then obtain b m effs where
    r: "peer_main list_ssl (\<lambda>_. Return ()) (tcp_session_ops pipe_asio) connection_factory (\<lambda>_. demo_connection) (0 :: nat)
       [''peer'', ''2457'', ''nowhere'', ''::1:80''] = Return (Some (b, m, effs))"
    using contexts_list_ssl
    by (auto simp: peer_main_def Let_def case_prod_beta simp del: connect_peers.simps)
  from peer_dials_addresses [OF r] show ?thesis using r by auto
qed

text \<open>C32: stopping the broadcaster races with its timer. A stop that comes before the timer expires ends it:
  whatever happens later, nothing is broadcast and no timer is started. A stop that finds the timer
  expired with its handler still to run has no effect, since \<^verbatim>\<open>cancel\<close> only aborts waits that have
  not expired and no flag records the stop: the broadcaster goes on for as many rounds as one likes,
  and the pool that \<^verbatim>\<open>main\<close> joins always has work left.\<close>

theorem broadcaster_stop_races_timer:
  "(bc_wait b \<noteq> Some Expired \<longrightarrow>
      (\<forall>es. \<exists>b'. fold (bc_step draw p fb sch) (Bc_stops # es) (b, m, effs) = (b', m, effs))) \<and>
   (bc_wait b = Some Expired \<longrightarrow>
      (\<forall>n. \<exists>es. timers_started effs + n \<le>
         timers_started (snd (snd (fold (bc_step draw p fb sch) (Bc_stops # es) (b, m, effs))))))"
proof (intro conjI impI allI)
  fix es
  assume "bc_wait b \<noteq> Some Expired"
  then have "bc_done (bc_stop b)"
    by (cases "bc_wait b"; cases "the (bc_wait b)") (auto simp: bc_done_def bc_stop_def)
  then show "\<exists>b'. fold (bc_step draw p fb sch) (Bc_stops # es) (b, m, effs) = (b', m, effs)"
    using bc_done_run [of "bc_stop b"] by fastforce
next
  fix n
  assume "bc_wait b = Some Expired"
  then have "bc_wait (bc_stop b) = Some Expired" by (simp add: bc_stop_def)
  from bc_rounds [OF this] show "\<exists>es. timers_started effs + n \<le>
      timers_started (snd (snd (fold (bc_step draw p fb sch) (Bc_stops # es) (b, m, effs))))"
    by (intro exI [of _ "concat (replicate n [Bc_handler, Bc_expires])"]) simp
qed

theorem broadcaster_stop_races_timer_witness:
  "let m = (new_manager (\<lambda>_. demo_session) :: (_, unit) manager); b = fst (bc_start (new_broadcaster (41 :: nat)) :: _ \<times> (unit, unit) manager_effect list);
       step = bc_step (\<lambda>n. (of_nat n, n + 1)) big_platform flat_fb flat_peer_schema;
       (b', _, _) = step Bc_expires (b, m, [])
   in bc_wait b' = Some Expired \<and> (\<exists>es. 5 \<le> timers_started (snd (snd (fold step (Bc_stops # es) (b', m, [])))))"
proof -
  let ?b = "(new_broadcaster (41 :: nat))\<lparr>bc_wait := Some Expired\<rparr>"
  let ?m = "new_manager (\<lambda>_. demo_session) :: (_, unit) manager"
  have "\<exists>es. timers_started ([] :: (unit, (unit, unit) session_effect) manager_effect list) + 5 \<le> timers_started
      (snd (snd (fold (bc_step (\<lambda>n. (of_nat n, n + 1)) big_platform flat_fb flat_peer_schema) (Bc_stops # es) (?b, ?m, []))))"
    using broadcaster_stop_races_timer [of ?b "\<lambda>n. (of_nat n, n + 1)" big_platform flat_fb flat_peer_schema ?m "[]"]
    by simp
  then show ?thesis by (simp add: Let_def bc_start_def bc_schedule_def timers_started_def)
qed

end
