(* ===== verification/Programs.thy ===== *)
theory Programs
  imports Peer Manager_Threads
begin

text \<open>
  The example programs as a whole: what their \<^verbatim>\<open>main\<close> functions do around the pieces of
  \<open>Client_Server\<close> and \<open>Peer\<close> (the choice of the client, the \<^verbatim>\<open>try\<close> blocks and the exit status), and
  what their signal handlers do to a running program.
\<close>

section \<open>The clients' main function\<close>

text \<open>
  How a client program goes on: it ends with a status after its reports, it serves the events of an
  asynchronous session or of a reconnecting manager, or it never returns. An exception is logged
  and ends the program with status zero, like success.
\<close>

datatype ('s, 'r) client_run =
    Ended int "client_report list"
  | Serving_session "client_report list" 's
  | Serving_manager 'r
  | Hung

definition client_program ::
  "'n asio_ssl \<Rightarrow> ('n boost_ssl_context \<Rightarrow> 'x) \<Rightarrow> 'x asio \<Rightarrow> platform \<Rightarrow> ('b, 'o) fb_lib \<Rightarrow> size_t \<Rightarrow> ('b, 'o) client_schema \<Rightarrow>
   unit outcome \<Rightarrow> ('s, 'n boost_ssl_context, 'd, 'c) boost_session_ops \<Rightarrow> ('s, 'n boost_ssl_context, 'a) session_factory \<Rightarrow>
   'd \<Rightarrow> (sid \<Rightarrow> 's) \<Rightarrow> string list \<Rightarrow>
   (('u, 'm, 'x) session_result, sid \<times> ('s, log_callback, 'n boost_ssl_context, 'd, 'c) boost_result) client_run" where
  "client_program lib stream a p fb lim sch acceptor ops factory two objs argv =
     (case client_main argv of
        Silent \<Rightarrow> (case run_silent_client lib stream a of Throw _ \<Rightarrow> Ended 0 [] | Return r \<Rightarrow> Ended 0 [r])
      | Reconnecting \<Rightarrow>
          (case run_reconnect_client lib acceptor ops factory two objs of
             Throw _ \<Rightarrow> Ended 0 []
           | Return r \<Rightarrow> Serving_manager r)
      | Sync_then_async \<Rightarrow>
          (case run_sync_client lib stream a p fb lim sch of
             None \<Rightarrow> Hung
           | Some (Throw _) \<Rightarrow> Ended 0 []
           | Some (Return r) \<Rightarrow>
               (case run_async_client lib stream a p fb sch of
                  Throw _ \<Rightarrow> Ended 0 [r]
                | Return (Some failure, _) \<Rightarrow> Ended 0 [r, failure]
                | Return (None, res) \<Rightarrow> Serving_session [r] res)))"

text \<open>What the asynchronous client logs while its session runs.\<close>

definition async_client_output :: "('b, 'o) client_schema \<Rightarrow> (u8 \<times> bool \<times> byte list) list \<Rightarrow> u64 list" where
  "async_client_output sch ms = concat (map (\<lambda>(mid, sys, body). if sys then [] else async_client_log sch mid body) ms)"

section \<open>Signals and the end of the programs\<close>

text \<open>\<^verbatim>\<open>SIGINT\<close> or \<^verbatim>\<open>SIGTERM\<close>.\<close>

definition server_on_signal ::
  "('s, 'l, 'd, 'c) boost_session_ops \<Rightarrow> ('s, log_callback, 'l, 'd) boost_manager \<Rightarrow> ('s, log_callback, 'l, 'd, 'c) boost_result" where
  "server_on_signal ops manager = boost_stop ops manager"

definition client_on_signal ::
  "('s, 'l, 'd, 'c) boost_session_ops \<Rightarrow> ('s, log_callback, 'l, 'd) boost_manager \<Rightarrow> ('s, log_callback, 'l, 'd, 'c) boost_result" where
  "client_on_signal ops manager = boost_stop ops manager"

definition peer_on_signal ::
  "('s, 'l, 'd, 'c) boost_session_ops \<Rightarrow> 'g broadcaster \<Rightarrow> ('s, log_callback, 'l, 'd) boost_manager \<Rightarrow>
   'g broadcaster \<times> ('s, log_callback, 'l, 'd, 'c) boost_result" where
  "peer_on_signal ops random_broadcaster manager =
     (let random_broadcaster = bc_stop random_broadcaster in (random_broadcaster, boost_stop ops manager))"

text \<open>The exit status once the pool has finished, or after an exception.\<close>

definition server_status :: "'r outcome \<Rightarrow> int" where
  "server_status started = (case started of Return _ \<Rightarrow> 0 | Throw _ \<Rightarrow> 0)"

definition peer_status :: "'r option outcome \<Rightarrow> int" where
  "peer_status started = (case started of Return None \<Rightarrow> 1 | Return (Some _) \<Rightarrow> 0 | Throw _ \<Rightarrow> 0)"

section \<open>Lemmas\<close>

lemma sync_exchange_returns:
  assumes "asio_stream_ok a inbound outbound" and "boost_endian_ok p"
  shows "sync_exchange a p fb lim sch sock \<noteq> None"
proof -
  let ?sock = "snd (send (tcp_ops a) p fb (CreateTestRequest sch) False sock RequestId_Test 0x12345)"
  have "op_max_message_size (tcp_ops a) ?sock = max_message_size ?sock" by (simp add: tcp_ops_def)
  then have "\<exists>r b s. recv_buffer (tcp_ops a) p fb lim ?sock [] = Some (r, b, s)"
    using stream_socket.recv_loop_first_message [OF tcp_stream_socket [OF assms(1)] assms(2) refl TrueI,
        of fb lim "max_message_size ?sock" ?sock "[]"]
    by (auto simp: recv_matches_def recv_buffer_def)
  then have "\<exists>r b s. recv (tcp_ops a) p fb lim (TestResponse_table sch) ?sock [] = Some (r, b, s)"
    by (auto simp: recv_def split: outcome.splits option.splits)
  then show ?thesis
    by (auto simp: sync_exchange_def Let_def case_prod_beta split: outcome.splits option.splits)
qed

lemma run_sync_client_returns:
  assumes "asio_stream_ok a inbound outbound" and "boost_endian_ok p"
  shows "run_sync_client lib stream a p fb lim sch \<noteq> None"
  using sync_exchange_returns [OF assms] by (auto simp: run_sync_client_def split: outcome.splits option.splits)

lemma async_log_response:
  assumes "schema_ok fb sch"
  shows "async_client_log sch ResponseId_Test (serialise (fb_ops fb) (CreateTestResponse sch) k) = [k]"
proof -
  have rt: "table_roundtrip (fb_ops fb) (CreateTestResponse sch) (TestResponse_table sch) (\<lambda>k. \<lparr>response_key = k\<rparr>)"
    using assms by (simp add: schema_ok_def)
  from table_roundtripD(1,2) [OF rt, of k] show ?thesis
    by (simp add: async_client_log_def response_router_def process_def handle_test_response_def)
qed

lemma async_output_filter:
  "async_client_output sch ms = concat (map (\<lambda>(mid, sys, body). async_client_log sch mid body) (filter (\<lambda>(mid, sys, body). \<not> sys) ms))"
  by (induction ms) (auto simp: async_client_output_def)

lemma async_handler_ok: "handler_ok async_client_handle_message"
  by (simp add: handler_ok_def async_client_handle_message_def)

lemma close_all_streams:
  assumes "distinct is"
  shows "for_each_session (\<lambda>i m. (update_object i (op_close ops (objects m i)) m, [Close_session i])) is m =
    (m\<lparr>objects := (\<lambda>i. if i \<in> set is then op_close ops (objects m i) else objects m i)\<rparr>, map Close_session is)"
  using assms
proof (induction "is" arbitrary: m)
  case (Cons i "is")
  let ?m = "update_object i (op_close ops (objects m i)) m"
  have "(\<lambda>j. if j \<in> set is then op_close ops (objects ?m j) else objects ?m j) =
      (\<lambda>j. if j \<in> set (i # is) then op_close ops (objects m j) else objects m j)"
    using Cons.prems by (auto simp: update_object_def)
  moreover have "?m\<lparr>objects := obj\<rparr> = m\<lparr>objects := obj\<rparr>" for obj by (simp add: update_object_def)
  ultimately show ?case using Cons.IH [of ?m] Cons.prems by (simp add: Let_def)
qed simp

section \<open>Properties\<close>

text \<open>A client program never hangs on a connection: over a stream of finitely many bytes, whatever they are,
  the blocking client returns, with a report or an exception, and the program goes on.\<close>

theorem client_program_returns:
  assumes "asio_stream_ok a inbound outbound" and "boost_endian_ok p"
  shows "client_program lib stream a p fb lim sch acceptor ops factory two objs argv \<noteq> Hung"
  using run_sync_client_returns [OF assms, of lib stream fb lim sch]
  by (auto simp: client_program_def split: client_mode.splits outcome.splits option.splits)

text \<open>The asynchronous client logs exactly the keys of the responses it received, in order, whatever
  heartbeat frames arrive between them and however the bytes are split into reads.\<close>

theorem async_client_logs_responses:
  assumes "flatbuffers_ok fb" and "schema_ok fb sch" and "boost_endian_ok p"
    and "(session_step async_client_handle_message a p fb lim)\<^sup>*\<^sup>* (run_start s) r"
    and "all_fit fb lim (max_message_size (session_socket s)) ms" and "run_input r = stream_bytes fb ms"
    and "run_reads r = [(8, After_frame_size)]"
    and "filter (\<lambda>(mid, sys, body). \<not> sys) ms =
           map (\<lambda>k. (ResponseId_Test, False, serialise (fb_ops fb) (CreateTestResponse sch) k)) keys"
  shows "async_client_output sch (handled (run_trace r)) = keys"
proof -
  have inv: "session_inv fb lim (max_message_size (session_socket s)) r"
    by (rule reachable_inv [OF assms(4,3) async_handler_ok])
  from session_inv_waiting(3) [OF this, of 8 After_frame_size] decode_stream_bytes [OF assms(1,5)] assms(6,7)
  have "handled (run_trace r) = ms" by simp
  moreover have "concat (map (\<lambda>(mid, sys, body). async_client_log sch mid body)
      (map (\<lambda>k. (ResponseId_Test, False, serialise (fb_ops fb) (CreateTestResponse sch) k)) keys)) = keys"
    by (induction keys) (simp_all add: async_log_response [OF assms(2)])
  ultimately show ?thesis by (simp add: async_output_filter assms(8))
qed

text \<open>A signal shuts the server down: the acceptor is closed and a pending accept ends without starting
  another one, every registered session is closed and forgotten in registration order, no other
  object is touched, and the sessions' own error paths, which follow, find nothing to remove.\<close>

theorem server_shuts_down:
  assumes "server_on_signal (tcp_session_ops a) m = (m', effs)" and "distinct (mgr_sessions m)"
  shows "effs = Acceptor_closed # map Close_session (mgr_sessions m) \<and> session_count m' = 0 \<and>
    mgr_connections_per_ip m' = Map.empty \<and> \<not> acceptor_open m' \<and>
    (\<forall>i. objects m' i = (if i \<in> set (mgr_sessions m) then fst (session_stop a (objects m i)) else objects m i)) \<and>
    on_accept (tcp_session_ops a) factory m' True x = (Return (), m', []) \<and>
    remove_session (tcp_session_ops a) run removed_hook m' j = (Return (), m', [])"
proof -
  let ?m = "m\<lparr>reconnect_stopped := True, reconnect_map := Map.empty, acceptor_open := False\<rparr>"
  have "(m', effs) = (?m\<lparr>objects := (\<lambda>i. if i \<in> set (mgr_sessions m) then op_close (so_socket (tcp_session_ops a)) (objects ?m i) else objects ?m i),
      mgr_sessions := [], mgr_connections_per_ip := Map.empty\<rparr>, Acceptor_closed # map Close_session (mgr_sessions m))"
    using assms(1) unfolding server_on_signal_def boost_stop_def manager_stop_def Let_def
    by (simp add: close_all_streams assms(2) eq_commute)
  then show ?thesis
    by (simp add: session_count_def on_accept_def remove_session_def tcp_session_ops_def session_socket_ops_def)
qed

end
