(* ===== verification/Spec2Isabelle.thy ===== *)
theory Spec2Isabelle
  imports Write_Queue Memory_Socket Data_Races Manager_Threads Programs
begin

text \<open>
  A verification development for SocketSL, a C++ library for framed, typed messages over TLS
  connections (sources under \<^verbatim>\<open>src/\<close>, example programs under \<^verbatim>\<open>examples/\<close>).

  \<^bold>\<open>The program.\<close> A message is serialised with FlatBuffers and sent as one frame: eight bytes of
  little-endian header size, a header (identifier, body size, system flag) and the body. A socket
  queues asynchronous writes and guards a connection with idle, heartbeat and handshake timers. A
  program receives either with the blocking \<^verbatim>\<open>recv\<close> or with a session, a chain of asynchronous reads
  that hands complete messages to a virtual function, from where a router dispatches them by
  identifier. A session manager accepts and dials sessions, limits them in all and per address, and
  redials dropped sessions with exponential backoff.

  \<^bold>\<open>The theories\<close>, in the order of the sources' dependencies:

  \<^item> \<open>Prelude\<close>: machine types, C++ exceptions as values (\<open>outcome\<close>), vector operations, generic lemmas,
    and the locales \<open>step_invariant\<close> and \<open>decreasing_steps\<close> that every state machine interprets.
  \<^item> \<open>Endian\<close> (\<^verbatim>\<open>src/endian/endian.hpp\<close>): byte order conversions on a platform of either byte order.
  \<^item> \<open>Serialisation\<close> (\<^verbatim>\<open>src/serialisation/serialisation.hpp\<close>, \<^verbatim>\<open>src/message/*.fbs\<close>): the wrappers around
    FlatBuffers and the message schema.
  \<^item> \<open>Socket_Interface\<close> (\<^verbatim>\<open>class socket\<close> of \<^verbatim>\<open>src/network/socket.hpp\<close>): the abstract class as a record of
    operations; its contracts are the locales \<open>msg_socket\<close>, \<open>stream_socket\<close> and \<open>managed_socket\<close>.
  \<^item> \<open>Memory_Socket\<close> (\<^verbatim>\<open>tests/memory_socket.hpp\<close>): the loopback socket of the unit tests, a \<open>stream_socket\<close>.
  \<^item> \<open>Message\<close> (\<^verbatim>\<open>src/message/message.hpp\<close>, \<^verbatim>\<open>message.cpp\<close>): building, sending and receiving frames, and the
    reference decoder \<open>decode_frame\<close>.
  \<^item> \<open>Wire\<close>: frames against the wire format; the receive loop follows the reference decoder on every
    stream socket.
  \<^item> \<open>Tcp_Socket\<close>, \<open>Tcp_Lemmas\<close> (\<^verbatim>\<open>boost_tcp_socket\<close> of \<^verbatim>\<open>src/network/socket.cpp\<close>): every operation and every
    completion handler; blocking receive over a connection.
  \<^item> \<open>Write_Queue\<close>: \<^verbatim>\<open>async_write\<close> and \<^verbatim>\<open>write_next\<close> as an interleaving machine whose atomic steps are the
    sections under \<^verbatim>\<open>write_mutex_\<close>.
  \<^item> \<open>Heartbeat\<close>: the timers over arbitrary sequences of connects, handshakes, reads, writes, closes and
    timer completions; the timers are pointers that are null until \<^verbatim>\<open>make_unique\<close>.
  \<^item> \<open>Router\<close> (\<^verbatim>\<open>src/router/router.hpp\<close>): dispatch as a lookup in a routing table.
  \<^item> \<open>Session\<close>, \<open>Session_Run\<close>, \<open>Session_Delivery\<close> (\<^verbatim>\<open>src/connection/session.cpp\<close>): the read chain, its machine
    with arbitrary completions, timers and writes, and what it delivers.
  \<^item> \<open>Lifetime\<close>: who keeps a session alive. The machine of \<open>Session_Run\<close> with the owners of the session (the
    registry, the program, handlers of queued writes, and the pending operations according to what
    their lambdas capture), the writes and timer waits that are pending, the destruction of the
    object, and handlers that run after it.
  \<^item> \<open>Data_Races\<close>: \<^verbatim>\<open>async_write\<close> and the completion handlers of socket and session, statement by statement, as
    programs of a state monad that record each access of a member, each call and whether \<^verbatim>\<open>write_mutex_\<close>
    is held. Without the record they are the operations of \<open>Tcp_Socket\<close> and \<open>Session\<close>.
  \<^item> \<open>Session_Manager\<close>, \<open>Admission\<close> (\<^verbatim>\<open>src/connection/session_manager.cpp\<close>): registry, counts, limits,
    callbacks; sessions are objects of an explicit heap and are reached through the contract
    \<open>managed_session\<close>; \<open>inbound_step\<close> are the histories of a manager that only accepts.
  \<^item> \<open>Manager_Threads\<close>: \<^verbatim>\<open>register_and_start\<close>, \<^verbatim>\<open>remove_session\<close> and \<^verbatim>\<open>stop\<close> split where \<^verbatim>\<open>sessions_mutex_\<close> is
    released and interleaved by any number of threads, with a log of the callbacks. A session is
    registered when its handshake completes and may be removed at any time.
  \<^item> \<open>Reconnect\<close>, \<open>Backoff\<close> (\<^verbatim>\<open>boost_session_manager\<close> of \<^verbatim>\<open>src/connection/session_manager.hpp\<close>): the accept loop,
    dialling, reconnection with backoff, stop.
  \<^item> \<open>Ssl_Context\<close> (\<^verbatim>\<open>src/network/ssl.cpp\<close>): the wrappers around the native context, the contract
    \<open>ssl_contract\<close> of the abstract class, and its use in the programs.
  \<^item> \<open>Client_Server\<close>, \<open>Peer\<close>, \<open>Programs\<close> (\<^verbatim>\<open>examples/\<close>): the programs, which put all components together, with
    their main functions and signal handlers.

  \<^bold>\<open>State and effects.\<close> A class is a record of its members. A synchronous operation returns the new
  state; an exception is \<open>Throw\<close> in an \<open>outcome\<close>. Calls of Boost.Asio's asynchronous functions, of
  users' handlers and of virtual functions are recorded in order as values, and the completion
  handler of each such call is an operation of its own, so that any order of completions is a
  sequence of operations. Lambdas are values of a datatype with what they captured.

  \<^bold>\<open>Parameters.\<close> Code that is not in the repository is an argument of the operations that use it, with
  the documented behaviour as a hypothesis: FlatBuffers and the code that flatc generates
  (\<open>flatbuffers_ok\<close>, \<open>schema_ok\<close>, \<open>peer_schema_ok\<close>), \<^verbatim>\<open>boost::endian\<close> (\<open>boost_endian_ok\<close>), Asio's
  synchronous streams (\<open>asio_stream_ok\<close>) and its TLS context (\<open>ssl_library_ok\<close>). So are the library
  user's functions: \<^verbatim>\<open>handle_message\<close> (\<open>handler_ok\<close>, \<open>handler_disciplined\<close>) and the callbacks of the manager
  (\<open>callbacks_ok\<close>, \<open>callbacks_keep\<close>, \<open>callbacks_private\<close>, \<open>limits_kept\<close>, \<open>settings_kept\<close>). Each hypothesis is
  shown to hold for a concrete instance in the witnesses. \<open>asio_stream_ok\<close> includes that a failed
  write leaves the inbound bytes readable.

  \<^bold>\<open>What is shown.\<close> Frames round trip across byte orders; both receive paths refine the reference
  decoder and agree; a session keeps exactly one read outstanding and delivers every message exactly
  once and in order, with bounded buffers; accepted writes go out in order, one at a time, and every
  handler is notified exactly once; the write queue is touched only under its mutex; a heartbeat
  closes a connection exactly when a ping stayed unanswered for an interval; the registry and its
  counts stay exact over every history, handshakes one after the other keep the limits, calls of
  several threads linearise, and the callbacks of each session run in order and at most once; a
  registered session never stops reading, and one that is forgotten is destroyed when its read
  fails; no call goes through a timer that was not created; redialling follows the policy, ends with
  its limit and does not survive a stop; a request to the example server is answered and its client
  reports the answer. Some theorems state where the code falls
  short of its comments: pings dropped on a full queue, IPv6 peers, limits under overlapping
  handshakes, timers armed before the handshake, dials that complete after a stop, allocation
  without a cap, write and timer handlers that outlive their session, handlers that race on a
  thread pool, a removal that overtakes \<^verbatim>\<open>on_connect\<close>, and a broadcaster that survives its stop.

  \<^bold>\<open>Bounds, loops and termination.\<close> The loop of \<^verbatim>\<open>recv_buffer\<close> may run forever on an endless stream, so
  \<open>recv_loop\<close> is a partial function into \<open>option\<close>; over a finite stream it is proved to return. The
  reference decoders recurse on the length of the remaining bytes. There is no fuel. The largest
  vector that can be allocated is the argument \<open>lim\<close>. Sizes that count elements are natural numbers;
  on the wire they are 64-bit words, and identifiers, addresses and ports are words of their width.

  \<^bold>\<open>Not modelled\<close>: the unit tests (except the loopback socket they use), CMake files, log output, the
  sleep of the silent client, and the encryption that Asio performs on the stream. The thread pools
  of the example programs appear as the arbitrary interleaving of handlers and calls; the handlers of
  reconnection are atomic steps, so a stop between the test of \<^verbatim>\<open>reconnect_stopped_\<close> and what follows it
  is not modelled. Life times are modelled for sessions and their sockets, not for managers and
  contexts. A failure of \<^verbatim>\<open>close()\<close> in a timer handler is recorded as an exception that leaves the
  handler (\<open>Raise\<close>); what the thread pool does with it is not modelled.
\<close>

end
